(* ===== verification/Prelude.thy ===== *)
theory Prelude
  imports Main "HOL-Library.Word"
begin

text \<open>
  Shared vocabulary of the ShaunDB development: machine integers and byte strings, the
  outcome of a C++ call (a value, or the first failed assertion or undefined access),
  bounds-checked reads and writes of a character buffer, and the list and word lemmas the
  components use.
\<close>

unbundle bit_operations_syntax

section \<open>Machine integers and byte strings\<close>

type_synonym u8 = "8 word"
type_synonym u32 = "32 word"
type_synonym u64 = "64 word"

text \<open>The contents of a \<open>std::string\<close>, a \<open>std::string_view\<close>, a file or a raw buffer.\<close>

type_synonym bytes = "u8 list"

named_theorems res_simps \<open>equations of the outcome monad\<close>
named_theorems buf_simps \<open>reads and writes of a buffer split as \<open>pre @ mid @ post\<close>\<close>
named_theorems codec \<open>encoder and decoder equations\<close>

section \<open>Outcomes\<close>

text \<open>
  What can stop a C++ call short of a value. \<open>OutOfBounds\<close> is a read or write outside the
  object, \<open>NullDeref\<close> an access through a null pointer, \<open>AssertFail\<close> a failed
  \<open>assert\<close>, \<open>UseAfterFree\<close> an access through a dangling pointer or iterator,
  \<open>Deadlock\<close> locking a mutex that is never released, \<open>MissingReturn\<close> flowing off the
  end of a function that returns a value, \<open>SignedOverflow\<close> a result that a signed integer
  type cannot hold, \<open>Uninitialized\<close> the use of a pointer that was never set, \<open>BadEnumCast\<close> the cast of
  an integer to an enumeration that has no such value.
\<close>

datatype cxx_error =
    OutOfBounds
  | NullDeref
  | AssertFail
  | UseAfterFree
  | Deadlock
  | MissingReturn
  | SignedOverflow
  | Uninitialized
  | BadEnumCast

type_synonym 'a res = "cxx_error + 'a"

fun rbind :: "'a res \<Rightarrow> ('a \<Rightarrow> 'b res) \<Rightarrow> 'b res" where
  "rbind (Inl e) f = Inl e"
| "rbind (Inr x) f = f x"

lemma rbind_cong [fundef_cong]:
  "m = m' \<Longrightarrow> (\<And>x. m' = Inr x \<Longrightarrow> f x = g x) \<Longrightarrow> rbind m f = rbind m' g"
  by (cases m') auto

definition guard :: "bool \<Rightarrow> cxx_error \<Rightarrow> unit res" where
  "guard b e = (if b then Inr () else Inl e)"

lemma guard_simps [simp, res_simps]:
  "guard True e = Inr ()"
  "guard False e = Inl e"
  by (simp_all add: guard_def)

lemma rbind_assoc [res_simps]: "rbind (rbind m f) g = rbind m (\<lambda>x. rbind (f x) g)"
  by (cases m) auto

lemma rbind_eq_Inr_iff: "rbind m f = Inr y \<longleftrightarrow> (\<exists>x. m = Inr x \<and> f x = Inr y)"
  by (cases m) auto

lemma rbind_eq_Inl_iff: "rbind m f = Inl e \<longleftrightarrow> m = Inl e \<or> (\<exists>x. m = Inr x \<and> f x = Inl e)"
  by (cases m) auto

lemma guard_eq_Inr_iff [simp]: "guard b e = Inr u \<longleftrightarrow> b"
  by (simp add: guard_def)

section \<open>Bounds-checked buffers\<close>

text \<open>Reading one element of an array (a byte of a string, an entry of a table).\<close>

definition rd :: "'a list \<Rightarrow> nat \<Rightarrow> 'a res" where
  "rd m i = (if i < length m then Inr (m ! i) else Inl OutOfBounds)"

lemma rd_in [simp]: "i < length m \<Longrightarrow> rd m i = Inr (m ! i)"
  by (simp add: rd_def)

lemma rd_out [simp]: "length m \<le> i \<Longrightarrow> rd m i = Inl OutOfBounds"
  by (simp add: rd_def)

text \<open>
  The bytes that may be read through \<open>std::string::data()\<close>: the contents and the
  terminating NUL.
\<close>

definition c_str :: "bytes \<Rightarrow> bytes" where
  "c_str s = s @ [0]"

lemma length_c_str [simp]: "length (c_str s) = Suc (length s)"
  by (simp add: c_str_def)

text \<open>
  A view \<open>std::string_view(p, n)\<close>: constructing it reads nothing; its contents are taken
  where it is used, so they have to lie inside the object.
\<close>

definition view :: "bytes \<Rightarrow> nat \<Rightarrow> nat \<Rightarrow> bytes res" where
  "view m p n = (if p + n \<le> length m then Inr (take n (drop p m)) else Inl OutOfBounds)"

lemma view_in [simp]: "p + n \<le> length m \<Longrightarrow> view m p n = Inr (take n (drop p m))"
  by (simp add: view_def)

lemma view_append [buf_simps]:
  "p = length pre \<Longrightarrow> n = length mid \<Longrightarrow> view (pre @ mid @ post) p n = Inr mid"
  by (simp add: view_def)

text \<open>
  Writing through \<open>std::string::data()\<close>: any of the characters may be changed, and the
  terminator may be overwritten by NUL only.
\<close>

definition str_put :: "bytes \<Rightarrow> nat \<Rightarrow> u8 \<Rightarrow> bytes res" where
  "str_put s i b =
     (if i < length s then Inr (s[i := b])
      else if i = length s \<and> b = 0 then Inr s
      else Inl OutOfBounds)"

fun str_puts :: "bytes \<Rightarrow> nat \<Rightarrow> bytes \<Rightarrow> bytes res" where
  "str_puts s i [] = Inr s"
| "str_puts s i (b # bs) = rbind (str_put s i b) (\<lambda>s'. str_puts s' (Suc i) bs)"

lemma str_put_append:
  "i = length pre \<Longrightarrow> str_put (pre @ x # post) i b = Inr (pre @ b # post)"
  by (simp add: str_put_def)

lemma str_puts_append [buf_simps]:
  assumes "i = length pre" and "length old = length bs"
  shows "str_puts (pre @ old @ post) i bs = Inr (pre @ bs @ post)"
  using assms
proof (induction bs arbitrary: i pre old)
  case Nil
  then show ?case by simp
next
  case (Cons b bs)
  then obtain x old' where old: "old = x # old'" "length old' = length bs"
    by (cases old) auto
  have "str_puts ((pre @ [b]) @ old' @ post) (Suc i) bs = Inr ((pre @ [b]) @ bs @ post)"
    using Cons.prems old by (intro Cons.IH) auto
  then show ?case
    using Cons.prems old by (simp add: str_put_append)
qed

lemma str_puts_start [buf_simps]:
  "length old = length bs \<Longrightarrow> str_puts (old @ post) 0 bs = Inr (bs @ post)"
  using str_puts_append [of 0 "[]" old bs post] by simp

lemma str_puts_length: "str_puts s i bs = Inr s' \<Longrightarrow> length s' = length s"
  by (induction s i bs rule: str_puts.induct)
    (auto simp: rbind_eq_Inr_iff str_put_def split: if_splits)

section \<open>Words\<close>

lemma unat_u32_less: "unat (v :: u32) < 4294967296"
  by (rule less_le_trans [OF unsigned_less]) simp

lemma unat_u64_less: "unat (v :: u64) < 18446744073709551616"
  by (rule less_le_trans [OF unsigned_less]) simp

lemma unat_ucast_u64 [simp]: "unat (ucast (v :: u32) :: u64) = unat v"
  using unat_u32_less [of v] by (simp add: unsigned_ucast_eq take_bit_nat_eq_self_iff)

lemma bit_word_of_nat_iff: "bit (of_nat n :: 'a::len word) i \<longleftrightarrow> i < LENGTH('a) \<and> bit n i"
  by (simp add: bit_of_nat_iff)

lemma push_bit_take_drop:
  fixes w :: "'a::len word"
  shows "push_bit s (take_bit n w) OR push_bit (s + n) (drop_bit n w) = push_bit s w"
proof (rule bit_word_eqI)
  fix i
  assume "i < LENGTH('a)"
  then show "bit (push_bit s (take_bit n w) OR push_bit (s + n) (drop_bit n w)) i
      = bit (push_bit s w) i"
    by (cases "i < s + n") (auto simp: bit_simps)
qed

section \<open>Decimal numbers\<close>

text \<open>What \<open>std::to_string\<close> and a format field \<open>{}\<close> print for an unsigned number.\<close>

fun dec :: "nat \<Rightarrow> bytes" where
  "dec n = (if n < 10 then [48 + of_nat n] else dec (n div 10) @ [48 + of_nat (n mod 10)])"

declare dec.simps [simp del]

definition is_digit :: "u8 \<Rightarrow> bool" where
  "is_digit c \<longleftrightarrow> 48 \<le> c \<and> c \<le> 57"

definition dec_val :: "bytes \<Rightarrow> nat" where
  "dec_val ds = foldl (\<lambda>v d. 10 * v + (unat d - 48)) 0 ds"

lemma digit_facts: "d < 10 \<Longrightarrow> unat (48 + of_nat d :: u8) = 48 + d"
  by (simp add: unat_word_ariths unat_of_nat)

lemma is_digit_nat: "is_digit c \<longleftrightarrow> 48 \<le> unat c \<and> unat c \<le> 57"
  by (simp add: is_digit_def word_le_nat_alt)

lemma dec_digits: "c \<in> set (dec n) \<Longrightarrow> is_digit c"
  by (induction n rule: dec.induct)
    (subst (asm) (2) dec.simps, auto simp: is_digit_nat digit_facts split: if_splits)

lemma dec_nonempty [simp]: "dec n \<noteq> []"
  by (subst dec.simps) simp

lemma dec_val_dec [simp]: "dec_val (dec n) = n"
proof (induction n rule: dec.induct)
  case (1 n)
  then show ?case
    by (subst dec.simps) (simp add: dec_val_def digit_facts)
qed

end
