(* ===== verification/Timers.thy ===== *)
theory Timers
  imports Prelude
begin

text \<open>
  Timers of the event loop: \<open>src/net/single_timer.cpp\<close> and \<open>src/net/repeated_timer.cpp\<close>. libevent is
  an argument, with what its documentation promises as a hypothesis. A callback is a name; what
  it does with the timer it is given and with the state it is bound to is an argument too.
\<close>

section \<open>Events of libevent\<close>

type_synonym timeval = "int \<times> int"

text \<open>
  The calls the timers make, whether an event has been set up and when it is due, and what the loop
  makes of a due event before it calls back. The results of the calls are \<open>0\<close> or \<open>-1\<close>.
\<close>

record 'e evlib =
  event_assign :: "'e \<Rightarrow> int \<times> 'e"
  event_add :: "timeval \<Rightarrow> 'e \<Rightarrow> int \<times> 'e"
  evtimer_del :: "'e \<Rightarrow> 'e"
  event_initialized :: "'e \<Rightarrow> bool"
  evtimer_pending :: "'e \<Rightarrow> timeval option"
  event_process :: "'e \<Rightarrow> 'e"

text \<open>Nothing is promised of an event that was never set up, nor of setting up a pending event.\<close>

definition evlib_documented :: "'e evlib \<Rightarrow> bool" where
  "evlib_documented L \<longleftrightarrow>
     (\<forall>e. \<not> event_initialized L e \<or> evtimer_pending L e = None \<longrightarrow> fst (event_assign L e) = 0 \<longrightarrow>
        event_initialized L (snd (event_assign L e)) \<and> evtimer_pending L (snd (event_assign L e)) = None) \<and>
     (\<forall>e tv. event_initialized L e \<longrightarrow> event_initialized L (snd (event_add L tv e)) \<and>
        (fst (event_add L tv e) = 0 \<longrightarrow> evtimer_pending L (snd (event_add L tv e)) = Some tv) \<and>
        (fst (event_add L tv e) \<noteq> 0 \<longrightarrow> evtimer_pending L (snd (event_add L tv e)) = evtimer_pending L e)) \<and>
     (\<forall>e. event_initialized L e \<longrightarrow> event_initialized L (evtimer_del L e) \<and> evtimer_pending L (evtimer_del L e) = None) \<and>
     (\<forall>e. event_initialized L e \<longrightarrow> event_initialized L (event_process L e) \<and> evtimer_pending L (event_process L e) = None)"

text \<open>No call fails: arguments are valid and there is memory.\<close>

definition evlib_succeeds :: "'e evlib \<Rightarrow> bool" where
  "evlib_succeeds L \<longleftrightarrow> (\<forall>e. fst (event_assign L e) = 0) \<and> (\<forall>tv e. fst (event_add L tv e) = 0)"

definition event_armed :: "'e evlib \<Rightarrow> 'e \<Rightarrow> bool" where
  "event_armed L e \<longleftrightarrow> event_initialized L e \<and> evtimer_pending L e \<noteq> None"

section \<open>Timers that fire once\<close>

record ('e, 'cb) SingleTimer =
  si_callback :: "'cb option"
  si_timerName :: bytes
  si_server :: bool
  si_running :: bool
  si_tick_evt :: 'e
  si_time_val :: timeval

definition SingleTimer_ctor :: "('e, 'cb) SingleTimer \<Rightarrow> bool \<Rightarrow> bytes \<Rightarrow> ('e, 'cb) SingleTimer" where
  "SingleTimer_ctor garbage sev timerName = garbage\<lparr>si_callback := None, si_timerName := timerName, si_server := sev\<rparr>"

definition SingleTimer_Init ::
  "timeval \<Rightarrow> 'cb option \<Rightarrow> bool \<Rightarrow> bytes \<Rightarrow> ('e, 'cb) SingleTimer \<Rightarrow> ('e, 'cb) SingleTimer" where
  "SingleTimer_Init time_val callback sev timername t =
     t\<lparr>si_time_val := time_val, si_callback := callback, si_server := sev, si_timerName := timername, si_running := False\<rparr>"

definition SingleTimer_Run :: "'e evlib \<Rightarrow> ('e, 'cb) SingleTimer \<Rightarrow> ('e, 'cb) SingleTimer res" where
  "SingleTimer_Run L t =
     rbind (guard (si_server t) AssertFail) (\<lambda>_.
     let (ue, e) = event_assign L (si_tick_evt t);
         (ue, e) = event_add L (si_time_val t) e in
     Inr (t\<lparr>si_tick_evt := e, si_running := True\<rparr>))"

definition SingleTimer_Stop :: "'e evlib \<Rightarrow> ('e, 'cb) SingleTimer \<Rightarrow> ('e, 'cb) SingleTimer" where
  "SingleTimer_Stop L t =
     (let t = (if si_running t then t\<lparr>si_tick_evt := evtimer_del L (si_tick_evt t)\<rparr> else t) in
      t\<lparr>si_running := False\<rparr>)"

definition SingleTimer_Reset ::
  "'e evlib \<Rightarrow> timeval \<Rightarrow> 'cb option \<Rightarrow> bytes \<Rightarrow> ('e, 'cb) SingleTimer \<Rightarrow> ('e, 'cb) SingleTimer res" where
  "SingleTimer_Reset L time_val callback timername t =
     SingleTimer_Run L (t\<lparr>si_tick_evt := evtimer_del L (si_tick_evt t), si_time_val := time_val, si_callback := callback,
       si_timerName := timername\<rparr>)"

definition SingleTimer_dtor :: "'e evlib \<Rightarrow> ('e, 'cb) SingleTimer \<Rightarrow> 'e" where
  "SingleTimer_dtor L t = si_tick_evt (SingleTimer_Stop L t)"

text \<open>What the loop calls; \<open>call\<close> runs a callback.\<close>

definition SingleTimerCall ::
  "'e evlib \<Rightarrow> ('cb \<Rightarrow> ('e, 'cb) SingleTimer \<times> 's \<Rightarrow> (('e, 'cb) SingleTimer \<times> 's) res) \<Rightarrow>
   ('e, 'cb) SingleTimer \<times> 's \<Rightarrow> (('e, 'cb) SingleTimer \<times> 's) res" where
  "SingleTimerCall L call ts =
     rbind (case si_callback (fst ts) of None \<Rightarrow> Inr ts | Some cb \<Rightarrow> call cb ts) (\<lambda>(t, s).
       Inr ((SingleTimer_Stop L t)\<lparr>si_running := False\<rparr>, s))"

section \<open>Timers that fire again and again\<close>

record ('e, 'cb) RepeatedTimer =
  re_timerName :: bytes
  re_server :: bool
  re_running :: bool
  re_tick_evt :: 'e
  re_time_val :: timeval
  re_callback :: "'cb option"

definition RepeatedTimer_ctor :: "('e, 'cb) RepeatedTimer \<Rightarrow> bool \<Rightarrow> bytes \<Rightarrow> ('e, 'cb) RepeatedTimer" where
  "RepeatedTimer_ctor garbage sev timerName =
     garbage\<lparr>re_timerName := timerName, re_server := sev, re_running := False, re_callback := None\<rparr>"

definition RepeatedTimer_Init ::
  "timeval \<Rightarrow> 'cb option \<Rightarrow> bool \<Rightarrow> bytes \<Rightarrow> ('e, 'cb) RepeatedTimer \<Rightarrow> ('e, 'cb) RepeatedTimer" where
  "RepeatedTimer_Init time_val cb sev timername t =
     t\<lparr>re_time_val := time_val, re_callback := cb, re_server := sev, re_timerName := timername, re_running := False\<rparr>"

definition RepeatedTimer_Run :: "'e evlib \<Rightarrow> ('e, 'cb) RepeatedTimer \<Rightarrow> ('e, 'cb) RepeatedTimer res" where
  "RepeatedTimer_Run L t =
     rbind (guard (re_server t) AssertFail) (\<lambda>_.
     let (ue, e) = event_assign L (re_tick_evt t);
         (ue, e) = event_add L (re_time_val t) e in
     Inr (t\<lparr>re_tick_evt := e, re_running := True\<rparr>))"

definition RepeatedTimer_Stop :: "'e evlib \<Rightarrow> ('e, 'cb) RepeatedTimer \<Rightarrow> ('e, 'cb) RepeatedTimer" where
  "RepeatedTimer_Stop L t = t\<lparr>re_tick_evt := evtimer_del L (re_tick_evt t), re_running := False\<rparr>"

definition RepeatedTimer_Reset ::
  "'e evlib \<Rightarrow> timeval \<Rightarrow> 'cb option \<Rightarrow> bytes \<Rightarrow> ('e, 'cb) RepeatedTimer \<Rightarrow> ('e, 'cb) RepeatedTimer res" where
  "RepeatedTimer_Reset L time_val callback timername t =
     RepeatedTimer_Run L (t\<lparr>re_tick_evt := evtimer_del L (re_tick_evt t), re_time_val := time_val, re_callback := callback,
       re_timerName := timername\<rparr>)"

text \<open>The event the timer leaves behind.\<close>

definition RepeatedTimer_dtor :: "'e evlib \<Rightarrow> ('e, 'cb) RepeatedTimer \<Rightarrow> 'e" where
  "RepeatedTimer_dtor L t = re_tick_evt (if re_running t then RepeatedTimer_Stop L t else t)"

definition getTimerName :: "('e, 'cb) RepeatedTimer \<Rightarrow> bytes" where
  "getTimerName t = re_timerName t"

definition RepeatedTimerCall ::
  "'e evlib \<Rightarrow> ('cb \<Rightarrow> ('e, 'cb) RepeatedTimer \<times> 's \<Rightarrow> (('e, 'cb) RepeatedTimer \<times> 's) res) \<Rightarrow>
   ('e, 'cb) RepeatedTimer \<times> 's \<Rightarrow> (('e, 'cb) RepeatedTimer \<times> 's) res" where
  "RepeatedTimerCall L call ts =
     rbind (case re_callback (fst ts) of None \<Rightarrow> Inr ts | Some cb \<Rightarrow> call cb ts) (\<lambda>(t, s).
       Inr (t\<lparr>re_tick_evt := snd (event_add L (re_time_val t) (re_tick_evt t))\<rparr>, s))"

text \<open>One turn of the loop for the timer: nothing while it is not pending.\<close>

definition repeated_turn ::
  "'e evlib \<Rightarrow> ('cb \<Rightarrow> ('e, 'cb) RepeatedTimer \<times> 's \<Rightarrow> (('e, 'cb) RepeatedTimer \<times> 's) res) \<Rightarrow>
   ('e, 'cb) RepeatedTimer \<times> 's \<Rightarrow> (('e, 'cb) RepeatedTimer \<times> 's) res" where
  "repeated_turn L call ts =
     (if event_armed L (re_tick_evt (fst ts)) then
        RepeatedTimerCall L call ((fst ts)\<lparr>re_tick_evt := event_process L (re_tick_evt (fst ts))\<rparr>, snd ts)
      else Inr ts)"

fun repeated_turns ::
  "nat \<Rightarrow> 'e evlib \<Rightarrow> ('cb \<Rightarrow> ('e, 'cb) RepeatedTimer \<times> 's \<Rightarrow> (('e, 'cb) RepeatedTimer \<times> 's) res) \<Rightarrow>
   ('e, 'cb) RepeatedTimer \<times> 's \<Rightarrow> (('e, 'cb) RepeatedTimer \<times> 's) res" where
  "repeated_turns 0 L call ts = Inr ts"
| "repeated_turns (Suc n) L call ts = rbind (repeated_turn L call ts) (repeated_turns n L call)"

definition single_turn ::
  "'e evlib \<Rightarrow> ('cb \<Rightarrow> ('e, 'cb) SingleTimer \<times> 's \<Rightarrow> (('e, 'cb) SingleTimer \<times> 's) res) \<Rightarrow>
   ('e, 'cb) SingleTimer \<times> 's \<Rightarrow> (('e, 'cb) SingleTimer \<times> 's) res" where
  "single_turn L call ts =
     (if event_armed L (si_tick_evt (fst ts)) then
        SingleTimerCall L call ((fst ts)\<lparr>si_tick_evt := event_process L (si_tick_evt (fst ts))\<rparr>, snd ts)
      else Inr ts)"

fun single_turns ::
  "nat \<Rightarrow> 'e evlib \<Rightarrow> ('cb \<Rightarrow> ('e, 'cb) SingleTimer \<times> 's \<Rightarrow> (('e, 'cb) SingleTimer \<times> 's) res) \<Rightarrow>
   ('e, 'cb) SingleTimer \<times> 's \<Rightarrow> (('e, 'cb) SingleTimer \<times> 's) res" where
  "single_turns 0 L call ts = Inr ts"
| "single_turns (Suc n) L call ts = rbind (single_turn L call ts) (single_turns n L call)"

section \<open>What both timers promise\<close>

text \<open>
  Calls a program may make of a timer it has set up: \<open>Run\<close> while the timer is not armed, \<open>Stop\<close> and
  \<open>Reset\<close> at any time.
\<close>

inductive timer_calls ::
  "('t \<Rightarrow> bool) \<Rightarrow> ('t \<Rightarrow> 't res) \<Rightarrow> ('t \<Rightarrow> 't) \<Rightarrow> ('p \<Rightarrow> 't \<Rightarrow> 't res) \<Rightarrow> 't \<Rightarrow> 't \<Rightarrow> bool"
  for armed run stop reset where
  calls_none: "timer_calls armed run stop reset t t"
| calls_run: "timer_calls armed run stop reset t u \<Longrightarrow> \<not> armed u \<Longrightarrow> run u = Inr v \<Longrightarrow>
    timer_calls armed run stop reset t v"
| calls_stop: "timer_calls armed run stop reset t u \<Longrightarrow> timer_calls armed run stop reset t (stop u)"
| calls_reset: "timer_calls armed run stop reset t u \<Longrightarrow> reset p u = Inr v \<Longrightarrow> timer_calls armed run stop reset t v"

text \<open>An armed timer is running, so stopping a timer always disarms it.\<close>

locale event_timer =
  fixes ok :: "'t \<Rightarrow> bool" and armed :: "'t \<Rightarrow> bool" and running :: "'t \<Rightarrow> bool"
    and run :: "'t \<Rightarrow> 't res" and stop :: "'t \<Rightarrow> 't" and reset :: "'p \<Rightarrow> 't \<Rightarrow> 't res"
  assumes armed_running: "ok t \<Longrightarrow> armed t \<Longrightarrow> running t"
    and run_ok: "ok t \<Longrightarrow> \<not> armed t \<Longrightarrow> \<exists>u. run t = Inr u \<and> ok u"
    and stop_ok: "ok t \<Longrightarrow> ok (stop t)"
    and stop_disarms: "ok t \<Longrightarrow> \<not> armed (stop t) \<and> \<not> running (stop t)"
    and reset_ok: "ok t \<Longrightarrow> \<exists>u. reset p t = Inr u \<and> ok u"
begin

lemma calls_ok: "timer_calls armed run stop reset t u \<Longrightarrow> ok t \<Longrightarrow> ok u"
proof (induction rule: timer_calls.induct)
  case (calls_run t u v)
  then show ?case using run_ok [of u] by auto
next
  case (calls_reset t u p v)
  then show ?case using reset_ok [of u p] by auto
qed (simp_all add: stop_ok)

lemma calls_then_stop: "timer_calls armed run stop reset t u \<Longrightarrow> ok t \<Longrightarrow> \<not> armed (stop u) \<and> \<not> running (stop u)"
  using calls_ok stop_disarms by blast

end

definition single_armed :: "'e evlib \<Rightarrow> ('e, 'cb) SingleTimer \<Rightarrow> bool" where
  "single_armed L t \<longleftrightarrow> event_armed L (si_tick_evt t)"

definition repeated_armed :: "'e evlib \<Rightarrow> ('e, 'cb) RepeatedTimer \<Rightarrow> bool" where
  "repeated_armed L t \<longleftrightarrow> event_armed L (re_tick_evt t)"

definition single_reset :: "'e evlib \<Rightarrow> timeval \<times> 'cb option \<times> bytes \<Rightarrow> ('e, 'cb) SingleTimer \<Rightarrow> ('e, 'cb) SingleTimer res" where
  "single_reset L p t = (case p of (tv, cb, name) \<Rightarrow> SingleTimer_Reset L tv cb name t)"

definition repeated_reset ::
  "'e evlib \<Rightarrow> timeval \<times> 'cb option \<times> bytes \<Rightarrow> ('e, 'cb) RepeatedTimer \<Rightarrow> ('e, 'cb) RepeatedTimer res" where
  "repeated_reset L p t = (case p of (tv, cb, name) \<Rightarrow> RepeatedTimer_Reset L tv cb name t)"

text \<open>A timer that was set up and run: its event is initialised.\<close>

definition single_ok :: "'e evlib \<Rightarrow> ('e, 'cb) SingleTimer \<Rightarrow> bool" where
  "single_ok L t \<longleftrightarrow> evlib_documented L \<and> evlib_succeeds L \<and> si_server t \<and> event_initialized L (si_tick_evt t) \<and>
     (single_armed L t \<longrightarrow> si_running t)"

definition repeated_ok :: "'e evlib \<Rightarrow> ('e, 'cb) RepeatedTimer \<Rightarrow> bool" where
  "repeated_ok L t \<longleftrightarrow> evlib_documented L \<and> evlib_succeeds L \<and> re_server t \<and> event_initialized L (re_tick_evt t) \<and>
     (repeated_armed L t \<longrightarrow> re_running t)"

lemma assign_add:
  assumes "evlib_documented L" "evlib_succeeds L" "\<not> event_armed L e" "event_assign L e = (r, e')" "event_add L tv e' = (r', e'')"
  shows "event_initialized L e'' \<and> evtimer_pending L e'' = Some tv"
proof -
  have "fst (event_assign L e) = 0" "fst (event_add L tv e') = 0" using assms(2) by (simp_all only: evlib_succeeds_def)
  moreover have "event_initialized L (snd (event_assign L e))"
    using assms(1,3) calculation(1) unfolding evlib_documented_def event_armed_def by blast
  ultimately show ?thesis using assms(1,4,5) unfolding evlib_documented_def by (metis snd_conv)
qed

lemma evtimer_del_not_armed:
  "evlib_documented L \<Longrightarrow> event_initialized L e \<Longrightarrow> event_initialized L (evtimer_del L e) \<and> \<not> event_armed L (evtimer_del L e)"
  by (simp add: evlib_documented_def event_armed_def)

lemma SingleTimer_Run_ok:
  assumes "evlib_documented L" "evlib_succeeds L" "si_server t" "\<not> single_armed L t"
  shows "\<exists>u. SingleTimer_Run L t = Inr u \<and> single_ok L u \<and> evtimer_pending L (si_tick_evt u) = Some (si_time_val t) \<and>
    si_running u \<and> si_callback u = si_callback t"
  using assms assign_add [OF assms(1,2)]
  by (auto simp: SingleTimer_Run_def single_ok_def single_armed_def case_prod_beta prod_eq_iff)

lemma RepeatedTimer_Run_ok:
  assumes "evlib_documented L" "evlib_succeeds L" "re_server t" "\<not> repeated_armed L t"
  shows "\<exists>u. RepeatedTimer_Run L t = Inr u \<and> repeated_ok L u \<and> evtimer_pending L (re_tick_evt u) = Some (re_time_val t) \<and>
    re_running u \<and> re_callback u = re_callback t \<and> re_time_val u = re_time_val t"
  using assms assign_add [OF assms(1,2)]
  by (auto simp: RepeatedTimer_Run_def repeated_ok_def repeated_armed_def case_prod_beta prod_eq_iff)

lemma SingleTimer_Stop_ok:
  "single_ok L t \<Longrightarrow> single_ok L (SingleTimer_Stop L t) \<and> \<not> single_armed L (SingleTimer_Stop L t) \<and>
     \<not> si_running (SingleTimer_Stop L t)"
  using evtimer_del_not_armed [of L "si_tick_evt t"]
  by (auto simp: single_ok_def single_armed_def SingleTimer_Stop_def)

lemma RepeatedTimer_Stop_ok:
  "repeated_ok L t \<Longrightarrow> repeated_ok L (RepeatedTimer_Stop L t) \<and> \<not> repeated_armed L (RepeatedTimer_Stop L t) \<and>
     \<not> re_running (RepeatedTimer_Stop L t)"
  using evtimer_del_not_armed [of L "re_tick_evt t"]
  by (auto simp: repeated_ok_def repeated_armed_def RepeatedTimer_Stop_def)

interpretation single: event_timer "single_ok L" "single_armed L" si_running "SingleTimer_Run L" "SingleTimer_Stop L"
  "single_reset L" for L :: "'e evlib"
proof unfold_locales
  fix t :: "('e, 'cb) SingleTimer" and p :: "timeval \<times> 'cb option \<times> bytes"
  show "single_ok L t \<Longrightarrow> single_armed L t \<Longrightarrow> si_running t" by (simp add: single_ok_def)
  show "\<exists>u. SingleTimer_Run L t = Inr u \<and> single_ok L u" if "single_ok L t" "\<not> single_armed L t"
    using that SingleTimer_Run_ok [of L t] by (auto simp: single_ok_def)
  show "\<exists>u. single_reset L p t = Inr u \<and> single_ok L u" if "single_ok L t"
  proof -
    obtain tv cb name where p: "p = (tv, cb, name)" by (cases p)
    let ?t = "t\<lparr>si_tick_evt := evtimer_del L (si_tick_evt t), si_time_val := tv, si_callback := cb, si_timerName := name\<rparr>"
    have "evlib_documented L" "evlib_succeeds L" "si_server ?t" "\<not> single_armed L ?t"
      using that evtimer_del_not_armed [of L "si_tick_evt t"] by (simp_all add: single_ok_def single_armed_def)
    from SingleTimer_Run_ok [OF this] show ?thesis
      by (auto simp: p single_reset_def SingleTimer_Reset_def)
  qed
qed (simp_all add: SingleTimer_Stop_ok)

interpretation repeated: event_timer "repeated_ok L" "repeated_armed L" re_running "RepeatedTimer_Run L"
  "RepeatedTimer_Stop L" "repeated_reset L" for L :: "'e evlib"
proof unfold_locales
  fix t :: "('e, 'cb) RepeatedTimer" and p :: "timeval \<times> 'cb option \<times> bytes"
  show "repeated_ok L t \<Longrightarrow> repeated_armed L t \<Longrightarrow> re_running t" by (simp add: repeated_ok_def)
  show "\<exists>u. RepeatedTimer_Run L t = Inr u \<and> repeated_ok L u" if "repeated_ok L t" "\<not> repeated_armed L t"
    using that RepeatedTimer_Run_ok [of L t] by (auto simp: repeated_ok_def)
  show "\<exists>u. repeated_reset L p t = Inr u \<and> repeated_ok L u" if "repeated_ok L t"
  proof -
    obtain tv cb name where p: "p = (tv, cb, name)" by (cases p)
    let ?t = "t\<lparr>re_tick_evt := evtimer_del L (re_tick_evt t), re_time_val := tv, re_callback := cb, re_timerName := name\<rparr>"
    have "evlib_documented L" "evlib_succeeds L" "re_server ?t" "\<not> repeated_armed L ?t"
      using that evtimer_del_not_armed [of L "re_tick_evt t"] by (simp_all add: repeated_ok_def repeated_armed_def)
    from RepeatedTimer_Run_ok [OF this] show ?thesis
      by (auto simp: p repeated_reset_def RepeatedTimer_Reset_def)
  qed
qed (simp_all add: RepeatedTimer_Stop_ok)


section \<open>Lemmas\<close>

lemma process_not_armed:
  "evlib_documented L \<Longrightarrow> event_initialized L e \<Longrightarrow>
     event_initialized L (event_process L e) \<and> evtimer_pending L (event_process L e) = None"
  by (simp add: evlib_documented_def)

lemma add_pending:
  assumes "evlib_documented L" "evlib_succeeds L" "event_initialized L e"
  shows "event_initialized L (snd (event_add L tv e)) \<and> evtimer_pending L (snd (event_add L tv e)) = Some tv"
proof -
  have "fst (event_add L tv e) = 0" using assms(2) by (simp only: evlib_succeeds_def)
  then show ?thesis using assms(1,3) by (simp only: evlib_documented_def)
qed

text \<open>A turn of an armed timer that has a callback, and the state between two turns.\<close>

definition ticking :: "'e evlib \<Rightarrow> 'cb \<Rightarrow> timeval \<Rightarrow> ('e, 'cb) RepeatedTimer \<Rightarrow> bool" where
  "ticking L cb tv t \<longleftrightarrow> re_callback t = Some cb \<and> event_initialized L (re_tick_evt t) \<and>
     evtimer_pending L (re_tick_evt t) = Some tv \<and> re_time_val t = tv"

text \<open>The callback leaves the timer it is given alone and does \<open>f\<close>.\<close>

definition plain_callback ::
  "('cb \<Rightarrow> ('e, 'cb) RepeatedTimer \<times> 's \<Rightarrow> (('e, 'cb) RepeatedTimer \<times> 's) res) \<Rightarrow> 'cb \<Rightarrow> ('s \<Rightarrow> 's) \<Rightarrow> bool" where
  "plain_callback call cb f \<longleftrightarrow> (\<forall>t s. call cb (t, s) = Inr (t, f s))"

lemma ticking_turn:
  assumes "evlib_documented L" "evlib_succeeds L" "plain_callback call cb f" "ticking L cb tv t"
  shows "\<exists>u. repeated_turn L call (t, s) = Inr (u, f s) \<and> ticking L cb tv u \<and> re_running u = re_running t"
  using assms process_not_armed [OF assms(1), of "re_tick_evt t"]
    add_pending [OF assms(1,2), of "event_process L (re_tick_evt t)" tv]
  by (auto simp: repeated_turn_def RepeatedTimerCall_def ticking_def event_armed_def plain_callback_def)

lemma ticking_turns:
  assumes "evlib_documented L" "evlib_succeeds L" "plain_callback call cb f" "ticking L cb tv t"
  shows "\<exists>u. repeated_turns n L call (t, s) = Inr (u, (f ^^ n) s) \<and> ticking L cb tv u \<and> re_running u = re_running t"
  using assms(4)
proof (induction n arbitrary: t s)
  case 0
  then show ?case by simp
next
  case (Suc n)
  obtain u where u: "repeated_turn L call (t, s) = Inr (u, f s)" "ticking L cb tv u" "re_running u = re_running t"
    using ticking_turn [OF assms(1,2,3) Suc.prems, of s] by blast
  then show ?case using Suc.IH [OF u(2), of "f s"] by (simp add: funpow_swap1)
qed

section \<open>Properties\<close>

text \<open>Property C21. A repeated timer keeps firing: once it runs, every turn of the loop calls its
  callback once and leaves the timer pending for its interval, however often. The callback returns and leaves the
  timer alone, and the calls of libevent succeed.\<close>

theorem repeated_timer_fires_each_turn:
  assumes "evlib_documented L" and "evlib_succeeds L" and "plain_callback call cb f"
    and "\<not> repeated_armed L t"
  shows "\<exists>u v. RepeatedTimer_Run L (RepeatedTimer_Init tv (Some cb) True name t) = Inr u \<and>
    repeated_turns n L call (u, s) = Inr (v, (f ^^ n) s) \<and> evtimer_pending L (re_tick_evt v) = Some tv \<and> re_running v"
proof -
  let ?t = "RepeatedTimer_Init tv (Some cb) True name t"
  have "re_server ?t" "\<not> repeated_armed L ?t" using assms(4) by (simp_all add: RepeatedTimer_Init_def repeated_armed_def)
  from RepeatedTimer_Run_ok [OF assms(1,2) this]
  obtain u where u: "RepeatedTimer_Run L ?t = Inr u" "repeated_ok L u" "re_running u" "ticking L cb tv u"
    by (auto simp: ticking_def repeated_ok_def RepeatedTimer_Init_def)
  show ?thesis using u(1,3) ticking_turns [OF assms(1-3) u(4), of n s] by (auto simp: ticking_def)
qed

text \<open>An event is whether it was set up and when it is due.\<close>

definition example_evlib :: "(bool \<times> timeval option) evlib" where
  "example_evlib = \<lparr>event_assign = (\<lambda>e. (0, (True, None))), event_add = (\<lambda>tv e. (0, (fst e, Some tv))),
     evtimer_del = (\<lambda>e. (fst e, None)), event_initialized = fst, evtimer_pending = snd, event_process = (\<lambda>e. (fst e, None))\<rparr>"

lemma example_evlib_ok: "evlib_documented example_evlib" "evlib_succeeds example_evlib"
  by (simp_all add: evlib_documented_def evlib_succeeds_def example_evlib_def)

definition example_repeated :: "(bool \<times> timeval option, unit) RepeatedTimer" where
  "example_repeated = \<lparr>re_timerName = [], re_server = False, re_running = True, re_tick_evt = (False, None),
     re_time_val = (0, 0), re_callback = None\<rparr>"

definition example_count ::
  "unit \<Rightarrow> (bool \<times> timeval option, unit) RepeatedTimer \<times> nat \<Rightarrow> ((bool \<times> timeval option, unit) RepeatedTimer \<times> nat) res" where
  "example_count cb ts = Inr (fst ts, Suc (snd ts))"

theorem repeated_timer_fires_each_turn_witness:
  "\<exists>u v. RepeatedTimer_Run example_evlib (RepeatedTimer_Init (2, 0) (Some ()) True [116] example_repeated) = Inr u \<and>
    repeated_turns 3 example_evlib example_count (u, 0) = Inr (v, (Suc ^^ 3) 0) \<and>
    evtimer_pending example_evlib (re_tick_evt v) = Some (2, 0) \<and> re_running v"
proof -
  have h: "plain_callback example_count () Suc" "\<not> repeated_armed example_evlib example_repeated"
    by (simp_all add: plain_callback_def example_count_def repeated_armed_def event_armed_def example_evlib_def
        example_repeated_def)
  show ?thesis by (rule repeated_timer_fires_each_turn [OF example_evlib_ok h])
qed

text \<open>Property C39. A repeated timer cannot be stopped from its callback: after a callback that ends
  with \<open>Stop\<close>, whatever else it did with the timer, the event is pending again although the timer does
  not count as running, and then its destructor leaves the event in the loop.\<close>

theorem stop_in_callback_lost:
  assumes "repeated_ok L t" and "repeated_armed L t" and "re_callback t = Some cb"
    and "timer_calls (repeated_armed L) (RepeatedTimer_Run L) (RepeatedTimer_Stop L) (repeated_reset L)
           (t\<lparr>re_tick_evt := event_process L (re_tick_evt t)\<rparr>) u"
    and "call cb (t\<lparr>re_tick_evt := event_process L (re_tick_evt t)\<rparr>, s) = Inr (RepeatedTimer_Stop L u, s')"
  shows "\<exists>v. repeated_turn L call (t, s) = Inr (v, s') \<and> \<not> re_running v \<and> repeated_armed L v \<and>
    event_armed L (RepeatedTimer_dtor L v)"
proof -
  let ?t = "t\<lparr>re_tick_evt := event_process L (re_tick_evt t)\<rparr>"
  have L: "evlib_documented L" "evlib_succeeds L" "event_initialized L (re_tick_evt t)"
    using assms(1) by (simp_all add: repeated_ok_def)
  have "repeated_ok L ?t"
    using assms(1) process_not_armed [OF L(1,3)] by (simp add: repeated_ok_def repeated_armed_def event_armed_def)
  then have "repeated_ok L (RepeatedTimer_Stop L u)"
    using repeated.calls_ok [OF assms(4)] RepeatedTimer_Stop_ok by blast
  then have "event_initialized L (re_tick_evt (RepeatedTimer_Stop L u))" by (simp add: repeated_ok_def)
  from add_pending [OF L(1,2) this] show ?thesis
    using assms(2,3,5)
    by (auto simp: repeated_turn_def RepeatedTimerCall_def repeated_armed_def event_armed_def RepeatedTimer_dtor_def
        RepeatedTimer_Stop_def)
qed

text \<open>The callback stops the timer.\<close>

definition example_stopper ::
  "unit \<Rightarrow> (bool \<times> timeval option, unit) RepeatedTimer \<times> nat \<Rightarrow> ((bool \<times> timeval option, unit) RepeatedTimer \<times> nat) res" where
  "example_stopper cb ts = Inr (RepeatedTimer_Stop example_evlib (fst ts), snd ts)"

definition example_ticking :: "(bool \<times> timeval option, unit) RepeatedTimer" where
  "example_ticking = \<lparr>re_timerName = [], re_server = True, re_running = True, re_tick_evt = (True, Some (2, 0)),
     re_time_val = (2, 0), re_callback = Some ()\<rparr>"

theorem stop_in_callback_lost_witness:
  "\<exists>v. repeated_turn example_evlib example_stopper (example_ticking, 0) = Inr (v, 0) \<and> \<not> re_running v \<and>
    repeated_armed example_evlib v \<and> event_armed example_evlib (RepeatedTimer_dtor example_evlib v)"
  by (rule stop_in_callback_lost [OF _ _ _ calls_none])
    (simp_all add: repeated_ok_def example_evlib_ok repeated_armed_def event_armed_def example_ticking_def
      example_stopper_def example_evlib_def [THEN arg_cong [where f = event_initialized]]
      example_evlib_def [THEN arg_cong [where f = evtimer_pending]])

text \<open>Property C40. A single timer fires at most once: whatever its callback does with the timer,
  \<open>Run\<close> and \<open>Reset\<close> included, afterwards the timer is neither running nor pending, so that further
  turns of the loop do nothing.\<close>

theorem single_timer_fires_once:
  assumes "single_ok L t" and "single_armed L t" and "si_callback t = Some cb"
    and "timer_calls (single_armed L) (SingleTimer_Run L) (SingleTimer_Stop L) (single_reset L)
           (t\<lparr>si_tick_evt := event_process L (si_tick_evt t)\<rparr>) u"
    and "call cb (t\<lparr>si_tick_evt := event_process L (si_tick_evt t)\<rparr>, s) = Inr (u, s')"
  shows "\<exists>v. single_turns (Suc n) L call (t, s) = Inr (v, s') \<and> \<not> si_running v \<and> \<not> single_armed L v"
proof -
  let ?t = "t\<lparr>si_tick_evt := event_process L (si_tick_evt t)\<rparr>" and ?v = "SingleTimer_Stop L u"
  have "single_ok L ?t"
    using assms(1) process_not_armed [of L "si_tick_evt t"] by (simp add: single_ok_def single_armed_def event_armed_def)
  then have v: "\<not> single_armed L ?v \<and> \<not> si_running ?v" by (rule single.calls_then_stop [OF assms(4)])
  then have "single_turns m L call (?v, s') = Inr (?v, s')" for m
    by (induction m) (simp_all add: single_turn_def single_armed_def)
  moreover have "single_turn L call (t, s) = Inr (?v, s')"
    using assms(2,3,5) v by (simp add: single_turn_def single_armed_def SingleTimerCall_def)
  ultimately show ?thesis using v by auto
qed

definition example_single :: "(bool \<times> timeval option, unit) SingleTimer" where
  "example_single = \<lparr>si_callback = Some (), si_timerName = [], si_server = True, si_running = True,
     si_tick_evt = (True, Some (5, 10)), si_time_val = (5, 10)\<rparr>"

text \<open>The callback arms the timer again.\<close>

definition example_rearm ::
  "unit \<Rightarrow> (bool \<times> timeval option, unit) SingleTimer \<times> nat \<Rightarrow> ((bool \<times> timeval option, unit) SingleTimer \<times> nat) res" where
  "example_rearm cb ts =
     rbind (single_reset example_evlib ((1, 0), Some (), [116]) (fst ts)) (\<lambda>t. Inr (t, Suc (snd ts)))"

theorem single_timer_fires_once_witness:
  "\<exists>v. single_turns (Suc 4) example_evlib example_rearm (example_single, 0) = Inr (v, 1) \<and> \<not> si_running v \<and>
    \<not> single_armed example_evlib v"
proof (rule single_timer_fires_once [where L = example_evlib and t = example_single and cb = "()" and s = 0 and s' = 1
      and call = example_rearm])
  let ?t = "example_single\<lparr>si_tick_evt := event_process example_evlib (si_tick_evt example_single)\<rparr>"
  let ?u = "?t\<lparr>si_tick_evt := (True, Some (1, 0)), si_time_val := (1, 0), si_callback := Some (), si_timerName := [116]\<rparr>"
  show "single_ok example_evlib example_single"
    unfolding single_ok_def using example_evlib_ok by (simp add: example_single_def example_evlib_def)
  show "single_armed example_evlib example_single" "si_callback example_single = Some ()"
    by (simp_all add: single_armed_def event_armed_def example_single_def example_evlib_def)
  have r: "single_reset example_evlib ((1, 0), Some (), [116]) ?t = Inr ?u"
    by (simp add: single_reset_def SingleTimer_Reset_def SingleTimer_Run_def example_single_def example_evlib_def)
  show "timer_calls (single_armed example_evlib) (SingleTimer_Run example_evlib) (SingleTimer_Stop example_evlib)
      (single_reset example_evlib) ?t ?u"
    by (rule calls_reset) (rule calls_none, rule r)
  show "example_rearm () (?t, 0) = Inr (?u, 1)" using r by (simp add: example_rearm_def)
qed

end
