(* ===== verification/Timestamp.thy ===== *)
theory Timestamp
  imports Prelude
begin

text \<open>
  Time stamps: \<open>src/base/timestamp.cpp\<close>. The clock (\<open>gettimeofday\<close>) and the calendar (\<open>gmtime_r\<close>)
  are arguments; a member a constructor does not set is an argument too.
\<close>

record tm =
  tm_year :: int
  tm_mon :: int
  tm_mday :: int
  tm_hour :: int
  tm_min :: int
  tm_sec :: int

record TimeStamp =
  sinceepoch :: u64
  time_sec :: u64
  time_usec :: u64

definition kMicroSecondsPerSecond :: u64 where "kMicroSecondsPerSecond = 1000 * 1000"
definition kMillSec :: u64 where "kMillSec = 1000000"

definition TimeStamp_ctor :: "u64 \<Rightarrow> u64 \<Rightarrow> u64 \<Rightarrow> TimeStamp" where
  "TimeStamp_ctor garbage sec usec = \<lparr>sinceepoch = garbage, time_sec = sec, time_usec = usec\<rparr>"

text \<open>The copy constructor takes over one member, the assignment all three.\<close>

definition TimeStamp_copy :: "u64 \<Rightarrow> u64 \<Rightarrow> TimeStamp \<Rightarrow> TimeStamp" where
  "TimeStamp_copy garbage_sec garbage_usec lef =
     \<lparr>sinceepoch = sinceepoch lef, time_sec = garbage_sec, time_usec = garbage_usec\<rparr>"

definition TimeStamp_assign :: "TimeStamp \<Rightarrow> TimeStamp \<Rightarrow> TimeStamp" where
  "TimeStamp_assign t stamp = t\<lparr>sinceepoch := sinceepoch stamp, time_sec := time_sec stamp, time_usec := time_usec stamp\<rparr>"

definition Now :: "u64 \<Rightarrow> u64 \<times> u64 \<Rightarrow> TimeStamp" where
  "Now garbage tval = TimeStamp_ctor garbage (fst tval) (snd tval)"

definition getNowU64 :: "TimeStamp \<Rightarrow> u64" where
  "getNowU64 t = sinceepoch t"

definition GetTimeofDayMs :: "u64 \<times> u64 \<Rightarrow> u64" where
  "GetTimeofDayMs tval = fst tval * 1000 + snd tval div 1000"

definition GetTimeofDayUs :: "u64 \<times> u64 \<Rightarrow> u64" where
  "GetTimeofDayUs tval = fst tval * 1000000 + snd tval"

section \<open>Formats\<close>

definition dec_int :: "int \<Rightarrow> bytes" where
  "dec_int i = (if i < 0 then 45 # dec (nat (- i)) else dec (nat i))"

text \<open>\<open>{:0>w}\<close>.\<close>

definition zpad :: "nat \<Rightarrow> int \<Rightarrow> bytes" where
  "zpad w i = (let s = dec_int i in replicate (w - length s) 48 @ s)"

text \<open>The member is set from the other two; \<open>seconds\<close> is what the calendar gets.\<close>

definition set_epoch :: "TimeStamp \<Rightarrow> TimeStamp" where
  "set_epoch t = t\<lparr>sinceepoch := time_sec t * kMicroSecondsPerSecond + time_usec t\<rparr>"

text \<open>\<open>sinceepoch_\<close> is a signed \<open>time_t\<close>, but the division with an unsigned constant is unsigned.\<close>

definition seconds :: "TimeStamp \<Rightarrow> u64" where
  "seconds t = sinceepoch t div kMicroSecondsPerSecond"

definition ToFormatToday :: "(u64 \<Rightarrow> tm) \<Rightarrow> TimeStamp \<Rightarrow> bytes \<times> TimeStamp" where
  "ToFormatToday gmtime t =
     (let t = set_epoch t; tm_time = gmtime (seconds t) in
      (dec_int (tm_year tm_time + 1900) @ [45] @ zpad 2 (tm_mon tm_time + 1) @ [45] @ zpad 2 (tm_mday tm_time), t))"

definition ToFormatTodayNowMs :: "(u64 \<Rightarrow> tm) \<Rightarrow> TimeStamp \<Rightarrow> bytes \<times> TimeStamp" where
  "ToFormatTodayNowMs gmtime t =
     (let t = set_epoch t; tm_time = gmtime (seconds t); microseconds = seconds t mod kMicroSecondsPerSecond in
      (dec_int (tm_year tm_time + 1900) @ zpad 2 (tm_mon tm_time + 1) @ zpad 2 (tm_mday tm_time) @ [32] @
       dec_int (tm_hour tm_time + 8) @ [58] @ zpad 2 (tm_min tm_time) @ [58] @ dec_int (tm_sec tm_time) @ [46] @
       dec (unat microseconds), t))"

definition ToFormatTodayNowUs :: "(u64 \<Rightarrow> tm) \<Rightarrow> TimeStamp \<Rightarrow> bytes \<times> TimeStamp" where
  "ToFormatTodayNowUs gmtime t =
     (let t = set_epoch t; tm_time = gmtime (seconds t); microseconds = seconds t mod kMicroSecondsPerSecond in
      (dec_int (tm_year tm_time + 1900) @ zpad 2 (tm_mon tm_time + 1) @ zpad 2 (tm_mday tm_time) @ [32] @
       zpad 2 (tm_hour tm_time + 8) @ [58] @ zpad 2 (tm_min tm_time) @ [58] @ zpad 2 (tm_sec tm_time) @ [46] @
       dec (unat microseconds) @ [32] @ zpad 5 (uint ((time_sec t * kMillSec + time_usec t) mod 100000)), t))"

definition ToFormatLogName :: "(u64 \<Rightarrow> tm) \<Rightarrow> int \<Rightarrow> TimeStamp \<Rightarrow> bytes \<times> TimeStamp" where
  "ToFormatLogName gmtime rand t =
     (let t = set_epoch t; tm_time = gmtime (seconds t) in
      (dec_int (tm_year tm_time + 1900) @ [45] @ zpad 2 (tm_mon tm_time + 1) @ [45] @ zpad 2 (tm_mday tm_time) @ [45] @
       dec_int (tm_hour tm_time + 8) @ [58] @ zpad 2 (tm_min tm_time) @ [45] @ zpad 2 rand, t))"

section \<open>Lemmas\<close>

text \<open>With a clock that is not absurd the calendar is asked for the second of the clock.\<close>

lemma seconds_Now:
  assumes "unat (fst tval) < 2 ^ 43" "unat (snd tval) < 1000000"
  shows "seconds (set_epoch (Now g tval)) = fst tval"
proof (rule word_unat_eq_iff [THEN iffD2])
  have big: "unat (fst tval) * 1000000 + unat (snd tval) < 2 ^ 64"
    using assms by simp
  then have "unat (fst tval * 1000000) = unat (fst tval) * 1000000"
    by (simp add: unat_word_ariths(2))
  then have "unat (fst tval * 1000000 + snd tval) = unat (fst tval) * 1000000 + unat (snd tval)"
    using big by (simp add: unat_word_ariths(1))
  then show "unat (seconds (set_epoch (Now g tval))) = unat (fst tval)"
    using assms(2)
    by (simp add: seconds_def set_epoch_def Now_def TimeStamp_ctor_def kMicroSecondsPerSecond_def unat_div)
qed

text \<open>\<open>Now().getNowU64()\<close> reads the member nobody set.\<close>

lemma getNowU64_Now: "getNowU64 (Now g tval) = g"
  by (simp add: getNowU64_def Now_def TimeStamp_ctor_def)

lemma assign_copy: "TimeStamp_assign t stamp = stamp"
  by (simp add: TimeStamp_assign_def)

end
