(* ===== verification/Logging.thy ===== *)
theory Logging
  imports Timestamp
begin

text \<open>
  The log: \<open>src/base/log\<close>. Every thread has a \<open>Logger\<close> with two buffers; the log thread swaps them
  and writes to the log file. Loggers are shared, so they live in a heap and are named by
  their index. \<open>fopen\<close> and \<open>fwrite\<close> are answered by arguments, waiting and notification have
  no state, and a turn of the thread's loop is one step. The mutex of a buffer is a flag; a call takes and releases it,
  so between whole calls it is free and the log thread, which would wait, finds it so.
\<close>

section \<open>Buffers and loggers\<close>

datatype LogLevel = kInfo | kTrace | kDebug | kError | kWarn | kExit | KDEBUG_INFO | kDEBUG_TRACE |
  kDEBUG_DEBUG | kDEBUG_ERROR

fun level_int :: "LogLevel \<Rightarrow> int" where
  "level_int kInfo = 0"
| "level_int kTrace = 1"
| "level_int kDebug = 2"
| "level_int kError = 3"
| "level_int kWarn = 4"
| "level_int kExit = 5"
| "level_int KDEBUG_INFO = 6"
| "level_int kDEBUG_TRACE = 7"
| "level_int kDEBUG_DEBUG = 8"
| "level_int kDEBUG_ERROR = 9"

text \<open>The levels are ordered by their numbers, as the enumeration is.\<close>

instantiation LogLevel :: linorder
begin

definition less_eq_LogLevel :: "LogLevel \<Rightarrow> LogLevel \<Rightarrow> bool" where
  "less_eq_LogLevel a b \<longleftrightarrow> level_int a \<le> level_int b"

definition less_LogLevel :: "LogLevel \<Rightarrow> LogLevel \<Rightarrow> bool" where
  "less_LogLevel a b \<longleftrightarrow> level_int a < level_int b"

instance
proof
  fix a b :: LogLevel
  show "a \<le> b \<Longrightarrow> b \<le> a \<Longrightarrow> a = b"
    by (cases a; cases b) (simp_all add: less_eq_LogLevel_def)
qed (auto simp: less_eq_LogLevel_def less_LogLevel_def)

end

definition kLogThreshold :: u64 where "kLogThreshold = 10486"
definition kDefaultMaxLogBufSize :: u32 where "kDefaultMaxLogBufSize = 16 * 1024 * 1024"

text \<open>The letters \<open>I T D E W Q\<close>.\<close>

definition kLogLevelNums :: bytes where "kLogLevelNums = [73, 84, 68, 69, 87, 81]"

record VecLogBuffer =
  buf_mtx :: bool
  cur_is_head :: bool
  head_buf :: bytes
  tail_buf :: bytes

definition VecLogBuffer_ctor :: VecLogBuffer where
  "VecLogBuffer_ctor = \<lparr>buf_mtx = False, cur_is_head = True, head_buf = [], tail_buf = []\<rparr>"

text \<open>The other buffer becomes the current one; the one returned is the old one, as a flag.\<close>

definition VecLogBuffer_SwapBuffer :: "VecLogBuffer \<Rightarrow> bool \<times> VecLogBuffer" where
  "VecLogBuffer_SwapBuffer b =
     (let b = b\<lparr>cur_is_head := \<not> cur_is_head b\<rparr> in (\<not> cur_is_head b, b))"

definition buf_at :: "bool \<Rightarrow> VecLogBuffer \<Rightarrow> bytes" where
  "buf_at is_head b = (if is_head then head_buf b else tail_buf b)"

definition buf_clear :: "bool \<Rightarrow> VecLogBuffer \<Rightarrow> VecLogBuffer" where
  "buf_clear is_head b = (if is_head then b\<lparr>head_buf := []\<rparr> else b\<lparr>tail_buf := []\<rparr>)"

text \<open>Locking and unlocking the mutex of the buffers. The thread that holds it never gets past a second \<open>lock\<close>.\<close>

definition buf_lock :: "VecLogBuffer \<Rightarrow> VecLogBuffer res" where
  "buf_lock b = rbind (guard (\<not> buf_mtx b) Deadlock) (\<lambda>_. Inr (b\<lparr>buf_mtx := True\<rparr>))"

definition buf_unlock :: "VecLogBuffer \<Rightarrow> VecLogBuffer" where
  "buf_unlock b = b\<lparr>buf_mtx := False\<rparr>"

definition cur_append :: "bytes \<Rightarrow> VecLogBuffer \<Rightarrow> VecLogBuffer" where
  "cur_append s b =
     (if cur_is_head b then b\<lparr>head_buf := head_buf b @ s\<rparr> else b\<lparr>tail_buf := tail_buf b @ s\<rparr>)"

text \<open>\<open>sumWrites_\<close> of a logger is a null pointer or the counter of the log thread.\<close>

record Logger =
  maxBufSize :: u32
  lg_isSync :: bool
  lg_sumWrites :: bool
  timeNow :: TimeStamp
  curLogLevel :: int
  lg_buf :: VecLogBuffer
  isHolderByThread :: bool

definition Logger_ctor :: "Logger \<Rightarrow> Logger" where
  "Logger_ctor garbage =
     garbage\<lparr>lg_isSync := False, lg_sumWrites := False, lg_buf := VecLogBuffer_ctor, isHolderByThread := True\<rparr>"

text \<open>The enumerators 0 to 9 take four bits, so the enumeration has the values 0 to 15; casting another number to it is
  undefined.\<close>

definition setLogLev :: "int \<Rightarrow> Logger \<Rightarrow> Logger res" where
  "setLogLev lev l = rbind (guard (0 \<le> lev \<and> lev < 16) BadEnumCast) (\<lambda>_. Inr (l\<lparr>curLogLevel := lev\<rparr>))"

definition setLogToFile :: "Logger \<Rightarrow> Logger" where
  "setLogToFile l = l\<lparr>lg_isSync := True\<rparr>"

definition configInit :: "Logger \<Rightarrow> Logger" where
  "configInit l = l\<lparr>lg_sumWrites := True\<rparr>"

definition setBufSize :: "u32 \<Rightarrow> Logger \<Rightarrow> Logger res" where
  "setBufSize buf_size l =
     rbind (buf_lock (lg_buf l)) (\<lambda>b. Inr (l\<lparr>lg_buf := buf_unlock b, maxBufSize := buf_size\<rparr>))"

definition Logger_SwapBuffer :: "Logger \<Rightarrow> bool \<times> Logger" where
  "Logger_SwapBuffer l = (let (h, b) = VecLogBuffer_SwapBuffer (lg_buf l) in (h, l\<lparr>lg_buf := b\<rparr>))"

definition LogImp_dtor :: "Logger \<Rightarrow> Logger" where
  "LogImp_dtor l = l\<lparr>isHolderByThread := False\<rparr>"

text \<open>
  One message. \<open>logment\<close> is the formatted text of the caller. To the terminal go the letter of
  the level, the time, file, line and text with colours; the fields are kept apart here. A
  level beyond \<open>kExit\<close> has no letter.
\<close>

record log_site =
  ls_file :: bytes
  ls_line :: nat
  ls_lev :: LogLevel
  ls_ment :: bytes

type_synonym printed = "u8 \<times> bytes \<times> bytes \<times> nat \<times> bytes"

definition log_line :: "u8 \<Rightarrow> bytes \<Rightarrow> log_site \<Rightarrow> bytes" where
  "log_line c now s = [c] @ now @ [32] @ ls_file s @ [58] @ dec (ls_line s) @ [93, 32] @ ls_ment s @ [10]"

definition LogMent ::
  "(u64 \<Rightarrow> tm) \<Rightarrow> TimeStamp \<Rightarrow> log_site \<Rightarrow> u64 \<Rightarrow> Logger \<Rightarrow> (Logger \<times> printed list) res" where
  "LogMent gmtime now s writes l =
     rbind (if \<not> lg_isSync l then
              (let (txt, t) = ToFormatTodayNowUs gmtime (TimeStamp_assign (timeNow l) now) in
               rbind (rd kLogLevelNums (nat (level_int (ls_lev s)))) (\<lambda>c.
                 Inr (l\<lparr>timeNow := t\<rparr>, [(c, txt, ls_file s, ls_line s, ls_ment s)])))
            else Inr (l, [])) (\<lambda>(l, out).
     if level_int (ls_lev s) < curLogLevel l then Inr (l, out)
     else if level_int (ls_lev s) > level_int kExit then Inr (l, out)
     else
       rbind (buf_lock (lg_buf l)) (\<lambda>b.
       let (txt, t) = ToFormatTodayNowUs gmtime (TimeStamp_assign (timeNow l) now) in
       rbind (rd kLogLevelNums (nat (level_int (ls_lev s)))) (\<lambda>c.
       let l = l\<lparr>timeNow := t, lg_buf := buf_unlock (cur_append (log_line c txt s) b)\<rparr> in
       rbind (guard (lg_sumWrites l) NullDeref) (\<lambda>_.
         Inr (if writes \<ge> kLogThreshold then l\<lparr>lg_sumWrites := False\<rparr> else l, out)))))"

section \<open>The log file\<close>

text \<open>A null \<open>FILE*\<close> is \<open>None\<close>; otherwise what the file was given.\<close>

record LogFile =
  fileptr :: "bytes option"
  curLogPath :: bytes
  curLogName :: bytes
  lf_nowTime :: TimeStamp

definition LogFile_ctor :: "TimeStamp \<Rightarrow> LogFile" where
  "LogFile_ctor garbage = \<lparr>fileptr = None, curLogPath = [], curLogName = [], lf_nowTime = garbage\<rparr>"

text \<open>\<open>.log\<close>. The file is opened twice, the second time for writing from the start.\<close>

definition SetLogPath :: "(u64 \<Rightarrow> tm) \<Rightarrow> bool \<Rightarrow> TimeStamp \<Rightarrow> bytes \<Rightarrow> LogFile \<Rightarrow> (bool \<times> LogFile) res" where
  "SetLogPath gmtime opens now path f =
     rbind (if path = [] then Inl OutOfBounds else guard (last path \<noteq> 47) AssertFail) (\<lambda>_.
     let (today, t) = ToFormatToday gmtime (TimeStamp_assign (lf_nowTime f) now) in
     rbind (guard opens AssertFail) (\<lambda>_.
       Inr (True, f\<lparr>lf_nowTime := t, curLogName := path @ [47] @ today @ [46, 108, 111, 103],
                    fileptr := Some [], curLogPath := path\<rparr>)))"

definition SetLogPath_pre ::
  "(u64 \<Rightarrow> tm) \<Rightarrow> int \<Rightarrow> bool \<Rightarrow> TimeStamp \<Rightarrow> bytes \<Rightarrow> bytes \<Rightarrow> LogFile \<Rightarrow> (bool \<times> LogFile) res" where
  "SetLogPath_pre gmtime rand opens now path logPrename f =
     (let (name, t) = ToFormatLogName gmtime rand (TimeStamp_assign (lf_nowTime f) now) in
      rbind (guard opens AssertFail) (\<lambda>_.
        Inr (True, f\<lparr>lf_nowTime := t, curLogName := path @ [47] @ logPrename @ [45] @ name @ [46, 108, 111, 103],
                     fileptr := Some [], curLogPath := path\<rparr>)))"

text \<open>The constructors with a path; the second one puts a random number into the name.\<close>

definition LogFile_path_ctor :: "(u64 \<Rightarrow> tm) \<Rightarrow> bool \<Rightarrow> TimeStamp \<Rightarrow> TimeStamp \<Rightarrow> bytes \<Rightarrow> LogFile res" where
  "LogFile_path_ctor gmtime opens garbage now path =
     rbind (if path = [] then Inl OutOfBounds else guard (last path \<noteq> 47) AssertFail) (\<lambda>_.
     let (today, t) = ToFormatToday gmtime (TimeStamp_assign garbage now) in
     rbind (guard opens AssertFail) (\<lambda>_.
       Inr \<lparr>fileptr = Some [], curLogPath = path, curLogName = path @ [47] @ today @ [46, 108, 111, 103], lf_nowTime = t\<rparr>))"

definition LogFile_pre_ctor ::
  "(u64 \<Rightarrow> tm) \<Rightarrow> int \<Rightarrow> bool \<Rightarrow> TimeStamp \<Rightarrow> TimeStamp \<Rightarrow> bytes \<Rightarrow> bytes \<Rightarrow> LogFile res" where
  "LogFile_pre_ctor gmtime rand opens garbage now path logPrename =
     rbind (if path = [] then Inl OutOfBounds else guard (last path \<noteq> 47) AssertFail) (\<lambda>_.
     let (today, t) = ToFormatToday gmtime (TimeStamp_assign garbage now) in
     rbind (guard opens AssertFail) (\<lambda>_.
       Inr \<lparr>fileptr = Some [], curLogPath = path,
             curLogName = path @ [47] @ logPrename @ [45] @ dec_int rand @ [45] @ today @ [46, 108, 111, 103],
             lf_nowTime = t\<rparr>))"

text \<open>\<open>fw\<close>: how many bytes \<open>fwrite\<close> takes; its result is not looked at.\<close>

definition WriteStr :: "(bytes \<Rightarrow> nat) \<Rightarrow> bytes \<Rightarrow> LogFile \<Rightarrow> LogFile res" where
  "WriteStr fw str f = (case fileptr f of
       None \<Rightarrow> Inl NullDeref
     | Some w \<Rightarrow> Inr (f\<lparr>fileptr := Some (w @ take (fw str) str)\<rparr>))"

definition LogFile_Write :: "(bytes \<Rightarrow> nat) \<Rightarrow> bytes \<Rightarrow> LogFile \<Rightarrow> LogFile res" where
  "LogFile_Write fw logment f = (case fileptr f of
       None \<Rightarrow> Inl NullDeref
     | Some w \<Rightarrow> Inr (f\<lparr>fileptr := Some (w @ take (fw logment) logment)\<rparr>))"

definition LogFile_Sync :: "LogFile \<Rightarrow> LogFile res" where
  "LogFile_Sync f = rbind (guard (fileptr f \<noteq> None) NullDeref) (\<lambda>_. Inr f)"

definition LogFile_Change :: "(u64 \<Rightarrow> tm) \<Rightarrow> bool \<Rightarrow> TimeStamp \<Rightarrow> LogFile \<Rightarrow> LogFile res" where
  "LogFile_Change gmtime opens now f =
     rbind (guard (fileptr f \<noteq> None) AssertFail) (\<lambda>_.
     rbind (SetLogPath gmtime opens now (curLogPath f) f) (\<lambda>(_, f). Inr f))"

definition LogFile_dtor :: "LogFile \<Rightarrow> LogFile" where
  "LogFile_dtor f = f\<lparr>fileptr := None\<rparr>"

section \<open>The log thread\<close>

record LogThread =
  loglev :: int
  lt_buf_size :: u32
  log_file :: LogFile
  logVectmp :: "nat list"
  logworkers :: "nat list"
  lt_isSync :: bool
  lt_isRunning :: bool
  sumWrites :: u64
  loggers :: "Logger list"

definition LogThread_ctor :: "TimeStamp \<Rightarrow> LogThread" where
  "LogThread_ctor garbage =
     \<lparr>loglev = level_int kInfo, lt_buf_size = 0, log_file = LogFile_ctor garbage, logVectmp = [], logworkers = [],
      lt_isSync = False, lt_isRunning = False, sumWrites = 0, loggers = []\<rparr>"

definition AddLogger :: "nat \<Rightarrow> LogThread \<Rightarrow> LogThread res" where
  "AddLogger i t =
     rbind (rd (loggers t) i) (\<lambda>l.
     rbind (setLogLev (loglev t) l) (\<lambda>l.
     rbind (if lt_isRunning t then setBufSize (lt_buf_size t) (setLogToFile l) else Inr l) (\<lambda>l.
     let l = configInit l in
     Inr (t\<lparr>loggers := (loggers t)[i := l], logVectmp := logVectmp t @ [i]\<rparr>))))"

text \<open>A thread logs for the first time: its \<open>LogImp\<close> is constructed.\<close>

definition LogImp_ctor :: "Logger \<Rightarrow> LogThread \<Rightarrow> LogThread res" where
  "LogImp_ctor garbage t = AddLogger (length (loggers t)) (t\<lparr>loggers := loggers t @ [Logger_ctor garbage]\<rparr>)"

definition LogThread_Init ::
  "(u64 \<Rightarrow> tm) \<Rightarrow> int \<Rightarrow> bool \<Rightarrow> TimeStamp \<Rightarrow> bytes \<Rightarrow> int \<Rightarrow> bool \<Rightarrow> bytes \<Rightarrow> u32 \<Rightarrow> LogThread \<Rightarrow> LogThread res" where
  "LogThread_Init gmtime rand opens now logpath lev isSync logPrename buf_size t =
     rbind (SetLogPath_pre gmtime rand opens now logpath logPrename (log_file t)) (\<lambda>(_, f).
       Inr (t\<lparr>log_file := f, loglev := lev, lt_buf_size := buf_size, lt_isSync := isSync, lt_isRunning := True\<rparr>))"

text \<open>New loggers are taken over at the start of every turn.\<close>

definition take_over :: "LogThread \<Rightarrow> LogThread" where
  "take_over t = t\<lparr>logworkers := logworkers t @ logVectmp t, logVectmp := []\<rparr>"

text \<open>Swapping with the last and popping.\<close>

definition swap_remove :: "nat \<Rightarrow> nat list \<Rightarrow> nat list" where
  "swap_remove i xs = butlast (xs[i := last xs, length xs - 1 := xs ! i])"

definition write_clear :: "(bytes \<Rightarrow> nat) \<Rightarrow> nat \<Rightarrow> bool \<Rightarrow> Logger \<Rightarrow> LogThread \<Rightarrow> LogThread res" where
  "write_clear fw lid h l t =
     rbind (WriteStr fw (buf_at h (lg_buf l)) (log_file t)) (\<lambda>f.
       Inr (t\<lparr>log_file := f, loggers := (loggers t)[lid := l\<lparr>lg_buf := buf_clear h (lg_buf l)\<rparr>]\<rparr>))"

text \<open>
  The \<open>i\<close>-th logger of a turn. For a logger without a thread the second buffer is looked at;
  the synchronous variant then writes the first, empty one, whose first element does not exist.
\<close>

definition drain :: "(bytes \<Rightarrow> nat) \<Rightarrow> nat \<Rightarrow> LogThread \<Rightarrow> LogThread res" where
  "drain fw i t =
     rbind (rd (logworkers t) i) (\<lambda>lid.
     rbind (rd (loggers t) lid) (\<lambda>l.
     let (h, l) = Logger_SwapBuffer l in
     if buf_at h (lg_buf l) = [] then
       if \<not> isHolderByThread l then
         let (h2, l) = Logger_SwapBuffer l; t = t\<lparr>loggers := (loggers t)[lid := l]\<rparr> in
         rbind (if buf_at h2 (lg_buf l) = [] then Inr t
                else if lt_isSync t then Inl OutOfBounds
                else rbind (WriteStr fw (buf_at h2 (lg_buf l)) (log_file t)) (\<lambda>f. Inr (t\<lparr>log_file := f\<rparr>))) (\<lambda>t.
           Inr (t\<lparr>logworkers := swap_remove i (logworkers t)\<rparr>))
       else Inr (t\<lparr>loggers := (loggers t)[lid := l]\<rparr>)
     else write_clear fw lid h l t))"

fun drains :: "(bytes \<Rightarrow> nat) \<Rightarrow> nat list \<Rightarrow> LogThread \<Rightarrow> LogThread res" where
  "drains fw [] t = Inr t"
| "drains fw (i # is) t = rbind (drain fw i t) (drains fw is)"

definition log_turn :: "(bytes \<Rightarrow> nat) \<Rightarrow> LogThread \<Rightarrow> LogThread res" where
  "log_turn fw t =
     (let t = take_over t in
      if sumWrites t = 0 then Inr t
      else rbind (drains fw [0..<length (logworkers t)] t) (\<lambda>t.
        if lt_isSync t then rbind (LogFile_Sync (log_file t)) (\<lambda>_. Inr t) else Inr t))"

text \<open>After the loop: one buffer of every logger, then the other. There is a thread to join
  exactly when \<open>Init\<close> was called.\<close>

fun flush_all :: "(bytes \<Rightarrow> nat) \<Rightarrow> nat list \<Rightarrow> LogThread \<Rightarrow> LogThread res" where
  "flush_all fw [] t = Inr t"
| "flush_all fw (lid # ids) t =
     rbind (rd (loggers t) lid) (\<lambda>l.
     let (h, l) = Logger_SwapBuffer l in
     rbind (if buf_at h (lg_buf l) = [] then Inr (t\<lparr>loggers := (loggers t)[lid := l]\<rparr>)
            else write_clear fw lid h l t) (flush_all fw ids))"

definition LogThread_Stop :: "(bytes \<Rightarrow> nat) \<Rightarrow> LogThread \<Rightarrow> LogThread res" where
  "LogThread_Stop fw t =
     (if lt_isRunning t then
        let t = t\<lparr>lt_isRunning := False\<rparr> in
        rbind (flush_all fw (logworkers t) t) (\<lambda>t. flush_all fw (logworkers t) t)
      else Inr t)"

section \<open>Lemmas\<close>

definition cur_buf :: "VecLogBuffer \<Rightarrow> bytes" where
  "cur_buf b = buf_at (cur_is_head b) b"

definition other_buf :: "VecLogBuffer \<Rightarrow> bytes" where
  "other_buf b = buf_at (\<not> cur_is_head b) b"

lemma cur_append_bufs: "cur_buf (cur_append s b) = cur_buf b @ s" "other_buf (cur_append s b) = other_buf b"
  by (simp_all add: cur_buf_def other_buf_def cur_append_def buf_at_def)

text \<open>A call that finds the mutex free leaves it free.\<close>

lemma buf_lock_eq [simp]: "buf_lock b = (if buf_mtx b then Inl Deadlock else Inr (b\<lparr>buf_mtx := True\<rparr>))"
  by (simp add: buf_lock_def)

lemma buf_locked [simp]:
  "cur_buf (buf_unlock b) = cur_buf b" "other_buf (buf_unlock b) = other_buf b"
  "cur_buf (b\<lparr>buf_mtx := m\<rparr>) = cur_buf b" "other_buf (b\<lparr>buf_mtx := m\<rparr>) = other_buf b"
  "buf_mtx (buf_unlock b) = False"
  by (simp_all add: cur_buf_def other_buf_def buf_at_def buf_unlock_def)

text \<open>Flushing one logger: its current buffer is written, then empty and no longer current.\<close>

lemma flush_one:
  assumes "lid < length (loggers t)" "fileptr (log_file t) = Some w" "\<And>s. fw s = length s"
  shows "\<exists>t' l'. flush_all fw [lid] t = Inr t' \<and> fileptr (log_file t') = Some (w @ cur_buf (lg_buf (loggers t ! lid))) \<and>
    loggers t' = (loggers t)[lid := l'] \<and> cur_buf (lg_buf l') = other_buf (lg_buf (loggers t ! lid)) \<and>
    other_buf (lg_buf l') = [] \<and> logworkers t' = logworkers t"
  using assms
  by (auto simp: Logger_SwapBuffer_def VecLogBuffer_SwapBuffer_def Let_def cur_buf_def other_buf_def buf_at_def
      buf_clear_def write_clear_def WriteStr_def)

lemma flush_all_Cons: "flush_all fw (lid # ids) t = rbind (flush_all fw [lid] t) (flush_all fw ids)"
  by (simp add: rbind_assoc case_prod_beta)

lemma flush_all_ok:
  assumes "distinct ids" "\<forall>lid \<in> set ids. lid < length (loggers t)" "fileptr (log_file t) = Some w"
    "\<And>s. fw s = length s"
  shows "\<exists>t'. flush_all fw ids t = Inr t' \<and>
    fileptr (log_file t') = Some (w @ concat (map (\<lambda>lid. cur_buf (lg_buf (loggers t ! lid))) ids)) \<and>
    length (loggers t') = length (loggers t) \<and> logworkers t' = logworkers t \<and>
    (\<forall>lid. lid \<notin> set ids \<longrightarrow> loggers t' ! lid = loggers t ! lid) \<and>
    (\<forall>lid \<in> set ids. cur_buf (lg_buf (loggers t' ! lid)) = other_buf (lg_buf (loggers t ! lid)))"
  using assms(1-3)
proof (induction ids arbitrary: t w)
  case (Cons lid ids)
  let ?b = "\<lambda>t lid. lg_buf (loggers t ! lid)"
  obtain t1 l1 where t1: "flush_all fw [lid] t = Inr t1" "fileptr (log_file t1) = Some (w @ cur_buf (?b t lid))"
    "loggers t1 = (loggers t)[lid := l1]" "cur_buf (lg_buf l1) = other_buf (?b t lid)" "logworkers t1 = logworkers t"
    using flush_one [of lid t w fw] Cons.prems assms(4) by auto
  have rest: "loggers t1 ! i = loggers t ! i" if "i \<noteq> lid" for i using that t1(3) by simp
  have "\<forall>i \<in> set ids. i < length (loggers t1)" using Cons.prems(2) t1(3) by simp
  then obtain t' where t': "flush_all fw ids t1 = Inr t'"
    "fileptr (log_file t') = Some (w @ cur_buf (?b t lid) @ concat (map (\<lambda>i. cur_buf (?b t1 i)) ids))"
    "length (loggers t') = length (loggers t1)" "logworkers t' = logworkers t1"
    "\<forall>i. i \<notin> set ids \<longrightarrow> loggers t' ! i = loggers t1 ! i"
    "\<forall>i \<in> set ids. cur_buf (?b t' i) = other_buf (?b t1 i)"
    using Cons.IH [of t1 "w @ cur_buf (?b t lid)"] Cons.prems(1) t1(2) by auto
  have same: "?b t1 i = ?b t i" if "i \<in> set ids" for i
    using that Cons.prems(1) rest by (metis distinct.simps(2))
  then have "map (\<lambda>i. cur_buf (?b t1 i)) ids = map (\<lambda>i. cur_buf (?b t i)) ids" by simp
  moreover have "cur_buf (?b t' lid) = other_buf (?b t lid)"
    using t'(5) t1(3,4) Cons.prems(1,2) by simp
  ultimately show ?case
    unfolding flush_all_Cons [of fw lid ids t] t1(1) using t' t1(3,5) same rest
    by (simp del: flush_all.simps cong: map_cong)
qed simp

text \<open>
  The states of the log: threads come and go, log, and the log thread, once started, takes its
  turns.
\<close>

inductive logging :: "(u64 \<Rightarrow> tm) \<Rightarrow> (bytes \<Rightarrow> nat) \<Rightarrow> LogThread \<Rightarrow> bool" for gm fw where
  logging_new: "logging gm fw (LogThread_ctor g)"
| logging_thread: "logging gm fw t \<Longrightarrow> LogImp_ctor g t = Inr t' \<Longrightarrow> logging gm fw t'"
| logging_init: "logging gm fw t \<Longrightarrow> \<not> lt_isRunning t \<Longrightarrow>
    LogThread_Init gm rand opens now path lev isSync pre n t = Inr t' \<Longrightarrow> logging gm fw t'"
| logging_ment: "logging gm fw t \<Longrightarrow> i < length (loggers t) \<Longrightarrow>
    LogMent gm now s (sumWrites t) (loggers t ! i) = Inr (l, out) \<Longrightarrow> logging gm fw (t\<lparr>loggers := (loggers t)[i := l]\<rparr>)"
| logging_exit: "logging gm fw t \<Longrightarrow> i < length (loggers t) \<Longrightarrow>
    logging gm fw (t\<lparr>loggers := (loggers t)[i := LogImp_dtor (loggers t ! i)]\<rparr>)"
| logging_turn: "logging gm fw t \<Longrightarrow> lt_isRunning t \<Longrightarrow> log_turn fw t = Inr t' \<Longrightarrow> logging gm fw t'"

definition log_ok :: "LogThread \<Rightarrow> bool" where
  "log_ok t \<longleftrightarrow> sumWrites t = 0 \<and> (\<forall>l \<in> set (loggers t). other_buf (lg_buf l) = [] \<and> \<not> buf_mtx (lg_buf l)) \<and>
     (lt_isRunning t \<longrightarrow> fileptr (log_file t) = Some []) \<and>
     distinct (logworkers t @ logVectmp t) \<and> (\<forall>i \<in> set (logworkers t @ logVectmp t). i < length (loggers t))"

lemma LogMent_other:
  "LogMent gm now s n l = Inr (l', out) \<Longrightarrow> other_buf (lg_buf l') = other_buf (lg_buf l) \<and>
    (\<not> buf_mtx (lg_buf l) \<longrightarrow> \<not> buf_mtx (lg_buf l'))"
  by (auto simp: LogMent_def rbind_eq_Inr_iff Let_def cur_append_bufs case_prod_beta split: if_splits)

lemma log_ok_update:
  "log_ok t \<Longrightarrow> other_buf (lg_buf l) = [] \<Longrightarrow> \<not> buf_mtx (lg_buf l) \<Longrightarrow> log_ok (t\<lparr>loggers := (loggers t)[i := l]\<rparr>)"
  using set_update_subset_insert [of "loggers t" i l] by (auto simp: log_ok_def)

lemma other_buf_ctor [simp]: "other_buf VecLogBuffer_ctor = []" "\<not> buf_mtx VecLogBuffer_ctor"
  by (simp_all add: other_buf_def VecLogBuffer_ctor_def buf_at_def)

lemma log_ok_thread: "log_ok t \<Longrightarrow> LogImp_ctor g t = Inr t' \<Longrightarrow> log_ok t'"
  by (auto simp: log_ok_def LogImp_ctor_def AddLogger_def Let_def Logger_ctor_def rbind_eq_Inr_iff
      setLogLev_def setBufSize_def setLogToFile_def configInit_def less_Suc_eq split: if_splits)

lemma logging_ok: "logging gm fw t \<Longrightarrow> log_ok t"
proof (induction rule: logging.induct)
  case (logging_ment t i now s l out)
  then have "other_buf (lg_buf (loggers t ! i)) = []" "\<not> buf_mtx (lg_buf (loggers t ! i))"
    using nth_mem by (fastforce simp: log_ok_def)+
  then show ?case using logging_ment LogMent_other by (metis log_ok_update)
next
  case (logging_exit t i)
  then have "other_buf (lg_buf (loggers t ! i)) = []" "\<not> buf_mtx (lg_buf (loggers t ! i))"
    using nth_mem by (fastforce simp: log_ok_def)+
  then show ?case using logging_exit by (simp add: log_ok_update LogImp_dtor_def)
next
  case (logging_init t rand opens now path lev isSync pre n t')
  then show ?case
    by (auto simp: log_ok_def LogThread_Init_def SetLogPath_pre_def rbind_eq_Inr_iff case_prod_beta Let_def)
next
  case (logging_turn t t')
  then show ?case by (auto simp: log_turn_def take_over_def Let_def log_ok_def)
next
  case (logging_thread t g t')
  then show ?case by (blast intro: log_ok_thread)
qed (simp add: log_ok_def LogThread_ctor_def)

text \<open>What \<open>Stop\<close> writes.\<close>

lemma Stop_writes_buffers:
  assumes "logging gm fw t" and "lt_isRunning t" and "\<forall>s. fw s = length s"
  shows "fileptr (log_file t) = Some [] \<and>
    (\<exists>t'. LogThread_Stop fw t = Inr t' \<and>
      fileptr (log_file t') = Some (concat (map (\<lambda>i. cur_buf (lg_buf (loggers t ! i))) (logworkers t))))"
proof -
  let ?t = "t\<lparr>lt_isRunning := False\<rparr>"
  have ok: "log_ok t" using logging_ok [OF assms(1)] .
  then have empty: "fileptr (log_file t) = Some []" using assms(2) by (simp add: log_ok_def)
  have ids: "distinct (logworkers t)" "\<forall>i \<in> set (logworkers t). i < length (loggers t)"
    using ok by (simp_all add: log_ok_def)
  obtain t1 where t1: "flush_all fw (logworkers t) ?t = Inr t1"
    "fileptr (log_file t1) = Some (concat (map (\<lambda>i. cur_buf (lg_buf (loggers t ! i))) (logworkers t)))"
    "length (loggers t1) = length (loggers t)" "logworkers t1 = logworkers t"
    "\<forall>i \<in> set (logworkers t). cur_buf (lg_buf (loggers t1 ! i)) = other_buf (lg_buf (loggers t ! i))"
    using flush_all_ok [of "logworkers t" ?t "[]" fw] ids empty assms(3) by auto
  have "cur_buf (lg_buf (loggers t1 ! i)) = []" if "i \<in> set (logworkers t)" for i
    using that t1(5) ids(2) ok nth_mem by (fastforce simp: log_ok_def)
  then have none: "concat (map (\<lambda>i. cur_buf (lg_buf (loggers t1 ! i))) (logworkers t)) = []" by simp
  obtain t2 where "flush_all fw (logworkers t1) t1 = Inr t2" "fileptr (log_file t2) = fileptr (log_file t1)"
    using flush_all_ok [of "logworkers t1" t1 _ fw] t1(2,3,4) ids assms(3) none by auto
  then show ?thesis using empty assms(2) t1(1,2) by (simp add: LogThread_Stop_def del: flush_all.simps)
qed

text \<open>A message is kept when it is at or above the level of the logger and not above \<open>kExit\<close>; the
  levels behind \<open>kExit\<close> have no letter.\<close>

lemma level_letter: "lev \<le> kExit \<Longrightarrow> rd kLogLevelNums (nat (level_int lev)) = Inr (kLogLevelNums ! nat (level_int lev))"
  by (cases lev) (simp_all add: kLogLevelNums_def less_eq_LogLevel_def)

lemma level_beyond: "kExit < lev \<Longrightarrow> rd kLogLevelNums (nat (level_int lev)) = Inl OutOfBounds"
  by (cases lev) (simp_all add: kLogLevelNums_def less_LogLevel_def)

lemma LogMent_kept:
  assumes "curLogLevel l \<le> level_int (ls_lev s)" "ls_lev s \<le> kExit" "lg_sumWrites l" "\<not> buf_mtx (lg_buf l)"
  shows "\<exists>l' out. LogMent gm now s n l = Inr (l', out) \<and> cur_buf (lg_buf l') = cur_buf (lg_buf l) @
    log_line (kLogLevelNums ! nat (level_int (ls_lev s))) (fst (ToFormatTodayNowUs gm now)) s"
  using assms level_letter [OF assms(2)]
  by (auto simp: LogMent_def assign_copy Let_def case_prod_beta cur_append_bufs less_eq_LogLevel_def)

text \<open>Such a message waits for the mutex: interrupted while it holds it, a thread cannot log.\<close>

lemma LogMent_held:
  assumes "curLogLevel l \<le> level_int (ls_lev s)" "ls_lev s \<le> kExit" "buf_mtx (lg_buf l)"
  shows "LogMent gm now s n l = Inl Deadlock"
  using assms level_letter [OF assms(2)] by (auto simp: LogMent_def Let_def case_prod_beta less_eq_LogLevel_def)

lemma LogMent_dropped:
  assumes "level_int (ls_lev s) < curLogLevel l \<or> kExit < ls_lev s" and "lg_isSync l"
  shows "LogMent gm now s n l = Inr (l, [])"
  using assms by (auto simp: LogMent_def less_LogLevel_def)

lemma LogMent_beyond:
  assumes "kExit < ls_lev s" and "\<not> lg_isSync l"
  shows "LogMent gm now s n l = Inl OutOfBounds"
  using assms level_beyond [OF assms(1)] by (simp add: LogMent_def case_prod_beta)

text \<open>Every logger has the counter of the log thread.\<close>

lemma LogMent_counter:
  "LogMent gm now s n l = Inr (l', out) \<Longrightarrow> n < kLogThreshold \<Longrightarrow> lg_sumWrites l \<Longrightarrow> lg_sumWrites l'"
  by (auto simp: LogMent_def rbind_eq_Inr_iff Let_def case_prod_beta split: if_splits)

lemma logging_counter: "logging gm fw t \<Longrightarrow> \<forall>l \<in> set (loggers t). lg_sumWrites l"
proof (induction rule: logging.induct)
  case (logging_ment t i now s l out)
  have "sumWrites t = 0" using logging_ok [OF logging_ment(1)] by (simp add: log_ok_def)
  then have "lg_sumWrites l" using logging_ment LogMent_counter [OF logging_ment(3)] by (simp add: kLogThreshold_def)
  then show ?case using logging_ment(4) set_update_subset_insert [of "loggers t" i l] by auto
next
  case (logging_exit t i)
  then show ?case using set_update_subset_insert [of "loggers t" i "LogImp_dtor (loggers t ! i)"]
    by (auto simp: LogImp_dtor_def)
next
  case (logging_thread t g t')
  then show ?case by (auto simp: LogImp_ctor_def AddLogger_def Let_def configInit_def rbind_eq_Inr_iff set_update_distinct list_update_append)
next
  case (logging_turn t t')
  then have "sumWrites t = 0" using logging_ok by (simp add: log_ok_def)
  with logging_turn show ?case by (auto simp: log_turn_def take_over_def Let_def)
qed (auto simp: LogThread_ctor_def LogThread_Init_def rbind_eq_Inr_iff case_prod_beta)

section \<open>Properties\<close>

text \<open>Property C29. The log reaches its file only at the end: \<open>sumWrites_\<close> is never increased, so
  as long as the log runs the file stays empty, whatever is logged and however often the log
  thread wakes up. \<open>Stop\<close> then writes, logger by logger, everything the threads logged that were
  taken over by a turn, if \<open>fwrite\<close> takes every buffer whole; a logger that was not is lost.\<close>

theorem log_written_at_stop:
  assumes "logging gm fw t" and "lt_isRunning t" and "\<forall>s. fw s = length s"
  shows "fileptr (log_file t) = Some [] \<and>
    (\<exists>t'. LogThread_Stop fw t = Inr t' \<and>
      fileptr (log_file t') = Some (concat (map (\<lambda>i. cur_buf (lg_buf (loggers t ! i))) (logworkers t))))"
  using assms by (rule Stop_writes_buffers)

text \<open>One thread logs a message between the turns of the log thread.\<close>

definition example_tm :: "u64 \<Rightarrow> tm" where
  "example_tm s = \<lparr>tm_year = 122, tm_mon = 7, tm_mday = 26, tm_hour = 3, tm_min = 4, tm_sec = 5\<rparr>"

definition example_now :: TimeStamp where
  "example_now = TimeStamp_ctor 0 1 2"

definition example_init :: LogThread where
  "example_init = projr (LogThread_Init example_tm 1 True example_now [47, 116] 0 False [97] 100 (LogThread_ctor example_now))"

definition example_logger :: Logger where
  "example_logger = \<lparr>maxBufSize = 0, lg_isSync = False, lg_sumWrites = False, timeNow = example_now, curLogLevel = 0,
     lg_buf = VecLogBuffer_ctor, isHolderByThread = True\<rparr>"

definition example_started :: LogThread where
  "example_started = take_over (projr (LogImp_ctor example_logger example_init))"

definition example_site :: log_site where
  "example_site = \<lparr>ls_file = [102], ls_line = 7, ls_lev = kInfo, ls_ment = [104, 105]\<rparr>"

definition example_logged :: LogThread where
  "example_logged = example_started\<lparr>loggers := [fst (projr (LogMent example_tm example_now example_site 0
     (loggers example_started ! 0)))]\<rparr>"

lemmas log_example_defs = example_started_def example_init_def example_logger_def LogThread_Init_def SetLogPath_pre_def LogThread_ctor_def LogFile_ctor_def
  LogImp_ctor_def AddLogger_def buf_unlock_def log_turn_def take_over_def Let_def case_prod_beta setLogLev_def setLogToFile_def
  setBufSize_def configInit_def Logger_ctor_def

lemma example_started:
  "logging example_tm length example_started" "lt_isRunning example_started" "length (loggers example_started) = 1"
  "sumWrites example_started = 0" "logworkers example_started = [0]"
  "lg_isSync (loggers example_started ! 0)" "lg_sumWrites (loggers example_started ! 0)"
  "curLogLevel (loggers example_started ! 0) = 0" "lg_buf (loggers example_started ! 0) = VecLogBuffer_ctor"
proof -
  have "LogThread_Init example_tm 1 True example_now [47, 116] 0 False [97] 100 (LogThread_ctor example_now) = Inr example_init"
    by (simp add: log_example_defs)
  then have "logging example_tm length example_init"
    by (rule logging_init [OF logging_new, rotated]) (simp add: LogThread_ctor_def)
  moreover have "LogImp_ctor example_logger example_init = Inr (projr (LogImp_ctor example_logger example_init))"
    by (simp add: log_example_defs VecLogBuffer_ctor_def)
  ultimately have "logging example_tm length (projr (LogImp_ctor example_logger example_init))"
    by (rule logging_thread)
  then show "logging example_tm length example_started"
    by (rule logging_turn) (simp_all add: log_example_defs VecLogBuffer_ctor_def)
qed (simp_all add: log_example_defs VecLogBuffer_ctor_def)

lemma example_ment:
  "\<exists>l. LogMent example_tm example_now example_site 0 (loggers example_started ! 0) = Inr (l, []) \<and>
    cur_buf (lg_buf l) = log_line 73 (fst (ToFormatTodayNowUs example_tm example_now)) example_site"
  using example_started(6-9)
  by (simp add: LogMent_def example_site_def kLogLevelNums_def assign_copy case_prod_beta Let_def kLogThreshold_def
      cur_append_def VecLogBuffer_ctor_def cur_buf_def buf_at_def buf_unlock_def)

theorem log_written_at_stop_witness:
  "fileptr (log_file example_logged) = Some [] \<and>
    (\<exists>t'. LogThread_Stop length example_logged = Inr t' \<and>
      fileptr (log_file t') = Some (log_line 73 (fst (ToFormatTodayNowUs example_tm example_now)) example_site))"
proof -
  obtain l where l: "LogMent example_tm example_now example_site 0 (loggers example_started ! 0) = Inr (l, [])"
    "cur_buf (lg_buf l) = log_line 73 (fst (ToFormatTodayNowUs example_tm example_now)) example_site"
    using example_ment by blast
  have one: "(loggers example_started)[0 := x] = [x]" for x
    using example_started(3) by (cases "loggers example_started") auto
  have t: "example_logged = example_started\<lparr>loggers := (loggers example_started)[0 := l]\<rparr>"
    by (simp add: example_logged_def l(1) one)
  have "logging example_tm length example_logged"
    unfolding t by (rule logging_ment [OF example_started(1)]) (use l(1) example_started(3,4) in simp_all)
  moreover have "lt_isRunning example_logged" using example_started(2) by (simp add: t)
  moreover have "\<forall>s :: bytes. length s = length s" by simp
  ultimately have "fileptr (log_file example_logged) = Some [] \<and>
    (\<exists>t'. LogThread_Stop length example_logged = Inr t' \<and> fileptr (log_file t') =
      Some (concat (map (\<lambda>i. cur_buf (lg_buf (loggers example_logged ! i))) (logworkers example_logged))))"
    by (rule log_written_at_stop)
  moreover have "concat (map (\<lambda>i. cur_buf (lg_buf (loggers example_logged ! i))) (logworkers example_logged)) =
      log_line 73 (fst (ToFormatTodayNowUs example_tm example_now)) example_site"
    using l(2) example_started(5) by (simp add: t one)
  ultimately show ?thesis by simp
qed

end
