(* ===== verification/Net.thy ===== *)
theory Net
  imports Timers Logging "HOL-Library.AList"
begin

text \<open>
  Connections and the server that accepts them: \<open>src/net/connection.cpp\<close>, \<open>src/net/net_server.cpp\<close>,
  \<open>src/net/conn_callback.cpp\<close> and \<open>src/net/active_conn.cpp\<close>. Connections live on a heap of counted
  references; the server's map, a connector and local variables of the callbacks hold references,
  and the last one that goes destroys the object. libevent and the sockets are an argument that
  works on a state of their own. One thread runs the loop, so a callback runs as a whole.
\<close>

unbundle bit_operations_syntax

section \<open>libevent and sockets\<close>

text \<open>
  The calls, and what can be observed: which descriptors are open, the argument of the callbacks of a
  live buffer event (the connection whose \<open>conn_pair_\<close> it is), the descriptor of a buffer event and what it has
  received.
\<close>

record ('w, 'b) netlib =
  event_base_new :: "'w \<Rightarrow> bool \<times> 'w"
  evconnlistener_new_bind :: "16 word \<Rightarrow> 'w \<Rightarrow> bool \<times> 'w"
  bufferevent_socket_new :: "int \<Rightarrow> 'w \<Rightarrow> 'b option \<times> 'w"
  bufferevent_setcb :: "'b \<Rightarrow> nat \<Rightarrow> 'w \<Rightarrow> 'w"
  bufferevent_set_timeouts :: "'b \<Rightarrow> timeval \<Rightarrow> 'w \<Rightarrow> 'w"
  bufferevent_enable :: "'b \<Rightarrow> 'w \<Rightarrow> 'w"
  bufferevent_write :: "'b \<Rightarrow> bytes \<Rightarrow> 'w \<Rightarrow> int \<times> 'w"
  bufferevent_free :: "'b \<Rightarrow> 'w \<Rightarrow> 'w"
  getpeername :: "int \<Rightarrow> 'w \<Rightarrow> (bytes \<times> u32) option"
  sock_socket :: "'w \<Rightarrow> int \<times> 'w"
  sock_connect :: "int \<Rightarrow> bytes \<Rightarrow> 16 word \<Rightarrow> 'w \<Rightarrow> int \<times> 'w"
  sock_close :: "int \<Rightarrow> 'w \<Rightarrow> 'w"
  bev_drain :: "'b \<Rightarrow> bytes \<Rightarrow> 'w \<Rightarrow> 'w"
  fd_open :: "'w \<Rightarrow> int \<Rightarrow> bool"
  cb_arg :: "'w \<Rightarrow> 'b \<Rightarrow> nat option"
  bev_fd :: "'w \<Rightarrow> 'b \<Rightarrow> int"
  bev_input :: "'w \<Rightarrow> 'b \<Rightarrow> bytes"

definition same_net :: "('w, 'b) netlib \<Rightarrow> 'w \<Rightarrow> 'w \<Rightarrow> bool" where
  "same_net N w w' \<longleftrightarrow> fd_open N w' = fd_open N w \<and> cb_arg N w' = cb_arg N w \<and> bev_fd N w' = bev_fd N w"

text \<open>
  A new buffer event is none of those that have callbacks; freeing one removes it and closes its
  descriptor (\<open>BEV_OPT_CLOSE_ON_FREE\<close>); the other calls change none of this.
\<close>

definition netlib_documented :: "('w, 'b) netlib \<Rightarrow> bool" where
  "netlib_documented N \<longleftrightarrow>
     (\<forall>w. same_net N w (snd (event_base_new N w))) \<and>
     (\<forall>p w. same_net N w (snd (evconnlistener_new_bind N p w))) \<and>
     (\<forall>fd w w'. bufferevent_socket_new N fd w = (None, w') \<longrightarrow> same_net N w w') \<and>
     (\<forall>fd w w' b. bufferevent_socket_new N fd w = (Some b, w') \<longrightarrow>
        cb_arg N w b = None \<and> cb_arg N w' = cb_arg N w \<and> fd_open N w' = fd_open N w \<and>
        bev_fd N w' = (bev_fd N w)(b := fd)) \<and>
     (\<forall>b c w. cb_arg N (bufferevent_setcb N b c w) = (cb_arg N w)(b := Some c) \<and>
        fd_open N (bufferevent_setcb N b c w) = fd_open N w \<and> bev_fd N (bufferevent_setcb N b c w) = bev_fd N w) \<and>
     (\<forall>b tv w. same_net N w (bufferevent_set_timeouts N b tv w)) \<and>
     (\<forall>b w. same_net N w (bufferevent_enable N b w)) \<and>
     (\<forall>b d w. same_net N w (snd (bufferevent_write N b d w))) \<and>
     (\<forall>b d w. same_net N w (bev_drain N b d w)) \<and>
     (\<forall>b w. cb_arg N (bufferevent_free N b w) = (cb_arg N w)(b := None) \<and>
        fd_open N (bufferevent_free N b w) = (fd_open N w)(bev_fd N w b := False) \<and>
        bev_fd N (bufferevent_free N b w) = bev_fd N w) \<and>
     (\<forall>fd w. cb_arg N (sock_close N fd w) = cb_arg N w \<and> fd_open N (sock_close N fd w) = (fd_open N w)(fd := False) \<and>
        bev_fd N (sock_close N fd w) = bev_fd N w)"

lemma same_net_refl [simp]: "same_net N w w"
  by (simp add: same_net_def)

lemma same_net_trans: "same_net N a b \<Longrightarrow> same_net N b c \<Longrightarrow> same_net N a c"
  by (simp add: same_net_def)

lemma same_net_calls:
  assumes "netlib_documented N"
  shows "same_net N w (snd (event_base_new N w))" "same_net N w (snd (evconnlistener_new_bind N p w))"
    "same_net N w (bufferevent_set_timeouts N b tv w)" "same_net N w (bufferevent_enable N b w)"
    "same_net N w (snd (bufferevent_write N b d w))" "same_net N w (bev_drain N b d w)"
  using assms by (simp_all add: netlib_documented_def del: split_paired_All)

lemma socket_new_None: "netlib_documented N \<Longrightarrow> bufferevent_socket_new N fd w = (None, w') \<Longrightarrow> same_net N w w'"
  by (simp add: netlib_documented_def del: split_paired_All)

lemma socket_new_Some:
  "netlib_documented N \<Longrightarrow> bufferevent_socket_new N fd w = (Some b, w') \<Longrightarrow>
     cb_arg N w b = None \<and> cb_arg N w' = cb_arg N w \<and> fd_open N w' = fd_open N w \<and> bev_fd N w' = (bev_fd N w)(b := fd)"
  by (simp add: netlib_documented_def del: split_paired_All)

lemma setcb:
  "netlib_documented N \<Longrightarrow> cb_arg N (bufferevent_setcb N b c w) = (cb_arg N w)(b := Some c) \<and>
     fd_open N (bufferevent_setcb N b c w) = fd_open N w \<and> bev_fd N (bufferevent_setcb N b c w) = bev_fd N w"
  by (simp add: netlib_documented_def del: split_paired_All)

lemma free:
  "netlib_documented N \<Longrightarrow> cb_arg N (bufferevent_free N b w) = (cb_arg N w)(b := None) \<and>
     fd_open N (bufferevent_free N b w) = (fd_open N w)(bev_fd N w b := False) \<and>
     bev_fd N (bufferevent_free N b w) = bev_fd N w"
  by (simp add: netlib_documented_def del: split_paired_All)

section \<open>Connections\<close>

datatype 'b bufptr = Garbage | Null | Ptr 'b

record ('b, 'h) Connection =
  readHandle :: "'h option"
  writeHandle :: "'h option"
  closeHandle :: "'h option"
  timeoutHandle :: "'h option"
  conninitHandle :: "'h option"
  ev_read_buf :: "'b bufptr"
  ev_write_buf :: "'b bufptr"
  socketFd :: int
  buf :: "'b bufptr"
  timeVal :: timeval
  peerIP :: bytes
  peerPort :: u32
  conn_pair :: int

text \<open>Members the constructors do not set; the handles and the address are empty.\<close>

record conn_garbage =
  g_fd :: int
  g_port :: u32
  g_pair :: int

definition Connection_default :: "conn_garbage \<Rightarrow> ('b, 'h) Connection" where
  "Connection_default g = \<lparr>readHandle = None, writeHandle = None, closeHandle = None, timeoutHandle = None,
     conninitHandle = None, ev_read_buf = Garbage, ev_write_buf = Garbage, socketFd = g_fd g, buf = Garbage,
     timeVal = (0, 0), peerIP = [], peerPort = g_port g, conn_pair = g_pair g\<rparr>"

definition Connection_ctor ::
  "conn_garbage \<Rightarrow> int \<Rightarrow> 'h option \<Rightarrow> 'h option \<Rightarrow> 'h option \<Rightarrow> 'h option \<Rightarrow> ('b, 'h) Connection" where
  "Connection_ctor g sock rh wh ch th = (Connection_default g)\<lparr>readHandle := rh, writeHandle := wh, closeHandle := ch,
     timeoutHandle := th, socketFd := sock, conn_pair := sock\<rparr>"

definition SetConnInithandle :: "'h option \<Rightarrow> ('b, 'h) Connection \<Rightarrow> ('b, 'h) Connection" where
  "SetConnInithandle h conn = conn\<lparr>conninitHandle := h\<rparr>"

definition getPeerConnInfo :: "('w, 'b) netlib \<Rightarrow> 'w \<Rightarrow> ('b, 'h) Connection \<Rightarrow> bool \<times> ('b, 'h) Connection" where
  "getPeerConnInfo N w conn =
     (case getpeername N (socketFd conn) w of
        None \<Rightarrow> (False, conn)
      | Some (ip, port) \<Rightarrow> (True, conn\<lparr>peerPort := port, peerIP := ip\<rparr>))"

text \<open>\<open>c\<close> is where the connection is.\<close>

definition Connection_Init ::
  "('w, 'b) netlib \<Rightarrow> nat \<Rightarrow> ('b, 'h) Connection \<Rightarrow> 'w \<Rightarrow> bool \<times> ('b, 'h) Connection \<times> 'w" where
  "Connection_Init N c conn w =
     (case bufferevent_socket_new N (socketFd conn) w of
        (None, w) \<Rightarrow> (False, conn\<lparr>buf := Null\<rparr>, w)
      | (Some b, w) \<Rightarrow>
          let conn = conn\<lparr>buf := Ptr b\<rparr>;
              w = bufferevent_setcb N b c w;
              w = (if fst (timeVal conn) \<noteq> 0 \<or> snd (timeVal conn) \<noteq> 0
                   then bufferevent_set_timeouts N b (timeVal conn) w else w);
              (ue, conn) = getPeerConnInfo N w conn in
          (True, conn, bufferevent_enable N b w))"

definition Connection_dtor :: "('w, 'b) netlib \<Rightarrow> ('b, 'h) Connection \<Rightarrow> 'w \<Rightarrow> 'w res" where
  "Connection_dtor N conn w =
     (case buf conn of Ptr b \<Rightarrow> Inr (bufferevent_free N b w) | Null \<Rightarrow> Inl NullDeref | Garbage \<Rightarrow> Inl Uninitialized)"

definition Send :: "('w, 'b) netlib \<Rightarrow> bytes \<Rightarrow> ('b, 'h) Connection \<Rightarrow> 'w \<Rightarrow> (int \<times> 'w) res" where
  "Send N msg conn w =
     (case buf conn of Ptr b \<Rightarrow> Inr (bufferevent_write N b msg w) | Null \<Rightarrow> Inl AssertFail | Garbage \<Rightarrow> Inl Uninitialized)"

section \<open>The server\<close>

definition kMaxConnectionN :: u32 where "kMaxConnectionN = 10000"

record ('w, 'b, 'h) NetServer =
  world :: 'w
  heap :: "nat \<Rightarrow> (nat \<times> ('b, 'h) Connection) option"
  next_addr :: nat
  ConnectionMap :: "(int \<times> nat option) list"
  write_handle :: "'h option"
  close_handle :: "'h option"
  timeout_handle :: "'h option"
  read_handle :: "'h option"
  conninit_handle :: "'h option"
  ns_port :: u32
  maxConnCount :: u32
  eventBase :: bool
  listener :: bool

definition NetServer_ctor :: "'w \<Rightarrow> u32 \<Rightarrow> u32 \<Rightarrow> ('w, 'b, 'h) NetServer" where
  "NetServer_ctor w garbage_port garbage_max = \<lparr>world = w, heap = (\<lambda>_. None), next_addr = 0, ConnectionMap = [],
     write_handle = None, close_handle = None, timeout_handle = None, read_handle = None, conninit_handle = None,
     ns_port = garbage_port, maxConnCount = garbage_max, eventBase = False, listener = False\<rparr>"

definition NetServer_Init ::
  "('w, 'b) netlib \<Rightarrow> u32 \<Rightarrow> 'h option \<Rightarrow> 'h option \<Rightarrow> 'h option \<Rightarrow> 'h option \<Rightarrow> u32 \<Rightarrow>
   ('w, 'b, 'h) NetServer \<Rightarrow> bool \<times> ('w, 'b, 'h) NetServer" where
  "NetServer_Init N port wh ch th rh maxCount n =
     (let (base, w) = event_base_new N (world n); n = n\<lparr>world := w, eventBase := base\<rparr> in
      if \<not> base then (False, n)
      else
        let n = n\<lparr>write_handle := wh, read_handle := rh, close_handle := ch, timeout_handle := th\<rparr>;
            (lis, w) = evconnlistener_new_bind N (ucast port) (world n);
            n = n\<lparr>world := w, listener := lis\<rparr> in
        if \<not> lis then (False, n) else (True, n\<lparr>ns_port := port, maxConnCount := maxCount\<rparr>))"

definition SetConnInitCallback :: "'h option \<Rightarrow> ('w, 'b, 'h) NetServer \<Rightarrow> ('w, 'b, 'h) NetServer" where
  "SetConnInitCallback h n = n\<lparr>conninit_handle := h\<rparr>"

definition SetConnReadCallback :: "'h option \<Rightarrow> ('w, 'b, 'h) NetServer \<Rightarrow> ('w, 'b, 'h) NetServer" where
  "SetConnReadCallback h n = n\<lparr>read_handle := h\<rparr>"

text \<open>The level at which a message of libevent is logged.\<close>

definition FverLogInit :: "int \<Rightarrow> LogLevel" where
  "FverLogInit severity =
     (if severity = 0 then kDebug else if severity = 1 then kInfo else if severity = 2 then kWarn
      else if severity = 3 then kError else kWarn)"

subsection \<open>Counted references\<close>

definition deref :: "nat \<Rightarrow> ('w, 'b, 'h) NetServer \<Rightarrow> ('b, 'h) Connection res" where
  "deref c n = (case heap n c of None \<Rightarrow> Inl UseAfterFree | Some (k, conn) \<Rightarrow> Inr conn)"

definition sp_get :: "nat option \<Rightarrow> nat res" where
  "sp_get p = (case p of None \<Rightarrow> Inl NullDeref | Some c \<Rightarrow> Inr c)"

definition put_conn :: "nat \<Rightarrow> ('b, 'h) Connection \<Rightarrow> ('w, 'b, 'h) NetServer \<Rightarrow> ('w, 'b, 'h) NetServer" where
  "put_conn c conn n = (case heap n c of None \<Rightarrow> n | Some (k, _) \<Rightarrow> n\<lparr>heap := (heap n)(c \<mapsto> (k, conn))\<rparr>)"

definition make_shared :: "('b, 'h) Connection \<Rightarrow> ('w, 'b, 'h) NetServer \<Rightarrow> nat \<times> ('w, 'b, 'h) NetServer" where
  "make_shared conn n =
     (next_addr n, n\<lparr>heap := (heap n)(next_addr n \<mapsto> (1, conn)), next_addr := Suc (next_addr n)\<rparr>)"

definition sp_copy :: "nat option \<Rightarrow> ('w, 'b, 'h) NetServer \<Rightarrow> ('w, 'b, 'h) NetServer" where
  "sp_copy p n =
     (case p of None \<Rightarrow> n
      | Some c \<Rightarrow> (case heap n c of None \<Rightarrow> n | Some (k, conn) \<Rightarrow> n\<lparr>heap := (heap n)(c \<mapsto> (Suc k, conn))\<rparr>))"

definition sp_release :: "('w, 'b) netlib \<Rightarrow> nat option \<Rightarrow> ('w, 'b, 'h) NetServer \<Rightarrow> ('w, 'b, 'h) NetServer res" where
  "sp_release N p n =
     (case p of None \<Rightarrow> Inr n
      | Some c \<Rightarrow>
          (case heap n c of None \<Rightarrow> Inl UseAfterFree
           | Some (k, conn) \<Rightarrow>
               if k > 1 then Inr (n\<lparr>heap := (heap n)(c \<mapsto> (k - 1, conn))\<rparr>)
               else rbind (Connection_dtor N conn (world n)) (\<lambda>w. Inr (n\<lparr>world := w, heap := (heap n)(c := None)\<rparr>))))"

subsection \<open>The map of connections\<close>

text \<open>\<open>insert\<close> keeps what is there.\<close>

definition map_insert :: "int \<Rightarrow> nat option \<Rightarrow> ('w, 'b, 'h) NetServer \<Rightarrow> ('w, 'b, 'h) NetServer" where
  "map_insert fd p n =
     (if map_of (ConnectionMap n) fd = None then sp_copy p (n\<lparr>ConnectionMap := (fd, p) # ConnectionMap n\<rparr>) else n)"

text \<open>\<open>operator[]\<close> inserts a null pointer for an unknown key; the result is a copy.\<close>

definition getConn :: "int \<Rightarrow> ('w, 'b, 'h) NetServer \<Rightarrow> nat option \<times> ('w, 'b, 'h) NetServer" where
  "getConn fd n =
     (case map_of (ConnectionMap n) fd of
        None \<Rightarrow> (None, n\<lparr>ConnectionMap := (fd, None) # ConnectionMap n\<rparr>)
      | Some p \<Rightarrow> (p, sp_copy p n))"

definition removeConn :: "('w, 'b) netlib \<Rightarrow> int \<Rightarrow> ('w, 'b, 'h) NetServer \<Rightarrow> (bool \<times> ('w, 'b, 'h) NetServer) res" where
  "removeConn N fd n =
     (case map_of (ConnectionMap n) fd of
        None \<Rightarrow> Inr (False, n)
      | Some p \<Rightarrow>
          rbind (sp_get p) (\<lambda>c.
          rbind (deref c n) (\<lambda>_.
          rbind (sp_release N p (n\<lparr>ConnectionMap := AList.delete fd (ConnectionMap n)\<rparr>)) (\<lambda>n. Inr (True, n)))))"

definition getConnCount :: "('w, 'b, 'h) NetServer \<Rightarrow> u32" where
  "getConnCount n = of_nat (length (ConnectionMap n))"

section \<open>Callbacks\<close>

text \<open>
  A handler gets a connection and works on the server and a state of its own. It may not return:
  \<open>None\<close>.
\<close>

type_synonym ('w, 'b, 'h, 's) handlers =
  "'h \<Rightarrow> nat \<Rightarrow> ('w, 'b, 'h) NetServer \<times> 's \<Rightarrow> (('w, 'b, 'h) NetServer \<times> 's) res option"

fun obind :: "'a res option \<Rightarrow> ('a \<Rightarrow> 'b res option) \<Rightarrow> 'b res option" where
  "obind None f = None"
| "obind (Some (Inl e)) f = Some (Inl e)"
| "obind (Some (Inr x)) f = f x"

definition run_handle ::
  "('w, 'b, 'h, 's) handlers \<Rightarrow> 'h option \<Rightarrow> nat \<Rightarrow> ('w, 'b, 'h) NetServer \<times> 's \<Rightarrow>
   (('w, 'b, 'h) NetServer \<times> 's) res option" where
  "run_handle call h c st = (case h of None \<Rightarrow> Some (Inr st) | Some h \<Rightarrow> call h c st)"

text \<open>The end of a callback: its reference goes.\<close>

definition leave ::
  "('w, 'b) netlib \<Rightarrow> nat option \<Rightarrow> ('w, 'b, 'h) NetServer \<times> 's \<Rightarrow> (('w, 'b, 'h) NetServer \<times> 's) res option" where
  "leave N p st = Some (rbind (sp_release N p (fst st)) (\<lambda>n. Inr (n, snd st)))"

text \<open>The start of a callback: the connection of the pair \<open>data\<close> points to, found through the map.\<close>

definition conn_of ::
  "nat \<Rightarrow> ('w, 'b, 'h) NetServer \<Rightarrow> (nat \<times> ('w, 'b, 'h) NetServer) res" where
  "conn_of data n =
     rbind (deref data n) (\<lambda>conn.
     let (p, n) = getConn (conn_pair conn) n in rbind (sp_get p) (\<lambda>c. Inr (c, n)))"

definition ListenerCallback ::
  "('w, 'b) netlib \<Rightarrow> ('w, 'b, 'h, 's) handlers \<Rightarrow> conn_garbage \<Rightarrow> int \<Rightarrow> ('w, 'b, 'h) NetServer \<times> 's \<Rightarrow>
   (('w, 'b, 'h) NetServer \<times> 's) res option" where
  "ListenerCallback N call g sock st =
     (let n = fst st;
          (new_conn, n) = make_shared
            (Connection_ctor g sock (read_handle n) (write_handle n) (close_handle n) (timeout_handle n)) n;
          n = map_insert sock (Some new_conn) n in
      obind (Some (deref new_conn n)) (\<lambda>conn.
      let (ue, conn, w) = Connection_Init N new_conn conn (world n);
          n = put_conn new_conn conn (n\<lparr>world := w\<rparr>) in
      obind (run_handle call (conninit_handle n) new_conn (n, snd st)) (leave N (Some new_conn))))"

definition set_ev_bufs :: "'b \<Rightarrow> nat \<Rightarrow> ('w, 'b, 'h) NetServer \<Rightarrow> (('b, 'h) Connection \<times> ('w, 'b, 'h) NetServer) res" where
  "set_ev_bufs b c n =
     rbind (deref c n) (\<lambda>conn.
       let conn = conn\<lparr>ev_read_buf := Ptr b, ev_write_buf := Ptr b\<rparr> in Inr (conn, put_conn c conn n))"

definition ConnectionReadCallback ::
  "('w, 'b) netlib \<Rightarrow> ('w, 'b, 'h, 's) handlers \<Rightarrow> 'b \<Rightarrow> nat \<Rightarrow> ('w, 'b, 'h) NetServer \<times> 's \<Rightarrow>
   (('w, 'b, 'h) NetServer \<times> 's) res option" where
  "ConnectionReadCallback N call b data st =
     obind (Some (conn_of data (fst st))) (\<lambda>(c, n).
     obind (Some (set_ev_bufs b c n)) (\<lambda>(conn, n).
     obind (run_handle call (readHandle conn) c (n, snd st)) (leave N (Some c))))"

definition ConnectionWriteCallback ::
  "('w, 'b) netlib \<Rightarrow> ('w, 'b, 'h, 's) handlers \<Rightarrow> 'b \<Rightarrow> nat \<Rightarrow> ('w, 'b, 'h) NetServer \<times> 's \<Rightarrow>
   (('w, 'b, 'h) NetServer \<times> 's) res option" where
  "ConnectionWriteCallback N call b data st =
     obind (Some (conn_of data (fst st))) (\<lambda>(c, n).
     obind (Some (set_ev_bufs b c n)) (\<lambda>(conn, n).
     obind (run_handle call (writeHandle conn) c (n, snd st)) (leave N (Some c))))"

definition BEV_EVENT_EOF :: "16 word" where "BEV_EVENT_EOF = 16"
definition BEV_EVENT_ERROR :: "16 word" where "BEV_EVENT_ERROR = 32"
definition BEV_EVENT_TIMEOUT :: "16 word" where "BEV_EVENT_TIMEOUT = 64"
definition BEV_EVENT_CONNECTED :: "16 word" where "BEV_EVENT_CONNECTED = 128"

definition drop_conn ::
  "('w, 'b) netlib \<Rightarrow> ('w, 'b, 'h, 's) handlers \<Rightarrow> 'h option \<Rightarrow> nat \<Rightarrow> ('w, 'b, 'h) NetServer \<times> 's \<Rightarrow>
   (('w, 'b, 'h) NetServer \<times> 's) res option" where
  "drop_conn N call h c st =
     obind (run_handle call h c st) (\<lambda>(n, s).
     obind (Some (deref c n)) (\<lambda>conn.
     obind (Some (removeConn N (socketFd conn) n)) (\<lambda>(_, n). Some (Inr (n, s)))))"

definition ConnectionEventCallback ::
  "('w, 'b) netlib \<Rightarrow> ('w, 'b, 'h, 's) handlers \<Rightarrow> 16 word \<Rightarrow> nat \<Rightarrow> ('w, 'b, 'h) NetServer \<times> 's \<Rightarrow>
   (('w, 'b, 'h) NetServer \<times> 's) res option" where
  "ConnectionEventCallback N call eventWhat data st =
     obind (Some (conn_of data (fst st))) (\<lambda>(c, n).
     obind (Some (deref c n)) (\<lambda>conn.
     obind (if eventWhat AND (BEV_EVENT_EOF OR BEV_EVENT_ERROR) \<noteq> 0 then
              drop_conn N call (closeHandle conn) c (n, snd st)
            else if eventWhat AND BEV_EVENT_TIMEOUT \<noteq> 0 then
              drop_conn N call (timeoutHandle conn) c (n, snd st)
            else Some (Inr (n, snd st))) (leave N (Some c))))"

section \<open>Active connections\<close>

record 'h Connectioner =
  peer_ip :: bytes
  peer_port :: u32
  ac_conn :: "nat option"
  conn_init_handle :: "'h option"
  isRunning :: bool

text \<open>\<open>Init\<close> on a new connector: the old value of \<open>conn_\<close> is null.\<close>

definition Connectioner_Init ::
  "conn_garbage \<Rightarrow> bytes \<Rightarrow> u32 \<Rightarrow> 'h option \<Rightarrow> 'h option \<Rightarrow> 'h option \<Rightarrow> 'h option \<Rightarrow>
   'h Connectioner \<Rightarrow> ('w, 'b, 'h) NetServer \<Rightarrow> 'h Connectioner \<times> ('w, 'b, 'h) NetServer" where
  "Connectioner_Init g ip port rh wh ch th ac n =
     (let (c, n) = make_shared ((Connection_default g)\<lparr>readHandle := rh, writeHandle := wh, closeHandle := ch,
                     timeoutHandle := th\<rparr>) n in
      (ac\<lparr>ac_conn := Some c, peer_ip := ip, peer_port := port, isRunning := False\<rparr>, n))"

definition EPERM :: int where "EPERM = 1"
definition EINTR :: int where "EINTR = 4"
definition EBADF :: int where "EBADF = 9"
definition EAGAIN :: int where "EAGAIN = 11"
definition EACCES :: int where "EACCES = 13"
definition EFAULT :: int where "EFAULT = 14"
definition ENOTSOCK :: int where "ENOTSOCK = 88"
definition EAFNOSUPPORT :: int where "EAFNOSUPPORT = 97"
definition EADDRINUSE :: int where "EADDRINUSE = 98"
definition EADDRNOTAVAIL :: int where "EADDRNOTAVAIL = 99"
definition ENETUNREACH :: int where "ENETUNREACH = 101"
definition EISCONN :: int where "EISCONN = 106"
definition ECONNREFUSED :: int where "ECONNREFUSED = 111"
definition EALREADY :: int where "EALREADY = 114"
definition EINPROGRESS :: int where "EINPROGRESS = 115"

text \<open>\<open>sock_connect\<close> gives \<open>0\<close> or the error number.\<close>

definition Connectioner_Run ::
  "('w, 'b) netlib \<Rightarrow> ('w, 'b, 'h, 's) handlers \<Rightarrow> 'h Connectioner \<Rightarrow> ('w, 'b, 'h) NetServer \<times> 's \<Rightarrow>
   (bool \<times> 'h Connectioner \<times> ('w, 'b, 'h) NetServer \<times> 's) res option" where
  "Connectioner_Run N call ac st =
     (let n = fst st in
      obind (Some (sp_get (ac_conn ac))) (\<lambda>c.
      obind (Some (deref c n)) (\<lambda>conn.
      let (fd, w) = sock_socket N (world n);
          conn = conn\<lparr>socketFd := fd\<rparr>;
          (saved_error, w) = sock_connect N fd (peer_ip ac) (ucast (peer_port ac)) w;
          n = n\<lparr>world := w\<rparr> in
      if saved_error \<in> {0, EINPROGRESS, EINTR, EISCONN} then
        let conn = conn\<lparr>conn_pair := fd\<rparr>;
            n = map_insert fd (Some c) (put_conn c conn n);
            (_, conn, w) = Connection_Init N c conn (world n);
            n = put_conn c conn (n\<lparr>world := w\<rparr>) in
        obind (run_handle call (conn_init_handle ac) c (n, snd st)) (\<lambda>st.
          Some (Inr (True, ac\<lparr>isRunning := True\<rparr>, st)))
      else if saved_error \<in> {EAGAIN, EADDRINUSE, EADDRNOTAVAIL, ECONNREFUSED, ENETUNREACH, EACCES, EPERM, EAFNOSUPPORT,
          EALREADY, EBADF, EFAULT, ENOTSOCK} then
        let n = put_conn c conn n in Some (Inr (False, ac, n\<lparr>world := sock_close N fd (world n)\<rparr>, snd st))
      else Some (Inr (True, ac, put_conn c conn n, snd st)))))"

definition CloseConn :: "('w, 'b) netlib \<Rightarrow> 'h Connectioner \<Rightarrow> ('w, 'b, 'h) NetServer \<Rightarrow> ('w, 'b, 'h) NetServer res" where
  "CloseConn N ac n =
     (if isRunning ac then
        rbind (sp_get (ac_conn ac)) (\<lambda>c.
        rbind (deref c n) (\<lambda>conn. Inr (n\<lparr>world := sock_close N (socketFd conn) (world n)\<rparr>)))
      else Inr n)"

text \<open>The destructor: after its body the reference to the connection goes.\<close>

definition Connectioner_dtor :: "('w, 'b) netlib \<Rightarrow> 'h Connectioner \<Rightarrow> ('w, 'b, 'h) NetServer \<Rightarrow> ('w, 'b, 'h) NetServer res" where
  "Connectioner_dtor N ac n = rbind (CloseConn N ac n) (sp_release N (ac_conn ac))"

section \<open>What holds between two callbacks\<close>

text \<open>
  For connections the server accepted: the map knows every connection under its descriptor, which is open, and
  holds the only reference; the callbacks of a buffer event lead to the connection that has it.
\<close>

definition conn_handles :: "('b, 'h) Connection \<Rightarrow> 'h option list" where
  "conn_handles conn = [readHandle conn, writeHandle conn, closeHandle conn, timeoutHandle conn]"

definition has_handles :: "('w, 'b, 'h) NetServer \<Rightarrow> ('b, 'h) Connection \<Rightarrow> bool" where
  "has_handles n conn \<longleftrightarrow> conn_handles conn = [read_handle n, write_handle n, close_handle n, timeout_handle n]"

definition handles :: "('w, 'b, 'h) NetServer \<Rightarrow> 'h option list" where
  "handles n = [read_handle n, write_handle n, close_handle n, timeout_handle n, conninit_handle n]"

lemma has_handles_update [simp]:
  "has_handles (n\<lparr>world := w\<rparr>) = has_handles n" "has_handles (n\<lparr>heap := h\<rparr>) = has_handles n"
  "has_handles (n\<lparr>ConnectionMap := m\<rparr>) = has_handles n" "has_handles (n\<lparr>next_addr := a\<rparr>) = has_handles n"
  by (simp_all add: has_handles_def fun_eq_iff)

lemma handles_update [simp]:
  "handles (n\<lparr>world := w\<rparr>) = handles n" "handles (n\<lparr>heap := h\<rparr>) = handles n"
  "handles (n\<lparr>ConnectionMap := m\<rparr>) = handles n" "handles (n\<lparr>next_addr := a\<rparr>) = handles n"
  by (simp_all add: handles_def)

definition net_ok :: "('w, 'b) netlib \<Rightarrow> ('w, 'b, 'h) NetServer \<Rightarrow> bool" where
  "net_ok N n \<longleftrightarrow> distinct (map fst (ConnectionMap n)) \<and>
     (\<forall>fd p. map_of (ConnectionMap n) fd = Some p \<longrightarrow>
        (\<exists>c conn. p = Some c \<and> heap n c = Some (1, conn) \<and> socketFd conn = fd) \<and> fd_open N (world n) fd) \<and>
     (\<forall>c k conn. heap n c = Some (k, conn) \<longrightarrow> k = 1 \<and> c < next_addr n \<and> conn_pair conn = socketFd conn \<and> has_handles n conn \<and>
        buf conn \<noteq> Garbage \<and> map_of (ConnectionMap n) (socketFd conn) = Some (Some c) \<and>
        (\<forall>b. buf conn = Ptr b \<longrightarrow> cb_arg N (world n) b = Some c \<and> bev_fd N (world n) b = socketFd conn)) \<and>
     (\<forall>b c. cb_arg N (world n) b = Some c \<longrightarrow> (\<exists>k conn. heap n c = Some (k, conn) \<and> buf conn = Ptr b))"

lemma net_okI:
  assumes "distinct (map fst (ConnectionMap n))"
    and "\<And>fd p. map_of (ConnectionMap n) fd = Some p \<Longrightarrow>
      (\<exists>c conn. p = Some c \<and> heap n c = Some (1, conn) \<and> socketFd conn = fd) \<and> fd_open N (world n) fd"
    and "\<And>c k conn. heap n c = Some (k, conn) \<Longrightarrow> k = 1 \<and> c < next_addr n \<and> conn_pair conn = socketFd conn \<and> has_handles n conn \<and>
      buf conn \<noteq> Garbage \<and> map_of (ConnectionMap n) (socketFd conn) = Some (Some c) \<and>
      (\<forall>b. buf conn = Ptr b \<longrightarrow> cb_arg N (world n) b = Some c \<and> bev_fd N (world n) b = socketFd conn)"
    and "\<And>b c. cb_arg N (world n) b = Some c \<Longrightarrow> \<exists>k conn. heap n c = Some (k, conn) \<and> buf conn = Ptr b"
  shows "net_ok N n"
  using assms unfolding net_ok_def by blast

lemma net_ok_map:
  "net_ok N n \<Longrightarrow> map_of (ConnectionMap n) fd = Some p \<Longrightarrow>
     (\<exists>c conn. p = Some c \<and> heap n c = Some (1, conn) \<and> socketFd conn = fd) \<and> fd_open N (world n) fd"
  unfolding net_ok_def by blast

lemma net_ok_heap:
  "net_ok N n \<Longrightarrow> heap n c = Some (k, conn) \<Longrightarrow> k = 1 \<and> c < next_addr n \<and> conn_pair conn = socketFd conn \<and> has_handles n conn \<and>
     buf conn \<noteq> Garbage \<and> map_of (ConnectionMap n) (socketFd conn) = Some (Some c) \<and>
     (\<forall>b. buf conn = Ptr b \<longrightarrow> cb_arg N (world n) b = Some c \<and> bev_fd N (world n) b = socketFd conn)"
  unfolding net_ok_def by blast

lemma net_ok_event:
  assumes "net_ok N n" "cb_arg N (world n) b = Some c"
  obtains conn where "heap n c = Some (1, conn)" "buf conn = Ptr b" "conn_pair conn = socketFd conn"
    "bev_fd N (world n) b = socketFd conn" "map_of (ConnectionMap n) (socketFd conn) = Some (Some c)"
    "fd_open N (world n) (socketFd conn)"
proof -
  obtain k conn where c: "heap n c = Some (k, conn)" "buf conn = Ptr b"
    using assms unfolding net_ok_def by blast
  then show thesis using net_ok_heap [OF assms(1) c(1)] net_ok_map [OF assms(1)] that by blast
qed

lemma net_ok_world: "net_ok N n \<Longrightarrow> same_net N (world n) w \<Longrightarrow> net_ok N (n\<lparr>world := w\<rparr>)"
  unfolding net_ok_def same_net_def by simp

text \<open>Members the callbacks change do not matter.\<close>

lemma net_ok_ev_bufs:
  assumes ok: "net_ok N n" and c: "heap n c = Some (1, conn)"
    and conn': "socketFd conn' = socketFd conn" "conn_pair conn' = conn_pair conn" "buf conn' = buf conn"
      "has_handles n conn' = has_handles n conn"
    and w: "same_net N (world n) w"
  shows "net_ok N (n\<lparr>world := w, heap := (heap n)(c \<mapsto> (1, conn'))\<rparr>)"
proof (rule net_okI)
  let ?n = "n\<lparr>world := w, heap := (heap n)(c \<mapsto> (1, conn'))\<rparr>"
  have same: "fd_open N w = fd_open N (world n)" "cb_arg N w = cb_arg N (world n)" "bev_fd N w = bev_fd N (world n)"
    using w by (simp_all add: same_net_def)
  show "distinct (map fst (ConnectionMap ?n))" using ok by (simp add: net_ok_def)
  show "(\<exists>a x. p = Some a \<and> heap ?n a = Some (1, x) \<and> socketFd x = fd) \<and> fd_open N (world ?n) fd"
    if "map_of (ConnectionMap ?n) fd = Some p" for fd p
    using net_ok_map [OF ok, of fd p] that c conn'(1) same(1) by auto
  show "k = 1 \<and> a < next_addr ?n \<and> conn_pair x = socketFd x \<and> has_handles ?n x \<and>
      buf x \<noteq> Garbage \<and>
      map_of (ConnectionMap ?n) (socketFd x) = Some (Some a) \<and>
      (\<forall>b. buf x = Ptr b \<longrightarrow> cb_arg N (world ?n) b = Some a \<and> bev_fd N (world ?n) b = socketFd x)"
    if "heap ?n a = Some (k, x)" for a k x
    using net_ok_heap [OF ok, of a k x] net_ok_heap [OF ok c] that conn' same by (auto split: if_splits)
  show "\<exists>k x. heap ?n a = Some (k, x) \<and> buf x = Ptr b" if "cb_arg N (world ?n) b = Some a" for b a
  proof -
    have "cb_arg N (world n) b = Some a" using that same by simp
    then obtain x where "heap n a = Some (1, x)" "buf x = Ptr b" using net_ok_event [OF ok] by blast
    then show ?thesis using c conn'(3) by (cases "a = c") auto
  qed
qed

lemma obind_eq_Inr: "obind m f = Some (Inr y) \<longleftrightarrow> (\<exists>x. m = Some (Inr x) \<and> f x = Some (Inr y))"
  by (cases "(m, f)" rule: obind.cases) auto

text \<open>During a callback there are two references.\<close>

definition borrow :: "nat \<Rightarrow> ('b, 'h) Connection \<Rightarrow> ('w, 'b, 'h) NetServer \<Rightarrow> ('w, 'b, 'h) NetServer" where
  "borrow c conn n = n\<lparr>heap := (heap n)(c \<mapsto> (Suc (Suc 0), conn))\<rparr>"

lemma conn_of_live:
  assumes "net_ok N n" "heap n c = Some (1, conn)"
  shows "conn_of c n = Inr (c, borrow c conn n)"
  using net_ok_heap [OF assms] assms(2)
  by (simp add: conn_of_def deref_def getConn_def sp_copy_def sp_get_def borrow_def)

lemma leave_borrow:
  "leave N (Some c) ((borrow c conn n)\<lparr>world := w\<rparr>, s) = Some (Inr (n\<lparr>world := w, heap := (heap n)(c \<mapsto> (1, conn))\<rparr>, s))"
  by (simp add: leave_def sp_release_def borrow_def)

lemma set_ev_bufs_borrow:
  "set_ev_bufs b c (borrow c conn n) =
     Inr (conn\<lparr>ev_read_buf := Ptr b, ev_write_buf := Ptr b\<rparr>, borrow c (conn\<lparr>ev_read_buf := Ptr b, ev_write_buf := Ptr b\<rparr>) n)"
  by (simp add: set_ev_bufs_def deref_def borrow_def put_conn_def Let_def)

lemma ReadCallback_live:
  assumes "net_ok N n" "heap n c = Some (1, conn)"
  shows "ConnectionReadCallback N call b c (n, s) =
    obind (run_handle call (readHandle conn) c (borrow c (conn\<lparr>ev_read_buf := Ptr b, ev_write_buf := Ptr b\<rparr>) n, s)) (leave N (Some c))"
  using conn_of_live [OF assms] by (simp add: ConnectionReadCallback_def set_ev_bufs_borrow)

lemma WriteCallback_live:
  assumes "net_ok N n" "heap n c = Some (1, conn)"
  shows "ConnectionWriteCallback N call b c (n, s) =
    obind (run_handle call (writeHandle conn) c (borrow c (conn\<lparr>ev_read_buf := Ptr b, ev_write_buf := Ptr b\<rparr>) n, s)) (leave N (Some c))"
  using conn_of_live [OF assms] by (simp add: ConnectionWriteCallback_def set_ev_bufs_borrow)

text \<open>What closing a connection leaves.\<close>

definition without :: "('w, 'b) netlib \<Rightarrow> nat \<Rightarrow> ('b, 'h) Connection \<Rightarrow> 'b \<Rightarrow> ('w, 'b, 'h) NetServer \<Rightarrow> ('w, 'b, 'h) NetServer" where
  "without N c conn b n = n\<lparr>world := bufferevent_free N b (world n), heap := (heap n)(c := None),
     ConnectionMap := AList.delete (socketFd conn) (ConnectionMap n)\<rparr>"

lemma drop_conn_live:
  assumes "net_ok N n" "heap n c = Some (1, conn)" "buf conn = Ptr b"
    and "run_handle call h c (borrow c conn n, s) = Some (Inr ((borrow c conn n)\<lparr>world := w\<rparr>, s'))"
  shows "obind (drop_conn N call h c (borrow c conn n, s)) (leave N (Some c)) =
    Some (Inr (without N c conn b (n\<lparr>world := w\<rparr>), s'))"
  using net_ok_heap [OF assms(1,2)] assms(2-4)
  by (simp add: drop_conn_def borrow_def deref_def removeConn_def sp_get_def sp_release_def leave_def Connection_dtor_def
      without_def)

lemma without_ok:
  assumes N: "netlib_documented N" and ok: "net_ok N n" and c: "heap n c = Some (1, conn)" "buf conn = Ptr b"
  shows "net_ok N (without N c conn b n)"
proof (rule net_okI)
  let ?n = "without N c conn b n" and ?fd = "socketFd conn"
  note H = net_ok_heap [OF ok]
  have fd: "bev_fd N (world n) b = ?fd" "cb_arg N (world n) b = Some c" using H [OF c(1)] c(2) by simp_all
  have w: "cb_arg N (world ?n) = (cb_arg N (world n))(b := None)" "fd_open N (world ?n) = (fd_open N (world n))(?fd := False)"
    "bev_fd N (world ?n) = bev_fd N (world n)"
    using N fd by (simp_all add: netlib_documented_def without_def)
  have other: "a = c" if "heap n a = Some (k, x)" "socketFd x = ?fd" for a k x
    using H [OF that(1)] H [OF c(1)] that(2) by simp
  have m: "map_of (ConnectionMap ?n) = (map_of (ConnectionMap n))(?fd := None)" by (simp add: without_def delete_conv')
  have h: "heap ?n = (heap n)(c := None)" "next_addr ?n = next_addr n" "has_handles ?n = has_handles n"
    by (simp_all add: without_def)
  show "distinct (map fst (ConnectionMap ?n))" using ok by (simp add: net_ok_def without_def distinct_delete)
  show "(\<exists>a x. p = Some a \<and> heap ?n a = Some (1, x) \<and> socketFd x = fd) \<and> fd_open N (world ?n) fd"
    if "map_of (ConnectionMap ?n) fd = Some p" for fd p
  proof -
    have "fd \<noteq> ?fd" "map_of (ConnectionMap n) fd = Some p" using that m by (auto split: if_splits)
    moreover from this obtain a x where "p = Some a" "heap n a = Some (1, x)" "socketFd x = fd" "fd_open N (world n) fd"
      using net_ok_map [OF ok, of fd p] by blast
    moreover from calculation have "a \<noteq> c" using c(1) by auto
    ultimately show ?thesis using h(1) w(2) by auto
  qed
  show "k = 1 \<and> a < next_addr ?n \<and> conn_pair x = socketFd x \<and> has_handles ?n x \<and>
      buf x \<noteq> Garbage \<and>
      map_of (ConnectionMap ?n) (socketFd x) = Some (Some a) \<and>
      (\<forall>b. buf x = Ptr b \<longrightarrow> cb_arg N (world ?n) b = Some a \<and> bev_fd N (world ?n) b = socketFd x)"
    if "heap ?n a = Some (k, x)" for a k x
  proof -
    have a: "a \<noteq> c" "heap n a = Some (k, x)" using that h by (auto split: if_splits)
    then have "socketFd x \<noteq> ?fd" using other by blast
    moreover have "buf x \<noteq> Ptr b" using H [OF a(2)] fd(2) a(1) by auto
    ultimately show ?thesis using H [OF a(2)] m w h(2,3) by auto
  qed
  show "\<exists>k x. heap ?n a = Some (k, x) \<and> buf x = Ptr b'" if "cb_arg N (world ?n) b' = Some a" for b' a
  proof -
    have b': "b' \<noteq> b" "cb_arg N (world n) b' = Some a" using that w(1) by (auto split: if_splits)
    then obtain x where x: "heap n a = Some (1, x)" "buf x = Ptr b'" using net_ok_event [OF ok] by blast
    then have "a \<noteq> c" using c b'(1) by auto
    then show ?thesis using x h by auto
  qed
qed

text \<open>Accepting a connection: the kernel opens a descriptor that was not open.\<close>

definition opened :: "('w, 'b) netlib \<Rightarrow> int \<Rightarrow> 'w \<Rightarrow> 'w \<Rightarrow> bool" where
  "opened N fd w w' \<longleftrightarrow> \<not> fd_open N w fd \<and> fd_open N w' = (fd_open N w)(fd := True) \<and> cb_arg N w' = cb_arg N w \<and>
     bev_fd N w' = bev_fd N w"

lemma Connection_Init_result:
  assumes "netlib_documented N" "Connection_Init N c conn w = (ue, conn', w')"
  shows "socketFd conn' = socketFd conn" "conn_pair conn' = conn_pair conn" "conn_handles conn' = conn_handles conn"
    "fd_open N w' = fd_open N w"
    "(\<exists>b. ue \<and> buf conn' = Ptr b \<and> cb_arg N w b = None \<and> cb_arg N w' = (cb_arg N w)(b := Some c) \<and>
        bev_fd N w' = (bev_fd N w)(b := socketFd conn)) \<or> \<not> ue \<and> buf conn' = Null \<and> same_net N w w'"
proof -
  obtain r w0 where new: "bufferevent_socket_new N (socketFd conn) w = (r, w0)" by fastforce
  have "socketFd conn' = socketFd conn \<and> conn_pair conn' = conn_pair conn \<and> conn_handles conn' = conn_handles conn \<and>
      fd_open N w' = fd_open N w \<and> ((\<exists>b. ue \<and> buf conn' = Ptr b \<and> cb_arg N w b = None \<and>
        cb_arg N w' = (cb_arg N w)(b := Some c) \<and> bev_fd N w' = (bev_fd N w)(b := socketFd conn)) \<or>
        \<not> ue \<and> buf conn' = Null \<and> same_net N w w')"
  proof (cases r)
    case None
    then show ?thesis using assms(2) new socket_new_None [OF assms(1), of "socketFd conn" w]
      by (auto simp: Connection_Init_def same_net_def conn_handles_def)
  next
    case (Some b)
    then have b: "cb_arg N w b = None" "cb_arg N w0 = cb_arg N w" "fd_open N w0 = fd_open N w"
      "bev_fd N w0 = (bev_fd N w)(b := socketFd conn)"
      using socket_new_Some [OF assms(1)] new by blast+
    let ?w1 = "bufferevent_setcb N b c w0"
    let ?w2 = "if fst (timeVal conn) \<noteq> 0 \<or> snd (timeVal conn) \<noteq> 0 then bufferevent_set_timeouts N b (timeVal conn) ?w1 else ?w1"
    let ?c = "snd (getPeerConnInfo N ?w2 (conn\<lparr>buf := Ptr b\<rparr>))"
    have "conn' = ?c" "w' = bufferevent_enable N b ?w2" "ue"
      using assms(2) new Some by (simp_all add: Connection_Init_def Let_def case_prod_beta cong: if_cong)
    moreover have "same_net N ?w1 (bufferevent_enable N b ?w2)"
      using same_net_trans [OF same_net_calls(3) [OF assms(1)] same_net_calls(4) [OF assms(1)]] same_net_calls(4) [OF assms(1)]
      by simp
    moreover have "socketFd ?c = socketFd conn \<and> conn_pair ?c = conn_pair conn \<and> conn_handles ?c = conn_handles conn \<and>
        buf ?c = Ptr b"
      by (simp add: getPeerConnInfo_def conn_handles_def split: option.split)
    ultimately show ?thesis using b setcb [OF assms(1), of b c w0] by (auto simp: same_net_def)
  qed
  then show "socketFd conn' = socketFd conn" "conn_pair conn' = conn_pair conn" "conn_handles conn' = conn_handles conn"
    "fd_open N w' = fd_open N w"
    "(\<exists>b. ue \<and> buf conn' = Ptr b \<and> cb_arg N w b = None \<and> cb_arg N w' = (cb_arg N w)(b := Some c) \<and>
        bev_fd N w' = (bev_fd N w)(b := socketFd conn)) \<or> \<not> ue \<and> buf conn' = Null \<and> same_net N w w'"
    by blast+
qed

definition with_conn :: "int \<Rightarrow> ('b, 'h) Connection \<Rightarrow> 'w \<Rightarrow> ('w, 'b, 'h) NetServer \<Rightarrow> ('w, 'b, 'h) NetServer" where
  "with_conn fd conn w n = n\<lparr>next_addr := Suc (next_addr n), ConnectionMap := (fd, Some (next_addr n)) # ConnectionMap n,
     world := w, heap := (heap n)(next_addr n \<mapsto> (1, conn))\<rparr>"

abbreviation accepted :: "conn_garbage \<Rightarrow> int \<Rightarrow> ('w, 'b, 'h) NetServer \<Rightarrow> ('b, 'h) Connection" where
  "accepted g fd n \<equiv> Connection_ctor g fd (read_handle n) (write_handle n) (close_handle n) (timeout_handle n)"

lemma ListenerCallback_new:
  assumes "map_of (ConnectionMap n) fd = None" "Connection_Init N (next_addr n) (accepted g fd n) (world n) = (ue, conn, w)"
  shows "ListenerCallback N call g fd (n, s) =
    obind (run_handle call (conninit_handle n) (next_addr n) (borrow (next_addr n) conn (with_conn fd conn w n), s))
      (leave N (Some (next_addr n)))"
  using assms
  by (simp add: ListenerCallback_def make_shared_def map_insert_def sp_copy_def deref_def put_conn_def borrow_def with_conn_def)

lemma net_ok_closed:
  assumes "net_ok N n" "\<not> fd_open N (world n) fd"
  shows "map_of (ConnectionMap n) fd = None"
  using assms(2) net_ok_map [OF assms(1), of fd] by (cases "map_of (ConnectionMap n) fd") auto

lemma with_conn_simps:
  "map_of (ConnectionMap (with_conn fd conn w n)) = (map_of (ConnectionMap n))(fd := Some (Some (next_addr n)))"
  "heap (with_conn fd conn w n) = (heap n)(next_addr n := Some (1, conn))"
  "next_addr (with_conn fd conn w n) = Suc (next_addr n)" "world (with_conn fd conn w n) = w"
  "has_handles (with_conn fd conn w n) = has_handles n"
  by (simp_all add: with_conn_def)

lemma new_conn_fresh:
  assumes ok: "net_ok N n" and op: "opened N fd (world n) w"
  shows "map_of (ConnectionMap n) fd = None" "heap n (next_addr n) = None"
proof -
  show "map_of (ConnectionMap n) fd = None" using net_ok_closed [OF ok] op by (simp add: opened_def)
  show "heap n (next_addr n) = None"
    using net_ok_heap [OF ok, of "next_addr n"] by (cases "heap n (next_addr n)") auto
qed

lemma new_conn_facts:
  assumes N: "netlib_documented N" and op: "opened N fd (world n) w"
    and init: "Connection_Init N (next_addr n) (accepted g fd n) w = (ue, conn, w')"
  shows "socketFd conn = fd" "conn_pair conn = fd" "has_handles n conn"
    "fd_open N w' = (fd_open N (world n))(fd := True)"
    "cb_arg N (world n) b = Some c \<Longrightarrow> cb_arg N w' b = Some c \<and> bev_fd N w' b = bev_fd N (world n) b"
  using Connection_Init_result [OF N init] op
  by (auto simp: Connection_ctor_def has_handles_def conn_handles_def opened_def same_net_def)

lemma with_conn_ok:
  assumes N: "netlib_documented N" and ok: "net_ok N n" and op: "opened N fd (world n) w"
    and init: "Connection_Init N (next_addr n) (accepted g fd n) w = (ue, conn, w')"
  shows "net_ok N (with_conn fd conn w' n)"
proof (rule net_okI)
  let ?n = "with_conn fd conn w' n" and ?a = "next_addr n"
  note H = net_ok_heap [OF ok]
  note I = Connection_Init_result [OF N init]
  note F = new_conn_facts [OF N op init]
  note conn = F(1,2) and opens = F(4) and w = F(5)
  note none = new_conn_fresh(1) [OF ok op]
  note m = with_conn_simps(1) [of fd conn w' n] and h = with_conn_simps(2-) [of fd conn w' n]
  have old: "x \<noteq> ?a" if "heap n x = Some y" for x y using new_conn_fresh(2) [OF ok op] that by auto
  show "distinct (map fst (ConnectionMap ?n))"
    using ok none by (auto simp: net_ok_def with_conn_def map_of_eq_None_iff)
  show "(\<exists>a x. p = Some a \<and> heap ?n a = Some (1, x) \<and> socketFd x = f) \<and> fd_open N (world ?n) f"
    if "map_of (ConnectionMap ?n) f = Some p" for f p
  proof (cases "f = fd")
    case True
    then show ?thesis using that m h opens conn by auto
  next
    case False
    then have "map_of (ConnectionMap n) f = Some p" using that m by simp
    then obtain a x where "p = Some a" "heap n a = Some (1, x)" "socketFd x = f" "fd_open N (world n) f"
      using net_ok_map [OF ok, of f p] by blast
    then show ?thesis using h opens old [of a] by auto
  qed
  show "k = 1 \<and> c < next_addr ?n \<and> conn_pair x = socketFd x \<and> has_handles ?n x \<and>
      buf x \<noteq> Garbage \<and>
      map_of (ConnectionMap ?n) (socketFd x) = Some (Some c) \<and>
      (\<forall>b. buf x = Ptr b \<longrightarrow> cb_arg N (world ?n) b = Some c \<and> bev_fd N (world ?n) b = socketFd x)"
    if "heap ?n c = Some (k, x)" for c k x
  proof (cases "c = ?a")
    case True
    then have "x = conn" "k = 1" using that h by simp_all
    then show ?thesis using True I(5) m h conn I(1) F(3) by (auto simp: Connection_ctor_def)
  next
    case False
    then have c: "heap n c = Some (k, x)" using that h by simp
    then have "socketFd x \<noteq> fd" using H [OF c] none by auto
    then show ?thesis using H [OF c] m h w by auto
  qed
  show "\<exists>k x. heap ?n c = Some (k, x) \<and> buf x = Ptr b" if "cb_arg N (world ?n) b = Some c" for b c
  proof (cases "cb_arg N (world n) b = Some c")
    case True
    then obtain x where "heap n c = Some (1, x)" "buf x = Ptr b" using net_ok_event [OF ok] by blast
    then show ?thesis using h old [of c] by auto
  next
    case False
    then show ?thesis using that I(5) op h by (auto simp: opened_def same_net_def split: if_splits)
  qed
qed

text \<open>Handlers that use the connection they are given and leave the server alone.\<close>

locale conn_handlers =
  fixes N :: "('w, 'b) netlib" and call :: "('w, 'b, 'h, 's) handlers"
  assumes call_keeps: "netlib_documented N \<Longrightarrow> call h c (n, s) = Some (Inr (n', s')) \<Longrightarrow>
    \<exists>w. n' = n\<lparr>world := w\<rparr> \<and> same_net N (world n) w"
begin

lemma run_handle_keeps:
  assumes "netlib_documented N" "run_handle call h c (n, s) = Some (Inr (n', s'))"
  shows "\<exists>w. n' = n\<lparr>world := w\<rparr> \<and> same_net N (world n) w"
proof (cases h)
  case None
  then show ?thesis using assms(2) by (intro exI [of _ "world n"]) (simp add: run_handle_def same_net_def)
next
  case (Some a)
  then show ?thesis using assms call_keeps by (simp add: run_handle_def)
qed

text \<open>What every callback does, as long as its handler returns.\<close>

lemma handler_then_leave:
  assumes "netlib_documented N" "net_ok N n" "heap n c = Some (1, conn0)"
    and "socketFd conn = socketFd conn0" "conn_pair conn = conn_pair conn0" "buf conn = buf conn0"
      "has_handles n conn = has_handles n conn0"
    and "obind (run_handle call h c (borrow c conn n, s)) (leave N (Some c)) = Some (Inr (n', s'))"
  shows "net_ok N n' \<and> handles n' = handles n"
proof -
  obtain n1 s1 where "run_handle call h c (borrow c conn n, s) = Some (Inr (n1, s1))"
    and l: "leave N (Some c) (n1, s1) = Some (Inr (n', s'))"
    using assms(8) by (auto simp: obind_eq_Inr)
  from run_handle_keeps [OF assms(1) this(1)]
  obtain w where "n1 = (borrow c conn n)\<lparr>world := w\<rparr>" "same_net N (world n) w" by (auto simp: borrow_def)
  then show ?thesis using l net_ok_ev_bufs [OF assms(2-7)] by (auto simp: leave_borrow)
qed

lemma read_keeps:
  assumes "netlib_documented N" "net_ok N n" "cb_arg N (world n) b = Some c"
    and "ConnectionReadCallback N call b c (n, s) = Some (Inr (n', s'))"
  shows "net_ok N n' \<and> handles n' = handles n"
proof -
  obtain conn where c: "heap n c = Some (1, conn)" using net_ok_event [OF assms(2,3)] by blast
  show ?thesis using assms(4) unfolding ReadCallback_live [OF assms(2) c]
    by (rule handler_then_leave [OF assms(1,2) c, rotated 4]) (simp_all add: has_handles_def conn_handles_def)
qed

lemma write_keeps:
  assumes "netlib_documented N" "net_ok N n" "cb_arg N (world n) b = Some c"
    and "ConnectionWriteCallback N call b c (n, s) = Some (Inr (n', s'))"
  shows "net_ok N n' \<and> handles n' = handles n"
proof -
  obtain conn where c: "heap n c = Some (1, conn)" using net_ok_event [OF assms(2,3)] by blast
  show ?thesis using assms(4) unfolding WriteCallback_live [OF assms(2) c]
    by (rule handler_then_leave [OF assms(1,2) c, rotated 4]) (simp_all add: has_handles_def conn_handles_def)
qed

lemma drop_keeps:
  assumes "netlib_documented N" "net_ok N n" "heap n c = Some (1, conn)" "buf conn = Ptr b"
    and "obind (drop_conn N call h c (borrow c conn n, s)) (leave N (Some c)) = Some (Inr (n', s'))"
  shows "net_ok N n' \<and> handles n' = handles n"
proof -
  obtain n1 s1 where r: "run_handle call h c (borrow c conn n, s) = Some (Inr (n1, s1))"
    using assms(5) by (auto simp: drop_conn_def obind_eq_Inr)
  from run_handle_keeps [OF assms(1) this]
  obtain w where w: "n1 = (borrow c conn n)\<lparr>world := w\<rparr>" "same_net N (world n) w" by (auto simp: borrow_def)
  have "net_ok N (n\<lparr>world := w\<rparr>)" by (rule net_ok_world [OF assms(2) w(2)])
  then have "net_ok N (without N c conn b (n\<lparr>world := w\<rparr>))" using assms(3,4) by (intro without_ok [OF assms(1)]) simp_all
  then show ?thesis using assms(5) drop_conn_live [OF assms(2-4), of call h s w s1] r w(1) by (auto simp: without_def)
qed

lemma event_keeps:
  assumes "netlib_documented N" "net_ok N n" "cb_arg N (world n) b = Some c"
    and "ConnectionEventCallback N call what c (n, s) = Some (Inr (n', s'))"
  shows "net_ok N n' \<and> handles n' = handles n"
proof -
  obtain conn where c: "heap n c = Some (1, conn)" "buf conn = Ptr b" using net_ok_event [OF assms(2,3)] by blast
  note drop = drop_keeps [OF assms(1,2) c]
  have "leave N (Some c) (borrow c conn n, s) = Some (Inr (n', s')) \<Longrightarrow> net_ok N n' \<and> handles n' = handles n"
    using handler_then_leave [OF assms(1,2) c(1), of conn None s n' s'] by (simp add: run_handle_def)
  then show ?thesis
    using assms(4) conn_of_live [OF assms(2) c(1)] drop [of "closeHandle conn" s n' s'] drop [of "timeoutHandle conn" s n' s']
    by (simp add: ConnectionEventCallback_def deref_def borrow_def split: if_splits)
qed

lemma accept_keeps:
  assumes "netlib_documented N" "net_ok N n" "opened N fd (world n) w"
    and "ListenerCallback N call g fd (n\<lparr>world := w\<rparr>, s) = Some (Inr (n', s'))"
  shows "net_ok N n' \<and> handles n' = handles n"
proof -
  let ?a = "next_addr n"
  obtain ue conn w' where i: "Connection_Init N ?a (accepted g fd n) w = (ue, conn, w')" by (metis prod_cases3)
  have none: "map_of (ConnectionMap (n\<lparr>world := w\<rparr>)) fd = None"
    using net_ok_closed [OF assms(2)] assms(3) by (simp add: opened_def)
  have n: "with_conn fd conn w' (n\<lparr>world := w\<rparr>) = with_conn fd conn w' n" by (simp add: with_conn_def)
  have ok: "net_ok N (with_conn fd conn w' n)" by (rule with_conn_ok [OF assms(1-3) i])
  have "heap (with_conn fd conn w' n) ?a = Some (1, conn)" by (simp add: with_conn_def)
  from handler_then_leave [OF assms(1) ok this refl refl refl refl] show ?thesis
    using assms(4) ListenerCallback_new [OF none, of N g ue conn w' call s] i n by (simp add: with_conn_def)
qed

end

section \<open>Connections that go wrong\<close>

text \<open>
  A connector whose connection is refused was never given a buffer event, so destroying it frees a
  pointer nobody has set.
\<close>

lemma refused_connector_destroyed:
  assumes "sock_socket N (world n) = (fd, w)" "sock_connect N fd ip (ucast port) w = (ECONNREFUSED, w')"
    and "Connectioner_Init g ip port rh wh ch th ac n = (ac', n')"
  shows "\<exists>n''. Connectioner_Run N call ac' (n', s) = Some (Inr (False, ac', n'', s)) \<and>
    Connectioner_dtor N ac' n'' = Inl Uninitialized"
  using assms
  by (auto simp: Connectioner_Init_def make_shared_def Connectioner_Run_def sp_get_def deref_def put_conn_def
      Connectioner_dtor_def CloseConn_def sp_release_def Connection_dtor_def Connection_default_def Let_def
      ECONNREFUSED_def EINPROGRESS_def EINTR_def EISCONN_def)

text \<open>Closing a connector closes the descriptor but leaves its entry in the map.\<close>

lemma CloseConn_keeps_entry:
  assumes "netlib_documented N" "isRunning ac" "ac_conn ac = Some c" "heap n c = Some (k, conn)"
    "map_of (ConnectionMap n) (socketFd conn) = Some p"
  shows "\<exists>n'. CloseConn N ac n = Inr n' \<and> map_of (ConnectionMap n') (socketFd conn) = Some p \<and>
    \<not> fd_open N (world n') (socketFd conn)"
  using assms by (simp add: CloseConn_def sp_get_def deref_def netlib_documented_def del: split_paired_All)

text \<open>
  When the kernel gives that descriptor to the next client, \<open>insert\<close> keeps the old entry, the new connection has no
  owner and is destroyed as soon as it has been set up, which closes the client's descriptor.
\<close>

lemma stale_entry_drops_client:
  assumes "netlib_documented N" "map_of (ConnectionMap n) fd = Some p" "conninit_handle n = None"
    and "heap n (next_addr n) = None" "bufferevent_socket_new N fd (world n) = (Some b, w)"
  shows "\<exists>n'. ListenerCallback N call g fd (n, s) = Some (Inr (n', s)) \<and> heap n' = heap n \<and>
    ConnectionMap n' = ConnectionMap n \<and> \<not> fd_open N (world n') fd"
proof -
  let ?a = "next_addr n"
  obtain ue conn w' where i: "Connection_Init N ?a (accepted g fd n) (world n) = (ue, conn, w')" by (metis prod_cases3)
  have b: "buf conn = Ptr b"
    using i assms(5) by (auto simp: Connection_Init_def Connection_ctor_def Let_def case_prod_beta getPeerConnInfo_def
        split: option.splits)
  then have "bev_fd N w' b = fd" using Connection_Init_result(5) [OF assms(1) i] by (auto simp: Connection_ctor_def)
  then have "\<not> fd_open N (bufferevent_free N b w') fd" using free [OF assms(1)] by auto
  moreover have "(heap n)(?a := None) = heap n" using assms(4) by (simp add: fun_upd_idem)
  ultimately show ?thesis
    using assms(2,3) i b
    by (simp add: ListenerCallback_def make_shared_def map_insert_def deref_def put_conn_def run_handle_def leave_def
        sp_release_def Connection_dtor_def)
qed

end
