(* ===== verification/Key_Format.thy ===== *)
theory Key_Format
  imports Prelude "HOL-Library.Sublist"
begin

text \<open>
  The byte-level formats of \<open>src/db/key_format.hpp\<close> and \<open>src/db/key_format.cpp\<close>:
  fixed-width and varint integers, the padding tables that reserve room for them, the
  decoders of memtable and sstable records, and the common-prefix computation.

  An encoder is modelled by the bytes it stores from \<open>dst\<close> on; the pointer the code
  returns is \<open>dst\<close> plus their number, and a caller stores them with \<open>str_puts\<close>. A
  decoder works on the bytes \<open>m\<close> of an object and positions in it; a null pointer is
  \<open>None\<close>, a read outside the object is \<open>OutOfBounds\<close>.
\<close>

section \<open>Fixed-width integers\<close>

definition formatDecodeFixed32 :: "bytes \<Rightarrow> nat \<Rightarrow> u32 res" where
  "formatDecodeFixed32 m p =
     rbind (rd m p) (\<lambda>b0. rbind (rd m (p + 1)) (\<lambda>b1.
     rbind (rd m (p + 2)) (\<lambda>b2. rbind (rd m (p + 3)) (\<lambda>b3.
       Inr (ucast b0 OR push_bit 8 (ucast b1) OR push_bit 16 (ucast b2)
            OR push_bit 24 (ucast b3))))))"

definition formatDecodeFixed64 :: "bytes \<Rightarrow> nat \<Rightarrow> u64 res" where
  "formatDecodeFixed64 m p =
     rbind (rd m p) (\<lambda>b0. rbind (rd m (p + 1)) (\<lambda>b1.
     rbind (rd m (p + 2)) (\<lambda>b2. rbind (rd m (p + 3)) (\<lambda>b3.
     rbind (rd m (p + 4)) (\<lambda>b4. rbind (rd m (p + 5)) (\<lambda>b5.
     rbind (rd m (p + 6)) (\<lambda>b6. rbind (rd m (p + 7)) (\<lambda>b7.
       Inr (ucast b0 OR push_bit 8 (ucast b1) OR push_bit 16 (ucast b2)
            OR push_bit 24 (ucast b3) OR push_bit 32 (ucast b4) OR push_bit 40 (ucast b5)
            OR push_bit 48 (ucast b6) OR push_bit 56 (ucast b7))))))))))"

definition formatEncodeFixed8 :: "u8 \<Rightarrow> bytes" where
  "formatEncodeFixed8 v = [v]"

definition formatDecodeFixed8 :: "bytes \<Rightarrow> nat \<Rightarrow> u8 res" where
  "formatDecodeFixed8 m p = rd m p"

definition formatEncodeFixed32 :: "u32 \<Rightarrow> bytes" where
  "formatEncodeFixed32 v =
     [ucast v, ucast (drop_bit 8 v), ucast (drop_bit 16 v), ucast (drop_bit 24 v)]"

definition formatEncodeFixed64 :: "u64 \<Rightarrow> bytes" where
  "formatEncodeFixed64 v =
     [ucast v, ucast (drop_bit 8 v), ucast (drop_bit 16 v), ucast (drop_bit 24 v),
      ucast (drop_bit 32 v), ucast (drop_bit 40 v), ucast (drop_bit 48 v),
      ucast (drop_bit 56 v)]"

section \<open>Padding tables\<close>

definition kEmpty1Space :: bytes where "kEmpty1Space = [32]"
definition kEmpty2Space :: bytes where "kEmpty2Space = [32, 32]"
definition kEmpty3Space :: bytes where "kEmpty3Space = [32, 32, 32]"
definition kEmpty4Space :: bytes where "kEmpty4Space = [32, 32, 32, 32]"
definition kEmpty5Space :: bytes where "kEmpty5Space = [32, 32, 32, 32, 32]"
definition kEmpty6Space :: bytes where "kEmpty6Space = [32, 32, 32, 32, 32, 32]"
definition kEmpty7Space :: bytes where "kEmpty7Space = [32, 32, 32, 32, 32, 32, 32]"
definition kEmpty8Space :: bytes where "kEmpty8Space = [32, 32, 32, 32, 32, 32, 32, 32]"
definition kEmpty9Space :: bytes where
  "kEmpty9Space = [32, 32, 32, 32, 32, 32, 32, 32, 32]"

lemmas kEmpty_defs = kEmpty1Space_def kEmpty2Space_def kEmpty3Space_def kEmpty4Space_def
  kEmpty5Space_def kEmpty6Space_def kEmpty7Space_def kEmpty8Space_def kEmpty9Space_def

definition format32_vec :: "bytes list" where
  "format32_vec = [kEmpty1Space, kEmpty1Space, kEmpty2Space, kEmpty3Space, kEmpty4Space,
     kEmpty5Space]"

definition format64_vec :: "bytes list" where
  "format64_vec = [kEmpty1Space, kEmpty1Space, kEmpty2Space, kEmpty3Space, kEmpty4Space,
     kEmpty5Space, kEmpty6Space, kEmpty7Space, kEmpty8Space, kEmpty9Space]"

section \<open>Varints\<close>

function varintLength_loop :: "u64 \<Rightarrow> nat \<Rightarrow> nat" where
  "varintLength_loop v len =
     (if v \<ge> 128 then varintLength_loop (drop_bit 7 v) (len + 1) else len)"
  by pat_completeness auto

definition encodeVarint32 :: "u32 \<Rightarrow> bytes" where
  "encodeVarint32 v =
     (if v < 2 ^ 7 then [ucast v]
      else if v < 2 ^ 14 then [ucast (v OR 128), ucast (drop_bit 7 v)]
      else if v < 2 ^ 21 then
        [ucast (v OR 128), ucast (drop_bit 7 v OR 128), ucast (drop_bit 14 v)]
      else if v < 2 ^ 28 then
        [ucast (v OR 128), ucast (drop_bit 7 v OR 128), ucast (drop_bit 14 v OR 128),
         ucast (drop_bit 21 v)]
      else
        [ucast (v OR 128), ucast (drop_bit 7 v OR 128), ucast (drop_bit 14 v OR 128),
         ucast (drop_bit 21 v OR 128), ucast (drop_bit 28 v)])"

function encodeVarint64 :: "u64 \<Rightarrow> bytes" where
  "encodeVarint64 v =
     (if v \<ge> 128 then ucast (v OR 128) # encodeVarint64 (drop_bit 7 v) else [ucast v])"
  by pat_completeness auto

text \<open>Shifting a word of at least 128 right by seven makes it smaller.\<close>

lemma unat_drop_bit: "unat (drop_bit k v) = unat v div 2 ^ k"
  unfolding unat_drop_bit_eq by (simp add: drop_bit_eq_div)

lemma unat_drop_bit_7: "unat (drop_bit 7 v) = unat v div 128"
  by (simp add: unat_drop_bit)

lemma drop_bit_7_less:
  fixes v :: "'a::len word"
  assumes "128 \<le> unat v"
  shows "unat (drop_bit 7 v) < unat v"
  using assms by (simp add: unat_drop_bit_7)

lemma ge_128_unat: "(128 :: u64) \<le> v \<longleftrightarrow> 128 \<le> unat v"
  by (simp add: word_le_nat_alt)

termination varintLength_loop
  by (relation "measure (\<lambda>(v, _). unat v)") (auto simp: ge_128_unat intro: drop_bit_7_less)

termination encodeVarint64
  by (relation "measure unat") (auto simp: ge_128_unat intro: drop_bit_7_less)

declare varintLength_loop.simps [simp del] encodeVarint64.simps [simp del]

definition varintLength :: "u64 \<Rightarrow> nat" where
  "varintLength v = varintLength_loop v 1"

text \<open>\<open>size_t\<close> arguments of the encoders.\<close>

abbreviation size32 :: "bytes \<Rightarrow> u32" where "size32 s \<equiv> of_nat (length s)"
abbreviation size64 :: "bytes \<Rightarrow> u64" where "size64 s \<equiv> of_nat (length s)"

function getVarint32PtrFallback_loop ::
  "bytes \<Rightarrow> nat \<Rightarrow> nat \<Rightarrow> nat \<Rightarrow> u32 \<Rightarrow> (u32 \<times> nat) option res" where
  "getVarint32PtrFallback_loop m p limit shift result =
     (if shift \<le> 28 \<and> p < limit then
        rbind (rd m p) (\<lambda>c. let byte = ucast c :: u32 in
          if byte AND 128 \<noteq> 0 then
            getVarint32PtrFallback_loop m (p + 1) limit (shift + 7)
              (result OR push_bit shift (byte AND 127))
          else Inr (Some (result OR push_bit shift byte, p + 1)))
      else Inr None)"
  by pat_completeness auto
termination
  by (relation "measure (\<lambda>(_, _, _, shift, _). 35 - shift)") auto

definition getVarint32PtrFallback :: "bytes \<Rightarrow> nat \<Rightarrow> nat \<Rightarrow> (u32 \<times> nat) option res" where
  "getVarint32PtrFallback m p limit = getVarint32PtrFallback_loop m p limit 0 0"

definition getVarint32Ptr :: "bytes \<Rightarrow> nat \<Rightarrow> nat \<Rightarrow> (u32 \<times> nat) option res" where
  "getVarint32Ptr m p limit =
     (if p < limit then
        rbind (rd m p) (\<lambda>c. let result = ucast c :: u32 in
          if result AND 128 = 0 then Inr (Some (result, p + 1))
          else getVarint32PtrFallback m p limit)
      else getVarint32PtrFallback m p limit)"

function getVarint64Ptr_loop ::
  "bytes \<Rightarrow> nat \<Rightarrow> nat \<Rightarrow> nat \<Rightarrow> u64 \<Rightarrow> (u64 \<times> nat) option res" where
  "getVarint64Ptr_loop m p limit shift result =
     (if shift \<le> 63 \<and> p < limit then
        rbind (rd m p) (\<lambda>c. let byte = ucast c :: u64 in
          if byte AND 128 \<noteq> 0 then
            getVarint64Ptr_loop m (p + 1) limit (shift + 7)
              (result OR push_bit shift (byte AND 127))
          else Inr (Some (result OR push_bit shift byte, p + 1)))
      else Inr None)"
  by pat_completeness auto
termination
  by (relation "measure (\<lambda>(_, _, _, shift, _). 70 - shift)") auto

declare getVarint32PtrFallback_loop.simps [simp del] getVarint64Ptr_loop.simps [simp del]

definition getVarint64Ptr :: "bytes \<Rightarrow> nat \<Rightarrow> nat \<Rightarrow> (u64 \<times> nat) option res" where
  "getVarint64Ptr m p limit = getVarint64Ptr_loop m p limit 0 0"

text \<open>
  \<open>decodeVarint32\<close> and \<open>decodeVarint64\<close> return false and leave the string alone
  (\<open>None\<close>), or return true with the value and the string cut down to what follows it.
\<close>

definition decodeVarint32 :: "bytes \<Rightarrow> (u32 \<times> bytes) option res" where
  "decodeVarint32 input =
     rbind (getVarint32Ptr input 0 (length input)) (\<lambda>q.
       Inr (map_option (\<lambda>(v, q). (v, drop q input)) q))"

definition decodeVarint64 :: "bytes \<Rightarrow> (u64 \<times> bytes) option res" where
  "decodeVarint64 input =
     rbind (getVarint64Ptr input 0 (length input)) (\<lambda>q.
       Inr (map_option (\<lambda>(v, q). (v, drop q input)) q))"

section \<open>Records\<close>

record SSTableKeyValueStyle =
  kv_key :: bytes
  kv_value :: bytes
  kv_isExist :: bool

text \<open>
  \<open>getMemTableViewKeyView\<close> and \<open>getMemTableViewKeyViewIter\<close> have the same body; the
  argument is the string view an iterator of a \<open>MemBTreeView\<close> points to.
\<close>

definition getMemTableViewKeyView :: "bytes \<Rightarrow> bytes res" where
  "getMemTableViewKeyView m =
     rbind (getVarint32Ptr m 0 5) (\<lambda>r. case r of
       None \<Rightarrow> Inl AssertFail
     | Some (key_size, end_ptr) \<Rightarrow> view m end_ptr (unat key_size))"

text \<open>
  The part the two record decoders share: sequence number, value type and value, from the
  end of the key on. A null pointer returned by a decoder is dereferenced by the next step.
\<close>

definition format_value_part :: "bytes \<Rightarrow> bytes \<Rightarrow> nat \<Rightarrow> SSTableKeyValueStyle res" where
  "format_value_part m key p =
     rbind (getVarint64Ptr m p (p + 9)) (\<lambda>r. case r of
       None \<Rightarrow> Inl NullDeref
     | Some (number_value, q) \<Rightarrow>
         rbind (formatDecodeFixed8 m q) (\<lambda>t.
         rbind (getVarint32Ptr m (q + 1) (q + 6)) (\<lambda>r. case r of
           None \<Rightarrow> Inl NullDeref
         | Some (value_size, e) \<Rightarrow>
             rbind (view m e (unat value_size)) (\<lambda>v.
               Inr \<lparr>kv_key = key, kv_value = v, kv_isExist = (t \<noteq> 0)\<rparr>))))"

definition formatMemTableToSSTable :: "bytes \<Rightarrow> SSTableKeyValueStyle res" where
  "formatMemTableToSSTable str =
     (let m = c_str str in
      rbind (getVarint32Ptr m 0 5) (\<lambda>r. case r of
        None \<Rightarrow> Inl NullDeref
      | Some (key_size, key_end) \<Rightarrow>
          rbind (view m key_end (unat key_size)) (\<lambda>key.
            format_value_part m key (key_end + unat key_size))))"

text \<open>
  The string variant returns early for a record that ends with its key: it exists no more
  and has no value.
\<close>

definition formatMemTableToSSTableStr :: "bytes \<Rightarrow> SSTableKeyValueStyle res" where
  "formatMemTableToSSTableStr str =
     (let m = c_str str in
      rbind (getVarint32Ptr m 0 5) (\<lambda>r. case r of
        None \<Rightarrow> Inl NullDeref
      | Some (key_size, key_end) \<Rightarrow>
          rbind (view m key_end (unat key_size)) (\<lambda>key.
            if key_end + unat key_size = length str
            then Inr \<lparr>kv_key = key, kv_value = [], kv_isExist = False\<rparr>
            else format_value_part m key (key_end + unat key_size))))"

section \<open>Common prefixes\<close>

record Format16PrefixResult =
  pr_key :: bytes
  pr_value :: bytes

text \<open>
  The inner loop compares column \<open>i\<close> of neighbouring rows from row \<open>j\<close> on and stops at
  the first difference or at the last row.
\<close>

function prefix_inner :: "bytes list \<Rightarrow> nat \<Rightarrow> nat \<Rightarrow> nat" where
  "prefix_inner ks i j =
     (if j < length ks - 1 then
        (if ks ! j ! i \<noteq> ks ! (j + 1) ! i then j else prefix_inner ks i (j + 1))
      else j)"
  by pat_completeness auto
termination
  by (relation "measure (\<lambda>(ks, i, j). length ks - j)") auto

function prefix_outer :: "bytes list \<Rightarrow> nat \<Rightarrow> nat \<Rightarrow> nat" where
  "prefix_outer ks n i =
     (if i < n then
        (if prefix_inner ks i 0 \<noteq> length ks - 1 then i else prefix_outer ks n (i + 1))
      else i)"
  by pat_completeness auto
termination
  by (relation "measure (\<lambda>(ks, n, i). n - i)") auto

declare prefix_inner.simps [simp del] prefix_outer.simps [simp del]

text \<open>
  \<open>min_size\<close> is the loop with \<open>std::min\<close> over all rows, started at the first row's size;
  sizes fit in \<open>int\<close>. The result stays empty when no column agrees.
\<close>

definition min_size :: "bytes list \<Rightarrow> nat" where
  "min_size ks = foldl (\<lambda>a k. min (length k) a) (length (hd ks)) ks"

definition common_view :: "bytes list \<Rightarrow> bytes" where
  "common_view ks = take (prefix_outer ks (min_size ks) 0) (hd ks)"

definition Format16PrefixStr :: "SSTableKeyValueStyle list \<Rightarrow> Format16PrefixResult res" where
  "Format16PrefixStr sstable_vec =
     (if sstable_vec = [] then Inl OutOfBounds
      else Inr \<lparr>pr_key = common_view (map kv_key sstable_vec),
                pr_value = common_view (map kv_value sstable_vec)\<rparr>)"

section \<open>Fixed-width round trips\<close>

lemma length_formatEncodeFixed [simp]:
  "length (formatEncodeFixed8 b) = 1"
  "length (formatEncodeFixed32 v) = 4"
  "length (formatEncodeFixed64 w) = 8"
  by (simp_all add: formatEncodeFixed8_def formatEncodeFixed32_def formatEncodeFixed64_def)

text \<open>A word is put together again from its bytes, from the most significant one down.\<close>

lemma ucast_byte: "(ucast (ucast x :: u8) :: 'a::len word) = take_bit 8 (x :: 'a word)"
  by (rule bit_word_eqI) (auto simp: bit_simps)

lemma byte_step:
  fixes v :: "'a::len word"
  assumes "t = s + 8"
  shows "push_bit s (take_bit 8 (drop_bit s v)) OR push_bit t (drop_bit t v)
    = push_bit s (drop_bit s v)"
  using push_bit_take_drop [of s 8 "drop_bit s v"] assms by (simp add: add.commute)

lemma top_byte:
  fixes v :: "'a::len word"
  assumes "LENGTH('a) = s + 8"
  shows "push_bit s (take_bit 8 (drop_bit s v)) = push_bit s (drop_bit s v)"
  by (rule bit_word_eqI) (use assms in \<open>auto simp: bit_simps\<close>)

lemma first_byte:
  fixes v :: "'a::len word"
  shows "take_bit 8 v OR push_bit 8 (drop_bit 8 v) = v"
  using push_bit_take_drop [of 0 8 v] by simp

lemma decode_encode_fixed32 [codec]:
  assumes "p = length pre"
  shows "formatDecodeFixed32 (pre @ formatEncodeFixed32 v @ post) p = Inr v"
proof -
  have "take_bit 8 v OR push_bit 8 (take_bit 8 (drop_bit 8 v))
      OR push_bit 16 (take_bit 8 (drop_bit 16 v)) OR push_bit 24 (take_bit 8 (drop_bit 24 v)) = v"
    by (simp only: top_byte [of 24 v, simplified] byte_step [of 24 16 v, simplified]
        byte_step [of 16 8 v, simplified] first_byte)
  then show ?thesis
    using assms by (simp add: formatDecodeFixed32_def formatEncodeFixed32_def nth_append ucast_byte)
qed

lemma decode_encode_fixed64 [codec]:
  assumes "p = length pre"
  shows "formatDecodeFixed64 (pre @ formatEncodeFixed64 v @ post) p = Inr v"
proof -
  have "take_bit 8 v OR push_bit 8 (take_bit 8 (drop_bit 8 v))
      OR push_bit 16 (take_bit 8 (drop_bit 16 v)) OR push_bit 24 (take_bit 8 (drop_bit 24 v))
      OR push_bit 32 (take_bit 8 (drop_bit 32 v)) OR push_bit 40 (take_bit 8 (drop_bit 40 v))
      OR push_bit 48 (take_bit 8 (drop_bit 48 v)) OR push_bit 56 (take_bit 8 (drop_bit 56 v)) = v"
    by (simp only: top_byte [of 56 v, simplified] byte_step [of 56 48 v, simplified]
        byte_step [of 48 40 v, simplified] byte_step [of 40 32 v, simplified]
        byte_step [of 32 24 v, simplified] byte_step [of 24 16 v, simplified]
        byte_step [of 16 8 v, simplified] first_byte)
  then show ?thesis
    using assms by (simp add: formatDecodeFixed64_def formatEncodeFixed64_def nth_append ucast_byte)
qed

section \<open>Varints against the LEB128 reference\<close>

text \<open>The reference: seven bits per byte, least significant group first, on unbounded numbers.\<close>

fun leb :: "nat \<Rightarrow> bytes" where
  "leb n = (if n < 128 then [of_nat n] else of_nat (n mod 128 + 128) # leb (n div 128))"

declare leb.simps [simp del]

lemma leb_small [simp]: "n < 128 \<Longrightarrow> leb n = [of_nat n]"
  by (simp add: leb.simps [of n])

lemma leb_big: "128 \<le> n \<Longrightarrow> leb n = of_nat (n mod 128 + 128) # leb (n div 128)"
  by (simp add: leb.simps [of n])

lemma leb_nonempty [simp]: "leb n \<noteq> []"
  by (subst leb.simps) simp

lemma leb_length_pos [simp]: "0 < length (leb n)"
  by simp

lemma leb_length_le:
  assumes "0 < k"
  shows "length (leb n) \<le> k \<longleftrightarrow> n < 128 ^ k"
  using assms
proof (induction k arbitrary: n)
  case 0
  then show ?case by simp
next
  case (Suc k)
  show ?case
  proof (cases "n < 128")
    case True
    have "(128::nat) \<le> 128 ^ Suc k" by simp
    then have "n < 128 ^ Suc k" using True by (meson less_le_trans)
    then show ?thesis using True by simp
  next
    case False
    then have eq: "length (leb n) = Suc (length (leb (n div 128)))"
      by (simp add: leb_big)
    show ?thesis
    proof (cases "k = 0")
      case True
      then show ?thesis using False eq by simp
    next
      case False
      then have "length (leb (n div 128)) \<le> k \<longleftrightarrow> n div 128 < 128 ^ k"
        using Suc.IH by simp
      then show ?thesis using eq by (simp add: div_less_iff_less_mult mult.commute)
    qed
  qed
qed

subsection \<open>Groups of seven bits in words\<close>

lemma bit_128: "bit (128 :: nat) i \<longleftrightarrow> i = 7"
  using bit_exp_iff [of 7 i, where 'a = nat] by auto

lemma bit_128_word:
  assumes "8 \<le> LENGTH('a::len)"
  shows "bit (128 :: 'a word) i \<longleftrightarrow> i = 7"
  using assms bit_exp_iff [of 7 i, where 'a = "'a word"] by auto

lemma bit_mod_128: "bit (n mod 128 :: nat) i \<longleftrightarrow> i < 7 \<and> bit n i"
  using bit_take_bit_iff [of 7 n i] by (simp add: take_bit_eq_mod)

lemma add_128_or: "n mod 128 + 128 = (n mod 128) OR (128 :: nat)"
  by (rule disjunctive_add) (auto simp: bit_128 bit_mod_128)

lemma of_nat_or_128:
  fixes v :: "'a::len word"
  assumes "8 \<le> LENGTH('a)"
  shows "(ucast (v OR 128) :: u8) = of_nat (unat v mod 128 + 128)"
  unfolding add_128_or
proof (rule bit_word_eqI)
  fix i
  assume "i < LENGTH(8)"
  then show "bit (ucast (v OR 128) :: u8) i = bit (of_nat (unat v mod 128 OR 128) :: u8) i"
    using assms bit_128_word [OF assms, of i] bit_128_word [where 'a = 8, of i]
    by (auto simp: bit_simps bit_128 bit_mod_128 bit_word_of_nat_iff)
qed

lemma ucast_of_nat_byte:
  assumes "n < 256" and "8 \<le> LENGTH('a::len)"
  shows "(ucast (of_nat n :: u8) :: 'a word) = of_nat n"
proof -
  have "take_bit 8 n = n" using assms by (simp add: take_bit_nat_eq_self_iff)
  then show ?thesis
    by (simp add: unsigned_ucast_eq unsigned_of_nat ucast_eq)
qed

lemma cont_byte:
  assumes "8 \<le> LENGTH('a::len)"
  shows "(ucast (of_nat (n mod 128 + 128) :: u8) :: 'a word) AND 128 \<noteq> 0"
    and "(ucast (of_nat (n mod 128 + 128) :: u8) :: 'a word) AND 127 = of_nat (n mod 128)"
proof -
  let ?w = "of_nat (n mod 128 + 128) :: 'a word"
  have lt: "n mod 128 + 128 < 256" by (simp add: Suc_le_lessD)
  have w: "(ucast (of_nat (n mod 128 + 128) :: u8) :: 'a word) = ?w"
    using lt assms by (rule ucast_of_nat_byte)
  have "bit ?w 7"
    using assms by (simp only: add_128_or bit_word_of_nat_iff bit_or_iff bit_128) simp
  then have "bit (?w AND 128) 7"
    using bit_128_word [OF assms, of 7] by (simp only: bit_and_iff)
  then have "?w AND 128 \<noteq> 0" by auto
  then show "(ucast (of_nat (n mod 128 + 128) :: u8) :: 'a word) AND 128 \<noteq> 0"
    unfolding w .
  have "?w AND 127 = of_nat (n mod 128)"
    using take_bit_eq_mask [of 7 ?w] take_bit_of_nat [of 7 "n mod 128 + 128", where 'a = "'a word"]
    by (simp add: take_bit_eq_mod mask_eq_exp_minus_1)
  then show "(ucast (of_nat (n mod 128 + 128) :: u8) :: 'a word) AND 127 = of_nat (n mod 128)"
    unfolding w .
qed

lemma last_byte:
  assumes "8 \<le> LENGTH('a::len)" and "n < 128"
  shows "(ucast (of_nat n :: u8) :: 'a word) AND 128 = 0"
    and "(ucast (of_nat n :: u8) :: 'a word) = of_nat n"
proof -
  show w: "(ucast (of_nat n :: u8) :: 'a word) = of_nat n"
    using assms by (intro ucast_of_nat_byte) auto
  have "\<not> bit n 7" using assms bit_mod_128 [of n 7] by simp
  then show "(ucast (of_nat n :: u8) :: 'a word) AND 128 = 0"
    unfolding w
  proof (intro bit_word_eqI)
    fix i
    show "bit ((of_nat n :: 'a word) AND 128) i = bit (0 :: 'a word) i"
      using \<open>\<not> bit n 7\<close> bit_128_word [OF assms(1), of i]
      by (simp only: bit_and_iff bit_word_of_nat_iff) auto
  qed
qed

lemma push_bit_leb_step:
  "push_bit s (of_nat (n mod 128)) OR push_bit (s + 7) (of_nat (n div 128))
    = (push_bit s (of_nat n) :: 'a::len word)"
proof (rule bit_word_eqI)
  fix i
  assume "i < LENGTH('a)"
  moreover have "bit (n div 128) (i - (s + 7)) \<longleftrightarrow> bit n (i - s)" if "s + 7 \<le> i"
    using that bit_drop_bit_eq [of 7 n] by (simp add: drop_bit_eq_div fun_eq_iff)
  ultimately show "bit (push_bit s (of_nat (n mod 128)) OR push_bit (s + 7) (of_nat (n div 128)) :: 'a word) i
      = bit (push_bit s (of_nat n) :: 'a word) i"
    by (cases "i < s + 7")
      (auto simp: bit_or_iff bit_push_bit_iff bit_word_of_nat_iff bit_mod_128)
qed

subsection \<open>The encoders and \<open>varintLength\<close> compute the reference\<close>

lemma encodeVarint64_leb [codec]: "encodeVarint64 v = leb (unat v)"
proof (induction v rule: encodeVarint64.induct)
  case (1 v)
  show ?case
  proof (cases "v \<ge> 128")
    case True
    then have "encodeVarint64 v = ucast (v OR 128) # leb (unat (drop_bit 7 v))"
      using 1 by (simp add: encodeVarint64.simps [of v])
    moreover have "leb (unat v) = ucast (v OR 128) # leb (unat (drop_bit 7 v))"
      unfolding unat_drop_bit_7 of_nat_or_128 [of v, simplified]
      using True leb_big [of "unat v"] by (simp add: ge_128_unat)
    ultimately show ?thesis by simp
  next
    case False
    then have "unat v < 128" by (simp add: ge_128_unat)
    then show ?thesis
      using False by (simp add: encodeVarint64.simps [of v])
  qed
qed

lemma encodeVarint32_leb [codec]: "encodeVarint32 v = leb (unat v)"
proof -
  let ?n = "unat v"
  have u: "unat (drop_bit k v) = ?n div 2 ^ k" for k
    by (rule unat_drop_bit)
  have c: "(ucast (drop_bit k v OR 128) :: u8) = of_nat (?n div 2 ^ k mod 128 + 128)" for k
    using of_nat_or_128 [of "drop_bit k v"] u [of k] by simp
  have c0: "(ucast (v OR 128) :: u8) = of_nat (?n mod 128 + 128)"
    using c [of 0] by simp
  have l: "(ucast (drop_bit k v) :: u8) = of_nat (?n div 2 ^ k)" for k
    using u [of k] by (metis of_nat_unat)
  have l0: "(ucast v :: u8) = of_nat ?n"
    using l [of 0] by simp
  have lt: "v < 2 ^ 7 \<longleftrightarrow> ?n < 128" "v < 2 ^ 14 \<longleftrightarrow> ?n < 16384"
    "v < 2 ^ 21 \<longleftrightarrow> ?n < 2097152" "v < 2 ^ 28 \<longleftrightarrow> ?n < 268435456"
    by (simp_all add: word_less_nat_alt)
  have mx: "?n < 4294967296"
    using unsigned_less [of v] by simp
  have e: "encodeVarint32 v =
     (if ?n < 128 then [of_nat ?n]
      else if ?n < 16384 then [of_nat (?n mod 128 + 128), of_nat (?n div 128)]
      else if ?n < 2097152 then
        [of_nat (?n mod 128 + 128), of_nat (?n div 128 mod 128 + 128), of_nat (?n div 16384)]
      else if ?n < 268435456 then
        [of_nat (?n mod 128 + 128), of_nat (?n div 128 mod 128 + 128),
         of_nat (?n div 16384 mod 128 + 128), of_nat (?n div 2097152)]
      else
        [of_nat (?n mod 128 + 128), of_nat (?n div 128 mod 128 + 128),
         of_nat (?n div 16384 mod 128 + 128), of_nat (?n div 2097152 mod 128 + 128),
         of_nat (?n div 268435456)])"
    unfolding encodeVarint32_def lt c0 c l0 l by simp
  have d: "?n div 128 div 128 = ?n div 16384" "?n div 16384 div 128 = ?n div 2097152"
    "?n div 2097152 div 128 = ?n div 268435456"
    by (simp_all add: div_mult2_eq [symmetric])
  show ?thesis
    unfolding e using mx
    by (simp add: leb.simps [of ?n] leb.simps [of "?n div 128"] leb.simps [of "?n div 16384"]
        leb.simps [of "?n div 2097152"] leb.simps [of "?n div 268435456"] d
        div_less_iff_less_mult del: of_nat_add)
qed

lemma varintLength_loop_leb: "varintLength_loop v len + 1 = len + length (leb (unat v))"
proof (induction v len rule: varintLength_loop.induct)
  case (1 v len)
  show ?case
  proof (cases "v \<ge> 128")
    case True
    then have "varintLength_loop v len + 1 = len + 1 + length (leb (unat (drop_bit 7 v)))"
      using 1 by (simp add: varintLength_loop.simps [of v])
    moreover have "length (leb (unat v)) = Suc (length (leb (unat (drop_bit 7 v))))"
      unfolding unat_drop_bit_7 using True leb_big [of "unat v"] by (simp add: ge_128_unat)
    ultimately show ?thesis by simp
  next
    case False
    then have "unat v < 128" by (simp add: ge_128_unat)
    then show ?thesis using False by (simp add: varintLength_loop.simps [of v])
  qed
qed

lemma varintLength_leb [codec]: "varintLength v = length (leb (unat v))"
  using varintLength_loop_leb [of v 1] by (simp add: varintLength_def)

subsection \<open>The decoders invert them\<close>

text \<open>
  One lemma per loop: started in front of \<open>leb n\<close> with enough shift steps and window left,
  it returns the accumulated value and the position behind the encoding.
\<close>

lemma getVarint64Ptr_loop_leb:
  assumes "shift + 7 * length (leb n) \<le> 70"
    and "p = length pre" and "p + length (leb n) \<le> limit"
  shows "getVarint64Ptr_loop (pre @ leb n @ post) p limit shift r
    = Inr (Some (r OR push_bit shift (of_nat n), p + length (leb n)))"
  using assms
proof (induction n arbitrary: pre p shift r rule: leb.induct)
  case (1 n)
  show ?case
  proof (cases "n < 128")
    case True
    with "1.prems" last_byte [where 'a = 64, OF _ True] show ?thesis
      by (simp add: getVarint64Ptr_loop.simps [of _ "length pre"] nth_append)
  next
    case False
    let ?b = "of_nat (n mod 128 + 128) :: u8"
    have lb: "leb n = ?b # leb (n div 128)"
      using False by (simp add: leb_big)
    have "getVarint64Ptr_loop ((pre @ [?b]) @ leb (n div 128) @ post) (p + 1) limit (shift + 7)
          (r OR push_bit shift (of_nat (n mod 128)))
        = Inr (Some (r OR push_bit shift (of_nat (n mod 128)) OR push_bit (shift + 7) (of_nat (n div 128)),
               p + 1 + length (leb (n div 128))))"
      using "1.prems" lb False by (subst "1.IH") (auto simp: or.assoc)
    then show ?thesis
      using "1.prems" cont_byte [where 'a = 64, of n] lb leb_length_pos [of "n div 128"]
      by (simp add: getVarint64Ptr_loop.simps [of _ "length pre"] nth_append or.assoc push_bit_leb_step
          del: leb_length_pos length_greater_0_conv of_nat_add)
  qed
qed

lemma getVarint32PtrFallback_loop_leb:
  assumes "shift + 7 * length (leb n) \<le> 35"
    and "p = length pre" and "p + length (leb n) \<le> limit"
  shows "getVarint32PtrFallback_loop (pre @ leb n @ post) p limit shift r
    = Inr (Some (r OR push_bit shift (of_nat n), p + length (leb n)))"
  using assms
proof (induction n arbitrary: pre p shift r rule: leb.induct)
  case (1 n)
  show ?case
  proof (cases "n < 128")
    case True
    with "1.prems" last_byte [where 'a = 32, OF _ True] show ?thesis
      by (simp add: getVarint32PtrFallback_loop.simps [of _ "length pre"] nth_append)
  next
    case False
    let ?b = "of_nat (n mod 128 + 128) :: u8"
    have lb: "leb n = ?b # leb (n div 128)"
      using False by (simp add: leb_big)
    have "getVarint32PtrFallback_loop ((pre @ [?b]) @ leb (n div 128) @ post) (p + 1) limit (shift + 7)
          (r OR push_bit shift (of_nat (n mod 128)))
        = Inr (Some (r OR push_bit shift (of_nat (n mod 128)) OR push_bit (shift + 7) (of_nat (n div 128)),
               p + 1 + length (leb (n div 128))))"
      using "1.prems" lb False by (subst "1.IH") (auto simp: or.assoc)
    then show ?thesis
      using "1.prems" cont_byte [where 'a = 32, of n] lb leb_length_pos [of "n div 128"]
      by (simp add: getVarint32PtrFallback_loop.simps [of _ "length pre"] nth_append or.assoc push_bit_leb_step
          del: leb_length_pos length_greater_0_conv of_nat_add)
  qed
qed

text \<open>The one-byte fast path of \<open>getVarint32Ptr\<close> agrees with the loop.\<close>

lemma getVarint32Ptr_fallback: "getVarint32Ptr m p limit = getVarint32PtrFallback m p limit"
  by (cases "p < length m")
    (auto simp: getVarint32Ptr_def getVarint32PtrFallback_def Let_def
      getVarint32PtrFallback_loop.simps [of m p])

lemma getVarint32Ptr_leb [codec]:
  assumes "p = length pre" and "p + length (leb n) \<le> limit" and "n < 2 ^ 32"
  shows "getVarint32Ptr (pre @ leb n @ post) p limit = Inr (Some (of_nat n, p + length (leb n)))"
proof -
  have "length (leb n) \<le> 5"
    using assms(3) leb_length_le [of 5 n] by simp
  then show ?thesis
    using assms
    by (simp add: getVarint32Ptr_fallback getVarint32PtrFallback_def getVarint32PtrFallback_loop_leb)
qed

lemma getVarint64Ptr_leb [codec]:
  assumes "p = length pre" and "p + length (leb n) \<le> limit" and "n < 2 ^ 64"
  shows "getVarint64Ptr (pre @ leb n @ post) p limit = Inr (Some (of_nat n, p + length (leb n)))"
proof -
  have "length (leb n) \<le> 10"
    using assms(3) leb_length_le [of 10 n] by simp
  then show ?thesis
    using assms by (simp add: getVarint64Ptr_def getVarint64Ptr_loop_leb)
qed

text \<open>With fewer bytes in the window than the encoding has, the loop gives up.\<close>

lemma getVarint64Ptr_loop_short:
  assumes "p = length pre" and "limit < p + length (leb n)"
  shows "getVarint64Ptr_loop (pre @ leb n @ post) p limit shift r = Inr None"
  using assms
proof (induction n arbitrary: pre p shift r rule: leb.induct)
  case (1 n)
  show ?case
  proof (cases "p < limit \<and> shift \<le> 63")
    case True
    with "1.prems" have big: "\<not> n < 128" by (cases "n < 128") auto
    let ?b = "of_nat (n mod 128 + 128) :: u8"
    have lb: "leb n = ?b # leb (n div 128)" using big by (simp add: leb_big)
    have "getVarint64Ptr_loop ((pre @ [?b]) @ leb (n div 128) @ post) (p + 1) limit (shift + 7)
          (r OR push_bit shift (of_nat (n mod 128))) = Inr None"
      using "1.prems" lb big by (intro "1.IH") auto
    then show ?thesis
      using True "1.prems" cont_byte [where 'a = 64, of n] lb
      by (simp add: getVarint64Ptr_loop.simps [of _ "length pre"] nth_append del: of_nat_add)
  next
    case False
    then show ?thesis by (auto simp: getVarint64Ptr_loop.simps [of _ p])
  qed
qed

lemma leb_unat_32: "length (leb (unat (v :: u32))) \<le> 5"
  using leb_length_le [of 5 "unat v"] unat_u32_less [of v] by simp

lemma leb_unat_64: "length (leb (unat (v :: u64))) \<le> 10"
  using leb_length_le [of 10 "unat v"] unat_u64_less [of v] by simp

lemma leb_unat_64_9: "length (leb (unat (v :: u64))) \<le> 9 \<longleftrightarrow> v < 2 ^ 63"
  using leb_length_le [of 9 "unat v"] by (simp add: word_less_nat_alt)

lemma getVarint32Ptr_encode [codec]:
  assumes "p = length pre" and "p + 5 \<le> limit"
  shows "getVarint32Ptr (pre @ encodeVarint32 v @ post) p limit
    = Inr (Some (v, p + length (encodeVarint32 v)))"
  using assms leb_unat_32 [of v] unat_u32_less [of v]
  by (simp add: encodeVarint32_leb getVarint32Ptr_leb)

lemma getVarint64Ptr_encode [codec]:
  assumes "p = length pre" and "p + length (encodeVarint64 v) \<le> limit"
  shows "getVarint64Ptr (pre @ encodeVarint64 v @ post) p limit
    = Inr (Some (v, p + length (encodeVarint64 v)))"
  using assms unat_u64_less [of v]
  by (simp add: encodeVarint64_leb getVarint64Ptr_leb)

lemma getVarint64Ptr_encode_short:
  assumes "p = length pre" and "limit < p + length (encodeVarint64 v)"
  shows "getVarint64Ptr (pre @ encodeVarint64 v @ post) p limit = Inr None"
  using assms by (simp add: encodeVarint64_leb getVarint64Ptr_def getVarint64Ptr_loop_short)

subsection \<open>The decoders stay inside their window\<close>

lemma getVarint64Ptr_loop_bounds:
  assumes "limit \<le> length m"
  shows "\<exists>r. getVarint64Ptr_loop m p limit shift acc = Inr r \<and>
    (\<forall>v q. r = Some (v, q) \<longrightarrow> p < q \<and> q \<le> limit \<and> 7 * (q - p) + shift \<le> 70)"
  using assms
proof (induction m p limit shift acc rule: getVarint64Ptr_loop.induct)
  case (1 m p limit shift acc)
  show ?case
  proof (cases "shift \<le> 63 \<and> p < limit")
    case True
    then show ?thesis
      using 1 by (cases "(ucast (m ! p) :: u64) AND 128 \<noteq> 0")
        (fastforce simp: getVarint64Ptr_loop.simps [of m p] Let_def)+
  next
    case False
    then show ?thesis by (auto simp: getVarint64Ptr_loop.simps [of m p])
  qed
qed

lemma getVarint32PtrFallback_loop_bounds:
  assumes "limit \<le> length m"
  shows "\<exists>r. getVarint32PtrFallback_loop m p limit shift acc = Inr r \<and>
    (\<forall>v q. r = Some (v, q) \<longrightarrow> p < q \<and> q \<le> limit \<and> 7 * (q - p) + shift \<le> 35)"
  using assms
proof (induction m p limit shift acc rule: getVarint32PtrFallback_loop.induct)
  case (1 m p limit shift acc)
  show ?case
  proof (cases "shift \<le> 28 \<and> p < limit")
    case True
    then show ?thesis
      using 1 by (cases "(ucast (m ! p) :: u32) AND 128 \<noteq> 0")
        (fastforce simp: getVarint32PtrFallback_loop.simps [of m p] Let_def)+
  next
    case False
    then show ?thesis by (auto simp: getVarint32PtrFallback_loop.simps [of m p])
  qed
qed

section \<open>Common prefixes\<close>

definition agree_at :: "bytes list \<Rightarrow> nat \<Rightarrow> bool" where
  "agree_at ks i \<longleftrightarrow> (\<forall>k \<in> set ks. k ! i = hd ks ! i)"

lemma neighbours_agree:
  "(\<forall>j < length ks - 1. ks ! j ! i = ks ! (j + 1) ! i) \<longleftrightarrow> agree_at ks i"
proof (induction ks)
  case Nil
  then show ?case by (simp add: agree_at_def)
next
  case (Cons k ks)
  note IH = Cons.IH
  show ?case
  proof (cases ks)
    case Nil
    then show ?thesis by (simp add: agree_at_def)
  next
    case ks: (Cons k' ks')
    have "(\<forall>j < length (k # ks) - 1. (k # ks) ! j ! i = (k # ks) ! (j + 1) ! i)
        \<longleftrightarrow> k ! i = k' ! i \<and> (\<forall>j < length ks - 1. ks ! j ! i = ks ! (j + 1) ! i)"
      using ks by (auto simp: nth_Cons' less_Suc_eq_0_disj split: if_splits)
    also have "\<dots> \<longleftrightarrow> k ! i = k' ! i \<and> agree_at ks i"
      unfolding IH ..
    also have "\<dots> \<longleftrightarrow> agree_at (k # ks) i"
      using ks by (auto simp: agree_at_def)
    finally show ?thesis .
  qed
qed

definition row_agrees :: "bytes list \<Rightarrow> nat \<Rightarrow> nat \<Rightarrow> bool" where
  "row_agrees ks i l \<longleftrightarrow> ks ! l ! i = ks ! (l + 1) ! i"

lemma prefix_inner_eq:
  "prefix_inner ks i j = length ks - 1 \<longleftrightarrow>
     j \<le> length ks - 1 \<and> (\<forall>l. j \<le> l \<longrightarrow> l < length ks - 1 \<longrightarrow> row_agrees ks i l)"
proof (induction ks i j rule: prefix_inner.induct)
  case (1 ks i j)
  let ?A = "\<lambda>j. \<forall>l. j \<le> l \<longrightarrow> l < length ks - 1 \<longrightarrow> row_agrees ks i l"
  have eq: "prefix_inner ks i j = (if j < length ks - 1 then
      if row_agrees ks i j then prefix_inner ks i (j + 1) else j else j)"
    unfolding row_agrees_def by (simp add: prefix_inner.simps [of ks i j])
  consider (diff) "j < length ks - 1" "\<not> row_agrees ks i j"
    | (same) "j < length ks - 1" "row_agrees ks i j" | (stop) "\<not> j < length ks - 1"
    by blast
  then show ?case
  proof cases
    case diff
    then have "\<not> ?A j" by blast
    with diff show ?thesis using eq by simp
  next
    case same
    have "l = j \<or> j + 1 \<le> l" if "j \<le> l" for l using that by auto
    then have "?A j \<longleftrightarrow> ?A (j + 1)"
      using same(2) by auto
    moreover have "prefix_inner ks i (j + 1) = length ks - 1 \<longleftrightarrow> j + 1 \<le> length ks - 1 \<and> ?A (j + 1)"
      using same "1.IH" by (simp add: row_agrees_def)
    ultimately show ?thesis using same eq by simp
  next
    case stop
    then have "?A j" by simp
    with stop show ?thesis unfolding eq by auto
  qed
qed

lemma prefix_inner_agree: "prefix_inner ks i 0 = length ks - 1 \<longleftrightarrow> agree_at ks i"
  unfolding prefix_inner_eq neighbours_agree [symmetric] row_agrees_def by simp

lemma prefix_outer_spec:
  assumes "i \<le> n" and "\<forall>j < i. agree_at ks j"
  shows "prefix_outer ks n i \<le> n \<and> (\<forall>j < prefix_outer ks n i. agree_at ks j) \<and>
    (prefix_outer ks n i < n \<longrightarrow> \<not> agree_at ks (prefix_outer ks n i))"
  using assms
proof (induction ks n i rule: prefix_outer.induct)
  case (1 ks n i)
  show ?case
  proof (cases "i < n \<and> agree_at ks i")
    case True
    then have "prefix_outer ks n i = prefix_outer ks n (i + 1)"
      by (simp add: prefix_outer.simps [of ks n i] prefix_inner_agree [unfolded One_nat_def])
    moreover have "\<forall>j < i + 1. agree_at ks j"
      using True "1.prems" by (auto simp: less_Suc_eq)
    ultimately show ?thesis
      using True "1.IH" by (simp add: prefix_inner_agree [unfolded One_nat_def] Suc_le_eq)
  next
    case False
    then have "prefix_outer ks n i = i"
      by (auto simp: prefix_outer.simps [of ks n i] prefix_inner_agree [unfolded One_nat_def])
    then show ?thesis using False "1.prems" by auto
  qed
qed

lemma min_size_fold:
  "foldl (\<lambda>a k. min (length k) a) a ks \<le> a \<and>
   (\<forall>k \<in> set ks. foldl (\<lambda>a k. min (length k) a) a ks \<le> length k) \<and>
   (foldl (\<lambda>a k. min (length k) a) a ks = a \<or>
    (\<exists>k \<in> set ks. foldl (\<lambda>a k. min (length k) a) a ks = length k))"
proof (induction ks arbitrary: a)
  case Nil
  then show ?case by simp
next
  case (Cons k ks)
  show ?case
    using Cons [of "min (length k) a"] by (auto simp: min_def split: if_splits)
qed

lemma min_size_le: "k \<in> set ks \<Longrightarrow> min_size ks \<le> length k"
  using min_size_fold unfolding min_size_def by blast

lemma min_size_attained:
  assumes "ks \<noteq> []"
  shows "\<exists>k \<in> set ks. min_size ks = length k"
  using min_size_fold [of "length (hd ks)" ks] assms hd_in_set unfolding min_size_def by metis

text \<open>\<open>common_view\<close> is the longest common prefix of a nonempty list of strings.\<close>

lemma common_view_prefix:
  assumes "k \<in> set ks"
  shows "prefix (common_view ks) k"
proof -
  let ?L = "prefix_outer ks (min_size ks) 0"
  have L: "?L \<le> min_size ks" "\<forall>j < ?L. agree_at ks j"
    using prefix_outer_spec [of 0 "min_size ks" ks] by auto
  have "hd ks \<in> set ks" using assms by (cases ks) auto
  then have len: "?L \<le> length (hd ks)" "?L \<le> length k"
    using L(1) assms min_size_le order_trans by blast+
  have "take ?L (hd ks) = take ?L k"
    using len L(2) assms by (intro nth_equalityI) (auto simp: agree_at_def)
  then show ?thesis by (simp add: common_view_def take_is_prefix)
qed

lemma common_view_longest:
  assumes "ks \<noteq> []" and "\<And>k. k \<in> set ks \<Longrightarrow> prefix q k"
  shows "prefix q (common_view ks)"
proof -
  let ?L = "prefix_outer ks (min_size ks) 0"
  have stop: "?L < min_size ks \<longrightarrow> \<not> agree_at ks ?L"
    using prefix_outer_spec [of 0 "min_size ks" ks] by auto
  have hd: "hd ks \<in> set ks" using assms(1) by simp
  have len: "length q \<le> min_size ks"
    using min_size_attained [OF assms(1)] assms(2) prefix_length_le by metis
  have nth: "k ! i = q ! i" if "k \<in> set ks" "i < length q" for k i
    using assms(2) [OF that(1)] that(2) by (auto simp: prefix_def nth_append)
  have "agree_at ks i" if "i < length q" for i
    using nth hd that by (auto simp: agree_at_def)
  then have "length q \<le> ?L"
    using stop len by (meson not_le less_le_trans)
  moreover have "q = take (length q) (hd ks)"
    using assms(2) [OF hd] by (auto simp: prefix_def)
  ultimately have "q = take (length q) (take ?L (hd ks))"
    by (simp add: min_absorb1)
  then show ?thesis
    unfolding common_view_def by (metis take_is_prefix)
qed

section \<open>Properties\<close>

text \<open>A fixed 32- or 64-bit integer written anywhere in a buffer is read back
  unchanged, whatever bytes surround it.\<close>

lemma fixed_width_round_trip:
  "formatDecodeFixed32 (pre @ formatEncodeFixed32 v @ post) (length pre) = Inr v \<and>
   formatDecodeFixed64 (pre @ formatEncodeFixed64 w @ post) (length pre) = Inr w"
  by (simp add: decode_encode_fixed32 decode_encode_fixed64)

text \<open>Property C6. A 32-bit varint read with the five-byte window every caller gives (or a
  larger one) is the number that was encoded, the returned pointer is just behind the
  encoding, and \<open>decodeVarint32\<close> strips exactly the encoding from its string.\<close>

theorem varint32_round_trip:
  "getVarint32Ptr (pre @ encodeVarint32 v @ post) (length pre) (length pre + 5 + k)
     = Inr (Some (v, length pre + varintLength (ucast v))) \<and>
   decodeVarint32 (encodeVarint32 v @ post) = Inr (Some (v, post))"
proof -
  have len: "length (encodeVarint32 v) = varintLength (ucast v)"
    by (simp add: encodeVarint32_leb varintLength_leb)
  have "getVarint32Ptr ([] @ leb (unat v) @ post) 0 (length (leb (unat v) @ post))
      = Inr (Some (of_nat (unat v), 0 + length (leb (unat v))))"
    using unat_u32_less [of v] by (intro getVarint32Ptr_leb) auto
  then show ?thesis
    using getVarint32Ptr_encode [of "length pre" pre "length pre + 5 + k" v post] len
    by (simp add: decodeVarint32_def encodeVarint32_leb)
qed

text \<open>Property C7. A 64-bit varint read with a window of ten bytes is the number that was
  encoded; with the nine-byte window of the record decoders the same holds below
  $2^{63}$, and from there on the decoder returns a null pointer.\<close>

theorem varint64_round_trip:
  "getVarint64Ptr (pre @ encodeVarint64 v @ post) (length pre) (length pre + 10)
     = Inr (Some (v, length pre + varintLength v)) \<and>
   getVarint64Ptr (pre @ encodeVarint64 v @ post) (length pre) (length pre + 9)
     = (if v < 2 ^ 63 then Inr (Some (v, length pre + varintLength v)) else Inr None) \<and>
   decodeVarint64 (encodeVarint64 v @ post) = Inr (Some (v, post))"
proof -
  have len: "length (encodeVarint64 v) = varintLength v"
    by (simp add: encodeVarint64_leb varintLength_leb)
  have "getVarint64Ptr ([] @ encodeVarint64 v @ post) 0 (length (encodeVarint64 v @ post))
      = Inr (Some (v, 0 + length (encodeVarint64 v)))"
    by (intro getVarint64Ptr_encode) auto
  then have "decodeVarint64 (encodeVarint64 v @ post) = Inr (Some (v, post))"
    by (simp add: decodeVarint64_def)
  then show ?thesis
    using len leb_unat_64 [of v] leb_unat_64_9 [of v]
    by (auto simp: getVarint64Ptr_encode getVarint64Ptr_encode_short encodeVarint64_leb
        simp flip: encodeVarint64_leb)
qed

text \<open>The unrolled \<open>encodeVarint32\<close> stores the same bytes as the loop of
  \<open>encodeVarint64\<close> on the widened value, as many as \<open>varintLength\<close> announces, between
  one and five.\<close>

lemma encodeVarint32_unrolled:
  "encodeVarint32 v = encodeVarint64 (ucast v) \<and>
   length (encodeVarint32 v) = varintLength (ucast v) \<and>
   1 \<le> varintLength (ucast v) \<and> varintLength (ucast v) \<le> 5"
  using leb_unat_32 [of v]
  by (simp add: encodeVarint32_leb encodeVarint64_leb varintLength_leb Suc_leI)

text \<open>Property C33. Both varint decoders stay inside their window: if the window lies in the
  object they never read out of bounds, and a non-null result points behind at least one
  and at most five (ten) bytes, still inside the window.\<close>

theorem varint_decoders_in_window:
  assumes "limit \<le> length m"
  shows "(\<exists>r. getVarint32Ptr m p limit = Inr r \<and>
      (\<forall>v q. r = Some (v, q) \<longrightarrow> p < q \<and> q \<le> limit \<and> q \<le> p + 5)) \<and>
    (\<exists>r. getVarint64Ptr m p limit = Inr r \<and>
      (\<forall>v q. r = Some (v, q) \<longrightarrow> p < q \<and> q \<le> limit \<and> q \<le> p + 10))"
proof
  show "\<exists>r. getVarint32Ptr m p limit = Inr r \<and>
      (\<forall>v q. r = Some (v, q) \<longrightarrow> p < q \<and> q \<le> limit \<and> q \<le> p + 5)"
    using getVarint32PtrFallback_loop_bounds [OF assms, of p 0 0]
    by (fastforce simp: getVarint32Ptr_fallback getVarint32PtrFallback_def)
  show "\<exists>r. getVarint64Ptr m p limit = Inr r \<and>
      (\<forall>v q. r = Some (v, q) \<longrightarrow> p < q \<and> q \<le> limit \<and> q \<le> p + 10)"
    using getVarint64Ptr_loop_bounds [OF assms, of p 0 0]
    by (fastforce simp: getVarint64Ptr_def)
qed

theorem varint_decoders_in_window_witness:
  "(3::nat) \<le> length [172, 2, 7 :: u8] \<and>
   (\<exists>r. getVarint32Ptr [172, 2, 7] 0 3 = Inr r \<and>
      (\<forall>v q. r = Some (v, q) \<longrightarrow> 0 < q \<and> q \<le> 3 \<and> q \<le> 0 + 5)) \<and>
   (\<exists>r. getVarint64Ptr [172, 2, 7] 0 3 = Inr r \<and>
      (\<forall>v q. r = Some (v, q) \<longrightarrow> 0 < q \<and> q \<le> 3 \<and> q \<le> 0 + 10))"
  using varint_decoders_in_window [of 3 "[172, 2, 7]" 0] by simp

text \<open>On a nonempty block \<open>Format16PrefixStr\<close> returns the longest common prefix
  of all keys and the longest common prefix of all values.\<close>

lemma Format16PrefixStr_longest:
  assumes "sstable_vec \<noteq> []"
  shows "\<exists>r. Format16PrefixStr sstable_vec = Inr r \<and>
    (\<forall>kv \<in> set sstable_vec. prefix (pr_key r) (kv_key kv) \<and> prefix (pr_value r) (kv_value kv)) \<and>
    (\<forall>q. (\<forall>kv \<in> set sstable_vec. prefix q (kv_key kv)) \<longrightarrow> prefix q (pr_key r)) \<and>
    (\<forall>q. (\<forall>kv \<in> set sstable_vec. prefix q (kv_value kv)) \<longrightarrow> prefix q (pr_value r))"
  using assms
  by (auto simp: Format16PrefixStr_def intro!: common_view_prefix common_view_longest)

end
