(* ===== verification/Db_Types.thy ===== *)
theory Db_Types
  imports Prelude
begin

text \<open>
  The small data types the database components share: status codes
  (\<open>src/db/status.hpp\<close>, \<open>status.cpp\<close>), request contexts (\<open>src/db/request.hpp\<close>),
  the configuration (\<open>src/db/dbconfig.hpp\<close>) and snapshots (\<open>src/db/snapshot.hpp\<close>,
  \<open>snapshot.cpp\<close>). A callback of a context is represented by whether one is set; its
  invocations are recorded by the component that makes them.
\<close>

section \<open>Status\<close>

datatype StatusCode =
    kNotFound
  | kIoError
  | kNotSupported
  | kOk
  | kCorruption
  | kInvalidArgument
  | kDelete

text \<open>The value of an enumerator.\<close>

fun status_int :: "StatusCode \<Rightarrow> nat" where
  "status_int kNotFound = 0"
| "status_int kIoError = 1"
| "status_int kNotSupported = 2"
| "status_int kOk = 3"
| "status_int kCorruption = 4"
| "status_int kInvalidArgument = 5"
| "status_int kDelete = 6"

definition statuslev :: "string list" where
  "statuslev = [''not found'', ''io error'', ''not supported'', ''ok'', ''corruption'',
     ''invalidargument'']"

record Status =
  st_error_log :: string
  st_code :: StatusCode
  st_code_ptr :: string

definition Status_ctor :: Status where
  "Status_ctor = \<lparr>st_error_log = [], st_code = kOk, st_code_ptr = statuslev ! status_int kOk\<rparr>"

definition setCode :: "StatusCode \<Rightarrow> Status \<Rightarrow> Status" where
  "setCode code st = st\<lparr>st_code := code\<rparr>"

definition getCode :: "Status \<Rightarrow> StatusCode" where
  "getCode st = st_code st"

definition getCodeStr :: "Status \<Rightarrow> (string \<times> Status) res" where
  "getCodeStr st =
     rbind (rd statuslev (status_int (st_code st))) (\<lambda>s. Inr (s, st\<lparr>st_code_ptr := s\<rparr>))"

definition SetErrorLog :: "string \<Rightarrow> Status \<Rightarrow> Status" where
  "SetErrorLog error_log st = st\<lparr>st_error_log := error_log\<rparr>"

section \<open>Requests\<close>

datatype Request =
    kSet_Request
  | kPut_Request
  | kGet_Request
  | kDel_Request
  | KExi_Request

fun request_int :: "Request \<Rightarrow> nat" where
  "request_int kSet_Request = 0"
| "request_int kPut_Request = 1"
| "request_int kGet_Request = 2"
| "request_int kDel_Request = 3"
| "request_int KExi_Request = 4"

record SetContext =
  set_key :: bytes
  set_value :: bytes
  set_code :: Status
  set_number :: u64

record PutContext =
  put_key :: bytes
  put_value :: bytes
  put_code :: Status
  put_number :: u64

record GetContext =
  get_key :: bytes
  get_value :: bytes
  get_code :: Status
  get_number :: u64
  get_callback :: bool

record DeleteContext =
  del_key :: bytes
  del_code :: Status
  del_number :: u64
  del_callback :: bool

record SetContextBatch =
  setb_kv_vec :: "(bytes \<times> bytes) list"
  setb_code :: Status
  setb_number :: u64

definition SetContextBatch_AddKVRecord :: "bytes \<times> bytes \<Rightarrow> SetContextBatch \<Rightarrow> SetContextBatch" where
  "SetContextBatch_AddKVRecord add_record b = b\<lparr>setb_kv_vec := setb_kv_vec b @ [add_record]\<rparr>"

record PutContextBatch =
  putb_kv_vec :: "(bytes \<times> bytes) list"
  putb_code :: Status
  putb_number :: u64

definition PutContextBatch_AddKVRecord :: "bytes \<times> bytes \<Rightarrow> PutContextBatch \<Rightarrow> PutContextBatch" where
  "PutContextBatch_AddKVRecord add_record b = b\<lparr>putb_kv_vec := putb_kv_vec b @ [add_record]\<rparr>"

text \<open>The constructors leave \<open>number\<close> as the memory holds it: an argument.\<close>

definition SetContext_ctor :: "u64 \<Rightarrow> bytes \<Rightarrow> bytes \<Rightarrow> SetContext" where
  "SetContext_ctor garbage key_view value_view =
     \<lparr>set_key = key_view, set_value = value_view, set_code = Status_ctor, set_number = garbage\<rparr>"

definition GetContext_ctor :: "u64 \<Rightarrow> bytes \<Rightarrow> GetContext" where
  "GetContext_ctor garbage key_view =
     \<lparr>get_key = key_view, get_value = [], get_code = Status_ctor, get_number = garbage,
      get_callback = False\<rparr>"

section \<open>Configuration\<close>

record DBConfig =
  wal_log_size :: u32
  wal_log_is_sync :: bool
  db_path :: bytes
  memtable_N :: u32
  memtable_trigger_size :: u32
  compactor_thread_size :: u32
  lru_cache_size :: u32
  max_level_size :: u32
  isRecover :: bool
  db_version :: u32

definition DBConfig_default :: "bool \<Rightarrow> u32 \<Rightarrow> DBConfig" where
  "DBConfig_default garbage_recover garbage_version =
     \<lparr>wal_log_size = 64 * 1024 * 1024, wal_log_is_sync = False, db_path = [], memtable_N = 8,
      memtable_trigger_size = 128 * 1024 * 1024, compactor_thread_size = 1,
      lru_cache_size = 15 * 1024 * 1024, max_level_size = 8, isRecover = garbage_recover,
      db_version = garbage_version\<rparr>"

section \<open>Snapshots\<close>

record SnapShot =
  snap_sequence_number :: u64
  snapshot_data :: "bytes list"

definition SnapShot_Init :: "u64 \<Rightarrow> u32 \<Rightarrow> SnapShot \<Rightarrow> SnapShot res" where
  "SnapShot_Init number memtable_n s =
     (let n = unat memtable_n;
          d = take n (snapshot_data s) @ replicate (n - length (snapshot_data s)) []
      in rbind (guard (length d = n) AssertFail) (\<lambda>_.
           Inr \<lparr>snap_sequence_number = number, snapshot_data = d\<rparr>))"

definition getPeerData :: "u32 \<Rightarrow> SnapShot \<Rightarrow> bytes res" where
  "getPeerData number s = rd (snapshot_data s) (unat number)"

section \<open>Lemmas\<close>

lemma status_int_less: "status_int c < 7"
  by (cases c) simp_all

lemma getCodeStr_in_range:
  "(\<exists>r. getCodeStr st = Inr r) \<longleftrightarrow> st_code st \<noteq> kDelete"
  by (cases "st_code st") (simp_all add: getCodeStr_def statuslev_def)

lemma SnapShot_Init_ok:
  "\<exists>s'. SnapShot_Init number n s = Inr s' \<and> length (snapshot_data s') = unat n"
  by (auto simp: SnapShot_Init_def Let_def guard_def)

end
