(* ===== verification/Files.thy ===== *)
theory Files
  imports Db_Types
begin

text \<open>
  Files as the storage classes use them. The kernel's part is explicit: an open file is its
  contents and an offset, and how many bytes a \<open>write\<close> takes (or that it fails) is the
  operating system's choice, an argument \<open>wr\<close> of every operation that writes. On top of it
  stand the append log of \<open>src/util/file/wal_log.cpp\<close>, the buffered file of
  \<open>src/util/file/appendfile.cpp\<close> and the read-only mapping of
  \<open>src/util/file/readonlyfile.cpp\<close>.

  The locale \<open>byte_sink\<close> is the contract the two writers share: what was handed over so far
  is a stream, a successful \<open>put\<close> appends to it, and the only failure is the assertion that
  a write was complete.
\<close>

section \<open>Open files\<close>

record ofile =
  of_content :: bytes
  of_pos :: nat

type_synonym sys_wr = "ofile \<Rightarrow> bytes \<Rightarrow> int"

text \<open>Bytes stored at an offset; a gap behind the old end reads as zeros.\<close>

definition put_at :: "bytes \<Rightarrow> nat \<Rightarrow> bytes \<Rightarrow> bytes" where
  "put_at c p d = take p (c @ replicate (p - length c) 0) @ d @ drop (p + length d) c"

definition sys_write :: "sys_wr \<Rightarrow> ofile \<Rightarrow> bytes \<Rightarrow> int \<times> ofile" where
  "sys_write wr f d =
     (let r = wr f d in
      if r < 0 then (-1, f)
      else let d' = take (nat r) d in
        (int (length d'),
         f\<lparr>of_content := put_at (of_content f) (of_pos f) d', of_pos := of_pos f + length d'\<rparr>))"

definition sys_lseek :: "nat \<Rightarrow> ofile \<Rightarrow> ofile" where
  "sys_lseek p f = f\<lparr>of_pos := p\<rparr>"

definition sys_read :: "nat \<Rightarrow> ofile \<Rightarrow> bytes \<times> ofile" where
  "sys_read n f = (let d = take n (drop (of_pos f) (of_content f)) in
     (d, f\<lparr>of_pos := of_pos f + length d\<rparr>))"

definition sys_ftruncate :: "nat \<Rightarrow> ofile \<Rightarrow> ofile" where
  "sys_ftruncate n f = f\<lparr>of_content := take n (of_content f)\<rparr>"

text \<open>A system that always takes the whole buffer.\<close>

definition write_all :: sys_wr where
  "write_all f d = int (length d)"

section \<open>WalLog\<close>

record WalLog =
  wl_fd :: int
  wl_file :: ofile
  wl_fullFilename :: bytes
  wl_fileName :: bytes
  wl_path :: bytes

text \<open>
  \<open>open\<close> with \<open>O_RDWR | O_CREAT | O_SYNC\<close> returns a descriptor or a negative number; the
  file keeps the contents it has and the offset is 0. The system's answer is the argument
  \<open>(fd, content)\<close>.
\<close>

definition WalLog_Init :: "int \<times> bytes \<Rightarrow> bytes \<Rightarrow> bytes \<Rightarrow> WalLog \<Rightarrow> bool \<times> WalLog" where
  "WalLog_Init opened path filename w =
     (let w = w\<lparr>wl_fd := fst opened, wl_fullFilename := path @ filename\<rparr> in
      if fst opened < 0 then (False, w)
      else (True, w\<lparr>wl_file := \<lparr>of_content = snd opened, of_pos = 0\<rparr>,
                    wl_path := take (length path) (path @ filename),
                    wl_fileName := take (length filename) (drop (length path) (path @ filename))\<rparr>))"

definition WalLog_AddRecord :: "sys_wr \<Rightarrow> bytes \<Rightarrow> WalLog \<Rightarrow> WalLog res" where
  "WalLog_AddRecord wr data w =
     rbind (guard (wl_fd w > 0) AssertFail) (\<lambda>_.
       let (simple_write_size, f) = sys_write wr (wl_file w) data in
       rbind (guard (simple_write_size = int (length data)) AssertFail) (\<lambda>_.
         Inr (w\<lparr>wl_file := f\<rparr>)))"

definition WalLog_Close :: "WalLog \<Rightarrow> WalLog" where
  "WalLog_Close w = (if wl_fd w > 0 then w\<lparr>wl_fd := -1\<rparr> else w)"

definition WalLog_getFileSize :: "WalLog \<Rightarrow> u32" where
  "WalLog_getFileSize w = of_nat (length (of_content (wl_file w)))"

definition WalLog_SeekBegin :: "WalLog \<Rightarrow> WalLog" where
  "WalLog_SeekBegin w = w\<lparr>wl_file := sys_lseek 0 (wl_file w)\<rparr>"

definition WalLog_Read :: "nat \<Rightarrow> WalLog \<Rightarrow> bytes \<times> WalLog" where
  "WalLog_Read n w =
     (let w = WalLog_SeekBegin w; (d, f) = sys_read n (wl_file w) in (d, w\<lparr>wl_file := f\<rparr>))"

section \<open>AppendFile\<close>

record Buffer =
  bufptr :: bytes
  offset :: u32
  buflen :: u32

definition Buffer_ctor :: "u32 \<Rightarrow> Buffer" where
  "Buffer_ctor len = \<lparr>bufptr = replicate (unat len) 0, offset = 0, buflen = len\<rparr>"

record AppendFile =
  af_buf :: Buffer
  af_fullFilename :: bytes
  af_path :: bytes
  af_filename :: bytes
  af_fd :: int
  af_file :: ofile

definition kAppendFileBufferSize :: nat where
  "kAppendFileBufferSize = 65536"

definition AppendFile_ctor :: AppendFile where
  "AppendFile_ctor = \<lparr>af_buf = Buffer_ctor 65536, af_fullFilename = [], af_path = [],
     af_filename = [], af_fd = -1, af_file = \<lparr>of_content = [], of_pos = 0\<rparr>\<rparr>"

text \<open>\<open>std::memcpy(buf_.bufptr_ + off, d, d.size())\<close>.\<close>

definition buf_memcpy :: "Buffer \<Rightarrow> nat \<Rightarrow> bytes \<Rightarrow> Buffer res" where
  "buf_memcpy b off d =
     (if off + length d \<le> length (bufptr b)
      then Inr (b\<lparr>bufptr := take off (bufptr b) @ d @ drop (off + length d) (bufptr b)\<rparr>)
      else Inl OutOfBounds)"

definition WriteDirect :: "sys_wr \<Rightarrow> bytes \<Rightarrow> AppendFile \<Rightarrow> AppendFile res" where
  "WriteDirect wr data a =
     rbind (guard (af_fd a \<noteq> -1) AssertFail) (\<lambda>_.
       let (write_size, f) = sys_write wr (af_file a) data in
       rbind (guard (write_size = int (length data)) AssertFail) (\<lambda>_.
         Inr (a\<lparr>af_file := f\<rparr>)))"

definition FlushBuffer :: "sys_wr \<Rightarrow> AppendFile \<Rightarrow> AppendFile res" where
  "FlushBuffer wr a =
     rbind (view (bufptr (af_buf a)) 0 (unat (offset (af_buf a)))) (\<lambda>d.
     rbind (WriteDirect wr d a) (\<lambda>a. Inr (a\<lparr>af_buf := (af_buf a)\<lparr>offset := 0\<rparr>\<rparr>)))"

definition Append :: "sys_wr \<Rightarrow> bytes \<Rightarrow> AppendFile \<Rightarrow> AppendFile res" where
  "Append wr data a =
     (let b = af_buf a; data_size = length data in
      if unat (buflen b - offset b) > data_size then
        rbind (buf_memcpy b (unat (offset b)) data) (\<lambda>b.
          Inr (a\<lparr>af_buf := b\<lparr>offset := offset b + of_nat data_size\<rparr>\<rparr>))
      else
        let buf_remain_size = buflen b - offset b in
        rbind (buf_memcpy b (unat (offset b)) (take (unat buf_remain_size) data)) (\<lambda>b.
        rbind (FlushBuffer wr (a\<lparr>af_buf := b\<lparr>offset := offset b + buf_remain_size\<rparr>\<rparr>)) (\<lambda>a.
          let data_remain_size = data_size - unat buf_remain_size;
              rest = drop (unat buf_remain_size) data in
          if data_remain_size < kAppendFileBufferSize div 4 then
            rbind (buf_memcpy (af_buf a) (unat (offset (af_buf a))) rest) (\<lambda>b.
              Inr (a\<lparr>af_buf := b\<lparr>offset := offset b + of_nat data_remain_size\<rparr>\<rparr>))
          else WriteDirect wr rest a)))"

definition AppendFile_Init :: "int \<times> bytes \<Rightarrow> bytes \<Rightarrow> bytes \<Rightarrow> AppendFile \<Rightarrow> AppendFile" where
  "AppendFile_Init opened path filename a =
     (let full = path @ [47] @ filename;
          a = a\<lparr>af_fullFilename := full, af_fd := fst opened\<rparr> in
      if fst opened < 0 then a
      else a\<lparr>af_file := \<lparr>of_content = snd opened, of_pos = 0\<rparr>,
             af_path := take (length path) full,
             af_filename := take (length filename) (drop (length path + 1) full)\<rparr>)"

definition AppendFile_getFileSize :: "AppendFile \<Rightarrow> u32" where
  "AppendFile_getFileSize a = of_nat (length (of_content (af_file a)))"

text \<open>
  \<open>Read\<close> appends the file to \<open>data\<close> in pieces of the thread's buffer, 4096000 bytes, until
  a read returns nothing.
\<close>

function AppendFile_Read_loop :: "bytes \<Rightarrow> ofile \<Rightarrow> bytes \<times> ofile" where
  "AppendFile_Read_loop data f =
     (let (d, f') = sys_read 4096000 f in
      if d = [] then (data, f') else AppendFile_Read_loop (data @ d) f')"
  by pat_completeness auto
termination
  by (relation "measure (\<lambda>(_, f). length (of_content f) - of_pos f)")
    (auto simp: sys_read_def Let_def)

definition AppendFile_Read :: "bytes \<Rightarrow> AppendFile \<Rightarrow> bytes \<times> AppendFile" where
  "AppendFile_Read data a =
     (let (d, f) = AppendFile_Read_loop data (sys_lseek 0 (af_file a)) in (d, a\<lparr>af_file := f\<rparr>))"

definition AppendFile_Close :: "sys_wr \<Rightarrow> AppendFile \<Rightarrow> AppendFile res" where
  "AppendFile_Close wr a =
     (if af_fd a \<noteq> -1 then rbind (FlushBuffer wr a) (\<lambda>a. Inr (a\<lparr>af_fd := -1\<rparr>)) else Inr a)"

definition AppendFile_Clear :: "AppendFile \<Rightarrow> AppendFile" where
  "AppendFile_Clear a = a\<lparr>af_file := sys_lseek 0 (sys_ftruncate 0 (af_file a))\<rparr>"

section \<open>ReadonlyFile\<close>

record ReadonlyFile =
  rf_mmap_base :: "bytes option"
  rf_length :: u64
  rf_fullfilename :: bytes
  rf_path :: bytes
  rf_filename :: bytes

definition ReadonlyFile_ctor :: "u64 \<Rightarrow> ReadonlyFile" where
  "ReadonlyFile_ctor garbage = \<lparr>rf_mmap_base = None, rf_length = garbage, rf_fullfilename = [],
     rf_path = [], rf_filename = []\<rparr>"

text \<open>
  The system's answers: the descriptor \<open>open(filename)\<close> returns with the contents it stands
  for, the size \<open>stat(fullfilename_)\<close> reports if it succeeds, and whether \<open>mmap\<close> succeeds.
  The mapping shows the contents of the descriptor, which is opened by the bare file name.
\<close>

record sys_ro =
  ro_fd :: int
  ro_content :: bytes
  ro_stat :: "u64 option"
  ro_mmap :: bool

definition ReadonlyFile_Init :: "sys_ro \<Rightarrow> bytes \<Rightarrow> bytes \<Rightarrow> ReadonlyFile \<Rightarrow> bool \<times> ReadonlyFile" where
  "ReadonlyFile_Init sys path filename r =
     (let full = path @ [47] @ filename; r = r\<lparr>rf_fullfilename := full\<rparr> in
      if ro_fd sys < 0 then (False, r)
      else case ro_stat sys of
        None \<Rightarrow> (False, r)
      | Some n \<Rightarrow>
          let r = r\<lparr>rf_length := n\<rparr> in
          if n > 0 \<and> \<not> ro_mmap sys then (False, r)
          else
            let r = (if n > 0 then r\<lparr>rf_mmap_base := Some (take (unat n) (ro_content sys))\<rparr> else r) in
            (True, r\<lparr>rf_path := take (length path) full,
                     rf_filename := take (length filename) (drop (length path) full)\<rparr>))"

text \<open>The sum \<open>offset + n\<close> is computed in 64 bits.\<close>

definition ReadonlyFile_Read :: "u64 \<Rightarrow> u64 \<Rightarrow> ReadonlyFile \<Rightarrow> bytes option res" where
  "ReadonlyFile_Read off n r =
     (case rf_mmap_base r of
        None \<Rightarrow> Inl AssertFail
      | Some m \<Rightarrow>
          if off + n > rf_length r then Inr None
          else rbind (view m (unat off) (unat n)) (\<lambda>d. Inr (Some d)))"

section \<open>The contract of a byte sink\<close>

locale byte_sink =
  fixes ok :: "'s \<Rightarrow> bool"
    and stream :: "'s \<Rightarrow> bytes"
    and put :: "bytes \<Rightarrow> 's \<Rightarrow> 's res"
  assumes put_appends: "ok s \<Longrightarrow> put d s = Inr s' \<Longrightarrow> ok s' \<and> stream s' = stream s @ d"
    and put_fails: "ok s \<Longrightarrow> put d s = Inl e \<Longrightarrow> e = AssertFail"
begin

fun puts :: "bytes list \<Rightarrow> 's \<Rightarrow> 's res" where
  "puts [] s = Inr s"
| "puts (d # ds) s = rbind (put d s) (puts ds)"

lemma puts_appends:
  assumes "ok s" and "puts ds s = Inr s'"
  shows "ok s' \<and> stream s' = stream s @ concat ds"
  using assms
proof (induction ds arbitrary: s)
  case (Cons d ds)
  then obtain s1 where "put d s = Inr s1" "puts ds s1 = Inr s'"
    by (auto simp: rbind_eq_Inr_iff)
  then show ?case
    using Cons.IH [of s1] Cons.prems put_appends [of s d s1] by simp
qed simp

lemma puts_fails:
  assumes "ok s" and "puts ds s = Inl e"
  shows "e = AssertFail"
  using assms
proof (induction ds arbitrary: s)
  case (Cons d ds)
  then show ?case
    using put_appends put_fails by (cases "put d s") auto
qed simp

end

text \<open>A sink that never refuses.\<close>

locale total_sink = byte_sink +
  assumes put_total: "ok s \<Longrightarrow> \<exists>s'. put d s = Inr s'"
begin

lemma puts_total:
  assumes "ok s"
  shows "\<exists>s'. puts ds s = Inr s' \<and> ok s' \<and> stream s' = stream s @ concat ds"
  using assms
proof (induction ds arbitrary: s)
  case (Cons d ds)
  obtain s1 where s1: "put d s = Inr s1" using put_total Cons.prems by blast
  with Cons.IH [of s1] put_appends [OF Cons.prems s1] show ?case by auto
qed simp

end

section \<open>Lemmas\<close>

lemma put_at_end: "p = length c \<Longrightarrow> put_at c p d = c @ d"
  by (simp add: put_at_def)

lemma length_put_at: "length (put_at c p d) = max (length c) (p + length d)"
  by (simp add: put_at_def)

lemma sys_write_complete:
  assumes "sys_write wr f d = (int (length d), f')"
  shows "f' = f\<lparr>of_content := put_at (of_content f) (of_pos f) d, of_pos := of_pos f + length d\<rparr>"
  using assms by (auto simp: sys_write_def Let_def split: if_splits)

lemma sys_write_all [simp]:
  "sys_write write_all f d = (int (length d),
     f\<lparr>of_content := put_at (of_content f) (of_pos f) d, of_pos := of_pos f + length d\<rparr>)"
  by (simp add: sys_write_def write_all_def)

definition at_end :: "ofile \<Rightarrow> bool" where
  "at_end f \<longleftrightarrow> of_pos f = length (of_content f)"

lemma sys_write_at_end:
  assumes "sys_write wr f d = (int (length d), f')" and "at_end f"
  shows "at_end f' \<and> of_content f' = of_content f @ d"
  using sys_write_complete [OF assms(1)] assms(2)
  by (simp add: at_end_def put_at_end)

definition wal_log_ok :: "WalLog \<Rightarrow> bool" where
  "wal_log_ok w \<longleftrightarrow> wl_fd w > 0 \<and> at_end (wl_file w)"

definition wal_log_stream :: "WalLog \<Rightarrow> bytes" where
  "wal_log_stream w = of_content (wl_file w)"

interpretation wal_sink: byte_sink wal_log_ok wal_log_stream "WalLog_AddRecord wr" for wr
proof
  fix s d s'
  assume "wal_log_ok s" and "WalLog_AddRecord wr d s = Inr s'"
  then show "wal_log_ok s' \<and> wal_log_stream s' = wal_log_stream s @ d"
    using sys_write_at_end [of wr "wl_file s" d]
    by (auto simp: WalLog_AddRecord_def wal_log_ok_def wal_log_stream_def rbind_eq_Inr_iff
        split: prod.splits)
next
  fix s d e
  assume "WalLog_AddRecord wr d s = Inl e"
  then show "e = AssertFail"
    by (auto simp: WalLog_AddRecord_def rbind_eq_Inl_iff guard_def split: prod.splits if_splits)
qed

interpretation wal_total: total_sink wal_log_ok wal_log_stream "WalLog_AddRecord write_all"
  by unfold_locales (simp add: WalLog_AddRecord_def wal_log_ok_def)

text \<open>The buffered file: the stream is what the file holds followed by what is buffered.\<close>

definition append_file_ok :: "AppendFile \<Rightarrow> bool" where
  "append_file_ok a \<longleftrightarrow> af_fd a \<noteq> -1 \<and> at_end (af_file a) \<and> length (bufptr (af_buf a)) = 65536 \<and>
     buflen (af_buf a) = 65536 \<and> unat (offset (af_buf a)) < 65536"

definition append_file_stream :: "AppendFile \<Rightarrow> bytes" where
  "append_file_stream a =
     of_content (af_file a) @ take (unat (offset (af_buf a))) (bufptr (af_buf a))"

lemma WriteDirect_appends:
  assumes "WriteDirect wr d a = Inr a'" and "at_end (af_file a)"
  shows "af_buf a' = af_buf a \<and> af_fd a' = af_fd a \<and> at_end (af_file a') \<and>
    of_content (af_file a') = of_content (af_file a) @ d"
  using assms sys_write_at_end [of wr "af_file a" d]
  by (auto simp: WriteDirect_def rbind_eq_Inr_iff split: prod.splits)

lemma WriteDirect_fails: "WriteDirect wr d a = Inl e \<Longrightarrow> e = AssertFail"
  by (auto simp: WriteDirect_def rbind_eq_Inl_iff guard_def split: prod.splits if_splits)

lemma FlushBuffer_appends:
  assumes "FlushBuffer wr a = Inr a'" and "at_end (af_file a)"
  shows "af_buf a' = (af_buf a)\<lparr>offset := 0\<rparr> \<and> af_fd a' = af_fd a \<and> at_end (af_file a') \<and>
    of_content (af_file a') = append_file_stream a"
proof -
  obtain a1 where a1: "WriteDirect wr (take (unat (offset (af_buf a))) (bufptr (af_buf a))) a = Inr a1"
    and a': "a' = a1\<lparr>af_buf := (af_buf a1)\<lparr>offset := 0\<rparr>\<rparr>"
    using assms(1) by (auto simp: FlushBuffer_def rbind_eq_Inr_iff view_def split: if_splits)
  from WriteDirect_appends [OF a1 assms(2)] a' show ?thesis
    by (simp add: append_file_stream_def)
qed

lemma FlushBuffer_fails:
  assumes "FlushBuffer wr a = Inl e" and "unat (offset (af_buf a)) \<le> length (bufptr (af_buf a))"
  shows "e = AssertFail"
  using assms WriteDirect_fails by (auto simp: FlushBuffer_def rbind_eq_Inl_iff)

lemma buf_memcpy_in:
  "off + length d \<le> length (bufptr b) \<Longrightarrow> buf_memcpy b off d =
     Inr (b\<lparr>bufptr := take off (bufptr b) @ d @ drop (off + length d) (bufptr b)\<rparr>)"
  by (simp add: buf_memcpy_def)

lemma unat_add_of_nat_u32:
  "unat (x :: u32) + n < 4294967296 \<Longrightarrow> unat (x + of_nat n) = unat x + n"
  by (simp add: unat_word_ariths(1) unat_of_nat)

lemma remaining_room:
  assumes "unat (x :: u32) < 65536"
  shows "unat (65536 - x) = 65536 - unat x" and "unat (x + (65536 - x)) = 65536"
proof -
  have "x \<le> 65536" using assms by (simp add: word_le_nat_alt)
  then show "unat (65536 - x) = 65536 - unat x" by (simp add: unat_sub)
qed simp

text \<open>The state after the buffer was filled up with the head of the data.\<close>

definition filled :: "bytes \<Rightarrow> AppendFile \<Rightarrow> AppendFile" where
  "filled data a =
     (let b = af_buf a; k = unat (offset b) in
      a\<lparr>af_buf := b\<lparr>bufptr := take k (bufptr b) @ take (65536 - k) data, offset := 65536\<rparr>\<rparr>)"

lemma filled_stream:
  assumes "append_file_ok a" and "65536 - unat (offset (af_buf a)) \<le> length data"
  shows "append_file_stream (filled data a)
    = append_file_stream a @ take (65536 - unat (offset (af_buf a))) data"
  using assms by (simp add: append_file_stream_def filled_def Let_def append_file_ok_def)

lemma Append_small:
  assumes "append_file_ok a" and "length data < 65536 - unat (offset (af_buf a))"
  shows "\<exists>a'. Append wr data a = Inr a' \<and> append_file_ok a' \<and>
    append_file_stream a' = append_file_stream a @ data"
proof -
  let ?b = "af_buf a"
  have "unat (offset ?b + of_nat (length data)) = unat (offset ?b) + length data"
    using assms by (intro unat_add_of_nat_u32) (auto simp: append_file_ok_def)
  then show ?thesis
    using assms
    by (simp add: Append_def Let_def append_file_ok_def append_file_stream_def remaining_room
        buf_memcpy_in)
qed

lemma Append_big:
  assumes "append_file_ok a" and "65536 - unat (offset (af_buf a)) \<le> length data"
  shows "Append wr data a =
    rbind (FlushBuffer wr (filled data a)) (\<lambda>a1.
      let rest = drop (65536 - unat (offset (af_buf a))) data in
      if length rest < 16384 then
        rbind (buf_memcpy (af_buf a1) (unat (offset (af_buf a1))) rest) (\<lambda>b.
          Inr (a1\<lparr>af_buf := b\<lparr>offset := offset b + of_nat (length rest)\<rparr>\<rparr>))
      else WriteDirect wr rest a1)"
  using assms
  by (simp add: Append_def Let_def append_file_ok_def remaining_room buf_memcpy_in filled_def
      kAppendFileBufferSize_def cong: if_cong del: of_nat_diff)

lemma filled_ok:
  assumes "append_file_ok a" and "65536 - unat (offset (af_buf a)) \<le> length d"
  shows "at_end (af_file (filled d a))" "length (bufptr (af_buf (filled d a))) = 65536"
    "buflen (af_buf (filled d a)) = 65536" "unat (offset (af_buf (filled d a))) = 65536"
    "af_fd (filled d a) = af_fd a"
  using assms by (simp_all add: append_file_ok_def filled_def Let_def)

lemma filled_flush:
  assumes "append_file_ok a" and "65536 - unat (offset (af_buf a)) \<le> length d"
    and "FlushBuffer wr (filled d a) = Inr a1"
  shows "append_file_ok a1" "offset (af_buf a1) = 0"
    "append_file_stream a1 @ drop (65536 - unat (offset (af_buf a))) d = append_file_stream a @ d"
  using FlushBuffer_appends [OF assms(3) filled_ok(1) [OF assms(1,2)]] filled_stream [OF assms(1,2)]
    filled_ok [OF assms(1,2)] assms(1)
  by (simp_all add: append_file_ok_def append_file_stream_def)

lemma Append_appends:
  assumes "append_file_ok a" and "Append wr d a = Inr a'"
  shows "append_file_ok a' \<and> append_file_stream a' = append_file_stream a @ d"
proof (cases "length d < 65536 - unat (offset (af_buf a))")
  case True
  from Append_small [OF assms(1) this, of wr] assms(2) show ?thesis by auto
next
  case False
  let ?rest = "drop (65536 - unat (offset (af_buf a))) d"
  from False have big: "65536 - unat (offset (af_buf a)) \<le> length d" by simp
  obtain a1 where a1: "FlushBuffer wr (filled d a) = Inr a1"
    and tail: "(if length ?rest < 16384 then
        rbind (buf_memcpy (af_buf a1) (unat (offset (af_buf a1))) ?rest) (\<lambda>b.
          Inr (a1\<lparr>af_buf := b\<lparr>offset := offset b + of_nat (length ?rest)\<rparr>\<rparr>))
      else WriteDirect wr ?rest a1) = Inr a'"
    using assms(2) Append_big [OF assms(1) big, of wr] by (auto simp: rbind_eq_Inr_iff Let_def)
  note f = filled_flush [OF assms(1) big a1]
  show ?thesis
  proof (cases "length ?rest < 16384")
    case True
    then have "unat (of_nat (length ?rest) :: u32) = length ?rest" by (simp add: unat_of_nat)
    then show ?thesis
      using True tail f by (auto simp: append_file_ok_def append_file_stream_def buf_memcpy_in)
  next
    case False
    then have "WriteDirect wr ?rest a1 = Inr a'" "at_end (af_file a1)"
      using tail f(1) by (simp_all add: append_file_ok_def)
    from WriteDirect_appends [OF this] f show ?thesis
      by (auto simp: append_file_ok_def append_file_stream_def)
  qed
qed

lemma Append_fails:
  assumes "append_file_ok a" and "Append wr d a = Inl e"
  shows "e = AssertFail"
proof -
  have big: "65536 - unat (offset (af_buf a)) \<le> length d"
    using Append_small [OF assms(1), of d wr] assms(2) by fastforce
  note app = assms(2) Append_big [OF assms(1) big, of wr]
  show ?thesis
  proof (cases "FlushBuffer wr (filled d a)")
    case (Inl e')
    then show ?thesis
      using app FlushBuffer_fails [OF Inl] filled_ok [OF assms(1) big] by simp
  next
    case (Inr a1)
    then show ?thesis
      using app filled_flush [OF assms(1) big Inr] WriteDirect_fails
      by (auto simp: Let_def append_file_ok_def buf_memcpy_in split: if_splits)
  qed
qed

interpretation file_sink: byte_sink append_file_ok append_file_stream "Append wr" for wr
  by unfold_locales (fact Append_appends, fact Append_fails)

lemma WriteDirect_all: "af_fd a \<noteq> -1 \<Longrightarrow> \<exists>a'. WriteDirect write_all d a = Inr a'"
  by (simp add: WriteDirect_def)

lemma FlushBuffer_all:
  assumes "af_fd a \<noteq> -1" and "unat (offset (af_buf a)) \<le> length (bufptr (af_buf a))"
  shows "\<exists>a'. FlushBuffer write_all a = Inr a'"
  using WriteDirect_all assms by (auto simp: FlushBuffer_def rbind_eq_Inr_iff)

interpretation file_total: total_sink append_file_ok append_file_stream "Append write_all"
proof
  fix a :: AppendFile and d :: bytes
  assume ok: "append_file_ok a"
  show "\<exists>a'. Append write_all d a = Inr a'"
  proof (cases "length d < 65536 - unat (offset (af_buf a))")
    case True
    then show ?thesis using Append_small [OF ok] by blast
  next
    case False
    then have big: "65536 - unat (offset (af_buf a)) \<le> length d" by simp
    have at_end: "at_end (af_file (filled d a))" and fd: "af_fd (filled d a) \<noteq> -1"
      and len: "unat (offset (af_buf (filled d a))) \<le> length (bufptr (af_buf (filled d a)))"
      using ok big by (simp_all add: append_file_ok_def filled_def Let_def)
    obtain a1 where a1: "FlushBuffer write_all (filled d a) = Inr a1"
      using FlushBuffer_all [OF fd len] by blast
    have "length (bufptr (af_buf a1)) = 65536" "offset (af_buf a1) = 0" "af_fd a1 \<noteq> -1"
      using FlushBuffer_appends [OF a1 at_end] ok big
      by (simp_all add: append_file_ok_def filled_def Let_def)
    then show ?thesis
      using a1 Append_big [OF ok big, of write_all] WriteDirect_all
      by (simp add: Let_def buf_memcpy_in)
  qed
qed

lemma AppendFile_Init_ok:
  assumes "fd \<ge> 0"
  shows "append_file_ok (AppendFile_Init (fd, []) path filename AppendFile_ctor) \<and>
    append_file_stream (AppendFile_Init (fd, []) path filename AppendFile_ctor) = []"
  using assms
  by (simp add: AppendFile_Init_def AppendFile_ctor_def Buffer_ctor_def append_file_ok_def
      append_file_stream_def at_end_def Let_def)

declare AppendFile_Read_loop.simps [simp del]

lemma AppendFile_Read_loop_all:
  "AppendFile_Read_loop data f =
     (data @ drop (of_pos f) (of_content f),
      f\<lparr>of_pos := max (of_pos f) (length (of_content f))\<rparr>)"
proof (induction data f rule: AppendFile_Read_loop.induct)
  case (1 data f)
  let ?d = "take 4096000 (drop (of_pos f) (of_content f))"
  show ?case
  proof (cases "?d = []")
    case True
    then show ?thesis
      by (simp add: AppendFile_Read_loop.simps [of data f] sys_read_def Let_def)
  next
    case False
    have "?d @ drop (of_pos f + length ?d) (of_content f) = drop (of_pos f) (of_content f)"
      using append_take_drop_id [of 4096000 "drop (of_pos f) (of_content f)"]
      by (simp add: min_def add.commute)
    moreover have "max (of_pos f + length ?d) (length (of_content f))
        = max (of_pos f) (length (of_content f))"
      by auto
    ultimately show ?thesis
      using False 1 [OF _ _ False]
      by (simp add: AppendFile_Read_loop.simps [of data f] sys_read_def Let_def del: length_take)
  qed
qed

lemma AppendFile_Read_all: "fst (AppendFile_Read data a) = data @ of_content (af_file a)"
  by (simp add: AppendFile_Read_def AppendFile_Read_loop_all sys_lseek_def split: prod.splits)

section \<open>Properties\<close>

text \<open>Property C24. Whatever pieces are appended to a fresh \<open>AppendFile\<close>, through its buffer
  or around it, flushing and reading back yields their concatenation. The only way to fail
  is the assertion that a write was complete, and a system that writes everything never
  trips it.\<close>

theorem AppendFile_round_trip:
  assumes "fd \<ge> 0"
  shows "(case rbind (byte_sink.puts (Append wr) ds (AppendFile_Init (fd, []) path name AppendFile_ctor))
            (\<lambda>a. rbind (FlushBuffer wr a) (\<lambda>a. Inr (fst (AppendFile_Read [] a)))) of
      Inr data \<Rightarrow> data = concat ds
    | Inl e \<Rightarrow> e = AssertFail \<and> wr \<noteq> write_all)"
proof -
  let ?a = "AppendFile_Init (fd, []) path name AppendFile_ctor"
  note ok = conjunct1 [OF AppendFile_Init_ok [OF assms, of path name]]
    and empty = conjunct2 [OF AppendFile_Init_ok [OF assms, of path name]]
  show ?thesis
  proof (cases "byte_sink.puts (Append wr) ds ?a")
    case (Inl e)
    then show ?thesis
      using file_sink.puts_fails [OF ok Inl] file_total.puts_total [OF ok, of ds] by auto
  next
    case (Inr a)
    then have a: "append_file_ok a" "append_file_stream a = concat ds"
      using file_sink.puts_appends [OF ok Inr] empty by auto
    then have fd: "af_fd a \<noteq> -1" "at_end (af_file a)"
      and len: "unat (offset (af_buf a)) \<le> length (bufptr (af_buf a))"
      by (simp_all add: append_file_ok_def)
    show ?thesis
    proof (cases "FlushBuffer wr a")
      case (Inl e)
      then show ?thesis
        using Inr FlushBuffer_fails [OF Inl len] FlushBuffer_all [OF fd(1) len] by auto
    next
      case f: (Inr a')
      then show ?thesis
        using Inr a FlushBuffer_appends [OF f fd(2)] by (simp add: AppendFile_Read_all)
    qed
  qed
qed

theorem AppendFile_round_trip_witness:
  "(3::int) \<ge> 0 \<and>
   (case rbind (byte_sink.puts (Append write_all) [[1, 2], [3]]
            (AppendFile_Init (3, []) [46] [97] AppendFile_ctor))
         (\<lambda>a. rbind (FlushBuffer write_all a) (\<lambda>a. Inr (fst (AppendFile_Read [] a)))) of
      Inr data \<Rightarrow> data = concat [[1, 2], [3]]
    | Inl e \<Rightarrow> e = AssertFail \<and> write_all \<noteq> write_all)"
  using AppendFile_round_trip [of 3 write_all "[[1, 2], [3]]" "[46]" "[97]"] by simp

text \<open>After a successful \<open>Init\<close> of a nonempty file whose mapping has the size
  \<open>stat\<close> reported, \<open>Read\<close> returns exactly the requested slice or refuses a range that
  ends behind the file, as long as \<open>offset + n\<close> does not wrap.\<close>

lemma ReadonlyFile_Read_slice:
  assumes "ReadonlyFile_Init sys path filename r = (True, r')"
    and "ro_stat sys = Some n0" and "n0 > 0" and "unat n0 = length (ro_content sys)"
    and "unat off + unat n < 2 ^ 64"
  shows "ReadonlyFile_Read off n r' = Inr
    (if unat off + unat n \<le> length (ro_content sys)
     then Some (take (unat n) (drop (unat off) (ro_content sys))) else None)"
proof -
  have "unat (off + n) = unat off + unat n"
    using assms(5) by (simp add: unat_word_ariths(1))
  then have "off + n > n0 \<longleftrightarrow> \<not> unat off + unat n \<le> length (ro_content sys)"
    using assms(4) by (simp add: word_less_nat_alt not_le)
  moreover have "rf_mmap_base r' = Some (ro_content sys)" "rf_length r' = n0"
    using assms(1-4) by (auto simp: ReadonlyFile_Init_def Let_def split: if_splits)
  ultimately show ?thesis
    by (simp add: ReadonlyFile_Read_def)
qed

end
