(* ===== verification/Wal.thy ===== *)
theory Wal
  imports Key_Format Crc32 Files
begin

text \<open>
  The write-ahead log: the record formats of \<open>src/db/key_format.cpp\<close> and the ring writer of
  \<open>src/db/wal_writer.cpp\<close>. \<open>fmt::format\<close> with plain \<open>{}\<close> fields on strings is
  concatenation; the aligned fields of the other two formats are \<open>fmt_right\<close>. The address
  of the string's buffer is the argument \<open>base\<close>, on which only the alignment prologue of the
  checksum depends.
\<close>

section \<open>Record formats\<close>

text \<open>
  The literal of \<open>kFlagLogEnd\<close> goes on with NUL bytes, which the constructor from a
  \<open>const char*\<close> does not see.
\<close>

definition kFlagLogEnd :: bytes where
  "kFlagLogEnd = [13, 10, 13, 10]"

definition kDefaultWalLogSize :: u32 where
  "kDefaultWalLogSize = 64 * 1024 * 1024"

fun decimal :: "nat \<Rightarrow> bytes" where
  "decimal n = (if n < 10 then [of_nat (48 + n)] else decimal (n div 10) @ [of_nat (48 + n mod 10)])"

declare decimal.simps [simp del]

definition fmt_right :: "u8 \<Rightarrow> nat \<Rightarrow> nat \<Rightarrow> bytes \<Rightarrow> bytes" where
  "fmt_right fill width len s = replicate (width - len) fill @ s"

definition SetContextWalLogFormat :: "u64 \<Rightarrow> SetContext \<Rightarrow> u64 \<Rightarrow> bytes res" where
  "SetContextWalLogFormat base set_context number =
     (let log = kEmpty4Space @ kEmpty8Space @ [32] @ kEmpty4Space @ kEmpty4Space @
                set_key set_context @ set_value set_context @ kFlagLogEnd in
      rbind (Value base (c_str log) 4 (length log - 4)) (\<lambda>crc32_check_sum.
      rbind (str_puts log 0 (formatEncodeFixed32 crc32_check_sum)) (\<lambda>log.
      rbind (str_puts log 4 (formatEncodeFixed64 number)) (\<lambda>log.
      rbind (str_puts log 12 (formatEncodeFixed8 (of_nat (request_int kSet_Request)))) (\<lambda>log.
      rbind (str_puts log 13 (formatEncodeFixed32 (size32 (set_key set_context)))) (\<lambda>log.
        str_puts log 17 (formatEncodeFixed32 (size32 (set_value set_context)))))))))"

definition PutContextWalLogFormat :: "u64 \<Rightarrow> PutContext \<Rightarrow> u64 \<Rightarrow> bytes res" where
  "PutContextWalLogFormat base put_context number =
     (let dec = (\<lambda>fill w n. let s = decimal n in fmt_right fill w (length s) s);
          log = [32, 32, 32, 32] @ dec 48 8 (unat number) @
                dec 48 1 (request_int kPut_Request) @
                dec 32 4 (length (put_key put_context)) @
                dec 32 4 (length (put_value put_context)) @
                put_key put_context @ put_value put_context @ kFlagLogEnd in
      rbind (Value base (c_str log) 4 (length log - 4)) (\<lambda>crc32_check_sum.
        str_puts log 0 (formatEncodeFixed32 crc32_check_sum)))"

text \<open>
  The fourth field of the delete format, \<open>{:>4}\<close>, is the key itself; \<open>fmt_width\<close> is the
  display width the formatting library assigns to it.
\<close>

definition DeleteContextWalLogFormat ::
  "(bytes \<Rightarrow> nat) \<Rightarrow> u64 \<Rightarrow> DeleteContext \<Rightarrow> u64 \<Rightarrow> bytes res" where
  "DeleteContextWalLogFormat fmt_width base del_context number =
     (let dec = (\<lambda>fill w n. let s = decimal n in fmt_right fill w (length s) s);
          log = [32, 32, 32, 32] @ dec 48 8 (unat number) @
                dec 48 1 (request_int kDel_Request) @
                dec 32 4 (length (del_key del_context)) @
                fmt_right 32 4 (fmt_width (del_key del_context)) (del_key del_context) @
                kFlagLogEnd in
      rbind (Value base (c_str log) 4 (length log - 4)) (\<lambda>crc32_check_sum.
        str_puts log 0 (formatEncodeFixed32 crc32_check_sum)))"

section \<open>WalWriter\<close>

record WalWriter =
  current_log_size :: u32
  ww_wal_log_size :: u32
  wal_file :: WalLog

definition WalWriter_ctor :: "WalLog \<Rightarrow> WalWriter" where
  "WalWriter_ctor garbage =
     \<lparr>current_log_size = 0, ww_wal_log_size = kDefaultWalLogSize, wal_file = garbage\<rparr>"

definition WalWriter_Init ::
  "int \<times> bytes \<Rightarrow> bytes \<Rightarrow> bytes \<Rightarrow> Status \<Rightarrow> WalWriter \<Rightarrow> bool \<times> Status \<times> WalWriter" where
  "WalWriter_Init opened path filename status w =
     (let (ue, f) = WalLog_Init opened path filename (wal_file w); w = w\<lparr>wal_file := f\<rparr> in
      if ue then
        (False, setCode kOk status,
         w\<lparr>current_log_size := current_log_size w + WalLog_getFileSize f\<rparr>)
      else (False, setCode kIoError status, w))"

definition WalWriter_AddRecord :: "sys_wr \<Rightarrow> bytes \<Rightarrow> WalWriter \<Rightarrow> (bool \<times> WalWriter) res" where
  "WalWriter_AddRecord wr record w =
     (let w = w\<lparr>current_log_size := current_log_size w + size32 record\<rparr>;
          w = (if current_log_size w \<ge> ww_wal_log_size w
               then w\<lparr>wal_file := WalLog_SeekBegin (wal_file w), current_log_size := 0\<rparr>
               else w) in
      rbind (WalLog_AddRecord wr record (wal_file w)) (\<lambda>f. Inr (True, w\<lparr>wal_file := f\<rparr>)))"

definition SetWalLogDefultSize :: "u32 \<Rightarrow> WalWriter \<Rightarrow> WalWriter" where
  "SetWalLogDefultSize log_size w = w\<lparr>ww_wal_log_size := log_size\<rparr>"

definition WalWriter_ReadLog :: "nat \<Rightarrow> WalWriter \<Rightarrow> bytes \<times> WalWriter" where
  "WalWriter_ReadLog n w =
     (let (d, f) = WalLog_Read n (wal_file w) in (d, w\<lparr>wal_file := f\<rparr>))"

definition WalWriter_dtor :: "WalWriter \<Rightarrow> WalWriter" where
  "WalWriter_dtor w = w\<lparr>wal_file := WalLog_Close (wal_file w)\<rparr>"

section \<open>Lemmas on the formats\<close>

text \<open>The payload the set format computes its checksum over: the fields are still blank.\<close>

definition set_template :: "SetContext \<Rightarrow> bytes" where
  "set_template c = replicate 17 32 @ set_key c @ set_value c @ kFlagLogEnd"

definition set_record :: "SetContext \<Rightarrow> u64 \<Rightarrow> bytes" where
  "set_record c number = formatEncodeFixed64 number @ [0] @ formatEncodeFixed32 (size32 (set_key c)) @
     formatEncodeFixed32 (size32 (set_value c)) @ set_key c @ set_value c @ kFlagLogEnd"

lemma length_kEmpty [simp]: "length kEmpty4Space = 4" "length kEmpty8Space = 8"
  by (simp_all add: kEmpty_defs)

lemma SetContextWalLogFormat_eq:
  "SetContextWalLogFormat base c number =
     Inr (formatEncodeFixed32 (crc32c 0 (set_template c)) @ set_record c number)"
proof -
  define body where "body = set_key c @ set_value c @ kFlagLogEnd"
  define log where "log = kEmpty4Space @ kEmpty8Space @ [32] @ kEmpty4Space @ kEmpty4Space @ body"
  have "take (length log - 4) (drop 4 (c_str log)) = set_template c"
    by (simp add: log_def body_def c_str_def kEmpty_defs set_template_def numeral_eq_Suc)
  then have crc: "Value base (c_str log) 4 (length log - 4) = Inr (crc32c 0 (set_template c))"
    by (simp add: Value_def Extend_crc32c log_def)
  define f0 where "f0 = formatEncodeFixed32 (crc32c 0 (set_template c))"
  define f1 where "f1 = formatEncodeFixed64 number"
  define f2 where "f2 = formatEncodeFixed8 (of_nat (request_int kSet_Request))"
  define f3 where "f3 = formatEncodeFixed32 (size32 (set_key c))"
  define f4 where "f4 = formatEncodeFixed32 (size32 (set_value c))"
  have len [simp]: "length f0 = 4" "length f1 = 8" "length f2 = 1" "length f3 = 4" "length f4 = 4"
    by (simp_all add: f0_def f1_def f2_def f3_def f4_def)
  have p0: "str_puts log 0 f0 = Inr (f0 @ kEmpty8Space @ [32] @ kEmpty4Space @ kEmpty4Space @ body)"
    unfolding log_def by (rule str_puts_start) simp
  have p1: "str_puts (f0 @ kEmpty8Space @ [32] @ kEmpty4Space @ kEmpty4Space @ body) 4 f1
      = Inr (f0 @ f1 @ [32] @ kEmpty4Space @ kEmpty4Space @ body)"
    by (rule str_puts_append) simp_all
  have p2: "str_puts (f0 @ f1 @ [32] @ kEmpty4Space @ kEmpty4Space @ body) 12 f2
      = Inr (f0 @ f1 @ f2 @ kEmpty4Space @ kEmpty4Space @ body)"
    using str_puts_append [of 12 "f0 @ f1" "[32]" f2] by simp
  have p3: "str_puts (f0 @ f1 @ f2 @ kEmpty4Space @ kEmpty4Space @ body) 13 f3
      = Inr (f0 @ f1 @ f2 @ f3 @ kEmpty4Space @ body)"
    using str_puts_append [of 13 "f0 @ f1 @ f2" kEmpty4Space f3] by simp
  have p4: "str_puts (f0 @ f1 @ f2 @ f3 @ kEmpty4Space @ body) 17 f4
      = Inr (f0 @ f1 @ f2 @ f3 @ f4 @ body)"
    using str_puts_append [of 17 "f0 @ f1 @ f2 @ f3" kEmpty4Space f4] by simp
  have "SetContextWalLogFormat base c number = Inr (f0 @ f1 @ f2 @ f3 @ f4 @ body)"
    unfolding SetContextWalLogFormat_def Let_def body_def [symmetric] log_def [symmetric] crc
      rbind.simps f0_def [symmetric] f1_def [symmetric] f2_def [symmetric] f3_def [symmetric]
      f4_def [symmetric] p0 p1 p2 p3 p4 ..
  then show ?thesis
    by (simp add: f0_def f1_def f2_def f3_def f4_def set_record_def body_def formatEncodeFixed8_def)
qed

lemma fixed_crc_head:
  "rbind (Value base (c_str ([32, 32, 32, 32] @ body)) 4 (length ([32, 32, 32, 32] @ body) - 4))
      (\<lambda>c. str_puts ([32, 32, 32, 32] @ body) 0 (formatEncodeFixed32 c))
    = Inr (formatEncodeFixed32 (crc32c 0 body) @ body)"
proof -
  have "Value base (c_str ([32, 32, 32, 32] @ body)) 4 (length ([32, 32, 32, 32] @ body) - 4)
      = Inr (crc32c 0 body)"
    by (simp add: Value_def Extend_crc32c c_str_def)
  moreover have "str_puts ([32, 32, 32, 32] @ body) 0 (formatEncodeFixed32 (crc32c 0 body))
      = Inr (formatEncodeFixed32 (crc32c 0 body) @ body)"
    by (rule str_puts_start) simp
  ultimately show ?thesis by (simp only: rbind.simps)
qed

section \<open>Lemmas on the ring\<close>

lemma WalWriter_AddRecord_eq:
  "WalWriter_AddRecord wr record w =
     (let size = current_log_size w + size32 record;
          wrap = size \<ge> ww_wal_log_size w;
          f = (if wrap then WalLog_SeekBegin (wal_file w) else wal_file w) in
      rbind (WalLog_AddRecord wr record f) (\<lambda>f.
        Inr (True, w\<lparr>current_log_size := if wrap then 0 else size, wal_file := f\<rparr>)))"
  by (auto simp: WalWriter_AddRecord_def Let_def)

fun AddRecords :: "sys_wr \<Rightarrow> bytes list \<Rightarrow> WalWriter \<Rightarrow> WalWriter res" where
  "AddRecords wr [] w = Inr w"
| "AddRecords wr (r # rs) w = rbind (WalWriter_AddRecord wr r w) (\<lambda>(_, w). AddRecords wr rs w)"

text \<open>
  The ring invariant for records of at most \<open>R\<close> bytes: the write offset is at most \<open>R\<close>
  ahead of the counter, the counter is below the threshold and the file within both.
\<close>

definition ring_ok :: "nat \<Rightarrow> WalWriter \<Rightarrow> bool" where
  "ring_ok R w \<longleftrightarrow> wl_fd (wal_file w) > 0 \<and>
     unat (current_log_size w) < unat (ww_wal_log_size w) \<and>
     of_pos (wl_file (wal_file w)) \<le> unat (current_log_size w) + R \<and>
     length (of_content (wl_file (wal_file w))) \<le> unat (ww_wal_log_size w) + R"

lemma ring_ok_AddRecord:
  assumes "ring_ok R w" and "length record \<le> R" and "unat (ww_wal_log_size w) + R < 2 ^ 32"
    and "WalWriter_AddRecord wr record w = Inr (b, w')"
  shows "ring_ok R w' \<and> ww_wal_log_size w' = ww_wal_log_size w"
proof -
  let ?size = "current_log_size w + size32 record"
  let ?wrap = "?size \<ge> ww_wal_log_size w"
  let ?f = "if ?wrap then WalLog_SeekBegin (wal_file w) else wal_file w"
  have size: "unat ?size = unat (current_log_size w) + length record"
    using assms(1-3) by (intro unat_add_of_nat_u32) (auto simp: ring_ok_def)
  obtain f where f: "WalLog_AddRecord wr record ?f = Inr f"
    and w': "w' = w\<lparr>current_log_size := if ?wrap then 0 else ?size, wal_file := f\<rparr>"
    using assms(4) by (auto simp: WalWriter_AddRecord_eq Let_def rbind_eq_Inr_iff split: if_splits)
  obtain g where g: "sys_write wr (wl_file ?f) record = (int (length record), g)"
    and fg: "f = ?f\<lparr>wl_file := g\<rparr>"
    using f by (auto simp: WalLog_AddRecord_def rbind_eq_Inr_iff split: prod.splits)
  have pos: "of_pos g = of_pos (wl_file ?f) + length record"
    and len: "length (of_content g) = max (length (of_content (wl_file ?f))) (of_pos g)"
    using sys_write_complete [OF g] by (simp_all add: length_put_at)
  show ?thesis
  proof (cases ?wrap)
    case True
    then show ?thesis
      using assms(1,2) pos len fg w'
      by (auto simp: ring_ok_def WalLog_SeekBegin_def sys_lseek_def)
  next
    case False
    then have "unat ?size < unat (ww_wal_log_size w)"
      by (simp add: word_le_nat_alt not_le)
    then show ?thesis
      using False assms(1) pos len fg w' size by (auto simp: ring_ok_def)
  qed
qed

lemma ring_ok_AddRecords:
  assumes "ring_ok R w" and "\<forall>r \<in> set rs. length r \<le> R" and "unat (ww_wal_log_size w) + R < 2 ^ 32"
    and "AddRecords wr rs w = Inr w'"
  shows "ring_ok R w' \<and> ww_wal_log_size w' = ww_wal_log_size w"
  using assms
proof (induction rs arbitrary: w)
  case (Cons r rs)
  then obtain b w1 where w1: "WalWriter_AddRecord wr r w = Inr (b, w1)" "AddRecords wr rs w1 = Inr w'"
    by (auto simp: rbind_eq_Inr_iff)
  then have "ring_ok R w1 \<and> ww_wal_log_size w1 = ww_wal_log_size w"
    using ring_ok_AddRecord [OF Cons.prems(1) _ Cons.prems(3) w1(1)] Cons.prems(2) by simp
  then show ?case
    using Cons.IH [of w1] w1(2) Cons.prems by simp
qed simp

text \<open>Below the threshold the writer only forwards its records to the file.\<close>

lemma AddRecords_no_wrap:
  assumes "unat (current_log_size w) + length (concat rs) < unat (ww_wal_log_size w)"
  shows "AddRecords wr rs w =
    rbind (byte_sink.puts (WalLog_AddRecord wr) rs (wal_file w)) (\<lambda>f.
      Inr (w\<lparr>current_log_size := current_log_size w + size32 (concat rs), wal_file := f\<rparr>))"
  using assms
proof (induction rs arbitrary: w)
  case (Cons r rs)
  have size: "unat (current_log_size w + size32 r) = unat (current_log_size w) + length r"
    using Cons.prems unat_u32_less [of "ww_wal_log_size w"] by (intro unat_add_of_nat_u32) simp
  then have wrap: "\<not> ww_wal_log_size w \<le> current_log_size w + size32 r"
    using Cons.prems by (simp add: word_le_nat_alt)
  have "AddRecords wr rs (w\<lparr>current_log_size := current_log_size w + size32 r, wal_file := f\<rparr>)
      = rbind (byte_sink.puts (WalLog_AddRecord wr) rs f) (\<lambda>f.
          Inr (w\<lparr>current_log_size := current_log_size w + size32 r + size32 (concat rs),
                 wal_file := f\<rparr>))" for f
    using Cons.prems size
      Cons.IH [of "w\<lparr>current_log_size := current_log_size w + size32 r, wal_file := f\<rparr>"]
    by simp
  then show ?case
    using wrap by (simp add: WalWriter_AddRecord_eq Let_def rbind_assoc wal_sink.puts.simps
        byte_sink.puts.simps add.assoc)
qed simp

lemma WalWriter_Init_opened:
  assumes "fd > 0"
  shows "WalWriter_Init (fd, c) path filename st (WalWriter_ctor g) =
    (False, setCode kOk st,
     \<lparr>current_log_size = of_nat (length c), ww_wal_log_size = kDefaultWalLogSize,
      wal_file = snd (WalLog_Init (fd, c) path filename g)\<rparr>)"
  using assms
  by (simp add: WalWriter_Init_def WalLog_Init_def WalWriter_ctor_def WalLog_getFileSize_def Let_def)

lemma WalLog_Init_file:
  assumes "fd > 0"
  shows "wl_fd (snd (WalLog_Init (fd, c) path filename g)) = fd"
    and "wl_file (snd (WalLog_Init (fd, c) path filename g)) = \<lparr>of_content = c, of_pos = 0\<rparr>"
  using assms by (simp_all add: WalLog_Init_def Let_def)

lemma view_mid:
  "n = length mid \<Longrightarrow> p = length pre \<Longrightarrow> view (pre @ mid @ post) p n = Inr mid"
  by (simp add: view_def)

text \<open>A set record with its parts named, for the decoders.\<close>

lemma set_record_fields:
  fixes crc c number
  defines "log \<equiv> formatEncodeFixed32 crc @ set_record c number"
  shows "length log = 25 + length (set_key c) + length (set_value c)"
    and "formatDecodeFixed32 log 0 = Inr crc"
    and "formatDecodeFixed64 log 4 = Inr number"
    and "formatDecodeFixed8 log 12 = Inr 0"
    and "formatDecodeFixed32 log 13 = Inr (size32 (set_key c))"
    and "formatDecodeFixed32 log 17 = Inr (size32 (set_value c))"
    and "view log 21 (length (set_key c)) = Inr (set_key c)"
    and "view log (21 + length (set_key c)) (length (set_value c)) = Inr (set_value c)"
    and "view log (21 + length (set_key c) + length (set_value c)) 4 = Inr kFlagLogEnd"
proof -
  define f0 f1 f3 f4 where "f0 = formatEncodeFixed32 crc" and "f1 = formatEncodeFixed64 number"
    and "f3 = formatEncodeFixed32 (size32 (set_key c))"
    and "f4 = formatEncodeFixed32 (size32 (set_value c))"
  have len [simp]: "length f0 = 4" "length f1 = 8" "length f3 = 4" "length f4 = 4"
    by (simp_all add: f0_def f1_def f3_def f4_def)
  have log: "log = f0 @ f1 @ [0] @ f3 @ f4 @ set_key c @ set_value c @ kFlagLogEnd"
    by (simp add: log_def set_record_def f0_def f1_def f3_def f4_def)
  show "length log = 25 + length (set_key c) + length (set_value c)"
    by (simp add: log kFlagLogEnd_def)
  show "formatDecodeFixed32 log 0 = Inr crc"
    using decode_encode_fixed32 [of 0 "[]" crc] by (simp add: log f0_def)
  show "formatDecodeFixed64 log 4 = Inr number"
    using decode_encode_fixed64 [of 4 f0 number] by (simp add: log f1_def)
  show "formatDecodeFixed8 log 12 = Inr 0"
    by (simp add: formatDecodeFixed8_def log nth_append)
  show "formatDecodeFixed32 log 13 = Inr (size32 (set_key c))"
    using decode_encode_fixed32 [of 13 "f0 @ f1 @ [0]" "size32 (set_key c)"]
    by (simp add: log flip: f3_def)
  show "formatDecodeFixed32 log 17 = Inr (size32 (set_value c))"
    using decode_encode_fixed32 [of 17 "f0 @ f1 @ [0] @ f3" "size32 (set_value c)"]
    by (simp add: log flip: f4_def)
  show "view log 21 (length (set_key c)) = Inr (set_key c)"
    using view_mid [of "length (set_key c)" "set_key c" 21 "f0 @ f1 @ [0] @ f3 @ f4"] by (simp add: log)
  show "view log (21 + length (set_key c)) (length (set_value c)) = Inr (set_value c)"
    using view_mid [of "length (set_value c)" "set_value c" "21 + length (set_key c)"
        "f0 @ f1 @ [0] @ f3 @ f4 @ set_key c"] by (simp add: log)
  show "view log (21 + length (set_key c) + length (set_value c)) 4 = Inr kFlagLogEnd"
    using view_mid [of 4 kFlagLogEnd "21 + length (set_key c) + length (set_value c)"
        "f0 @ f1 @ [0] @ f3 @ f4 @ set_key c @ set_value c" "[]"]
    by (simp add: log) (simp add: kFlagLogEnd_def)
qed

section \<open>Properties\<close>

text \<open>Property C3. A set record read the way the log is documented yields the sequence number,
  the type, both lengths, key, value and end marker that were formatted, for keys and values
  below 4 GiB.\<close>

theorem SetContextWalLogFormat_round_trip:
  assumes "length (set_key c) < 2 ^ 32" and "length (set_value c) < 2 ^ 32"
  shows "\<exists>log. SetContextWalLogFormat base c number = Inr log \<and>
    formatDecodeFixed64 log 4 = Inr number \<and>
    formatDecodeFixed8 log 12 = Inr (of_nat (request_int kSet_Request)) \<and>
    rbind (formatDecodeFixed32 log 13) (\<lambda>k. rbind (formatDecodeFixed32 log 17) (\<lambda>v.
      rbind (view log 21 (unat k)) (\<lambda>key.
      rbind (view log (21 + unat k) (unat v)) (\<lambda>value.
      rbind (view log (21 + unat k + unat v) 4) (\<lambda>flag. Inr (key, value, flag))))))
      = Inr (set_key c, set_value c, kFlagLogEnd)"
proof -
  have "unat (size32 (set_key c)) = length (set_key c)"
    "unat (size32 (set_value c)) = length (set_value c)"
    using assms by (simp_all add: unat_of_nat)
  then show ?thesis
    by (simp add: SetContextWalLogFormat_eq set_record_fields)
qed

theorem SetContextWalLogFormat_round_trip_witness:
  "\<exists>log. SetContextWalLogFormat 0 (SetContext_ctor 0 [97] [98, 99]) 7 = Inr log \<and>
    formatDecodeFixed64 log 4 = Inr 7"
  using SetContextWalLogFormat_round_trip [of "SetContext_ctor 0 [97] [98, 99]" 0 7]
  by (auto simp: SetContext_ctor_def)

text \<open>The checksum of a set record is taken before the sequence number, the type
  and the lengths are filled in: records that differ in the sequence number have different
  payloads but the same stored checksum.\<close>

lemma set_checksum_ignores_number:
  assumes "n \<noteq> n'"
  shows "\<exists>log log'. SetContextWalLogFormat base c n = Inr log \<and>
    SetContextWalLogFormat base c n' = Inr log' \<and>
    formatDecodeFixed32 log 0 = formatDecodeFixed32 log' 0 \<and> drop 4 log \<noteq> drop 4 log'"
proof -
  have "set_record c n \<noteq> set_record c n'"
    using set_record_fields(3) [of 0 c n] set_record_fields(3) [of 0 c n'] assms by auto
  then show ?thesis
    by (simp add: SetContextWalLogFormat_eq set_record_fields(2))
qed

text \<open>Property C28. Put and delete records carry the checksum of the rest of the record: recomputed over the bytes behind
  it, at whatever address the record lies then, it is the number in the first four bytes.\<close>

theorem put_delete_checksum_valid:
  "rbind (PutContextWalLogFormat base p number) (\<lambda>log. rbind (formatDecodeFixed32 log 0) (\<lambda>crc.
     rbind (Value base' log 4 (length log - 4)) (\<lambda>v. Inr (crc = v)))) = Inr True \<and>
   rbind (DeleteContextWalLogFormat fmt_width base d number) (\<lambda>log.
     rbind (formatDecodeFixed32 log 0) (\<lambda>crc.
     rbind (Value base' log 4 (length log - 4)) (\<lambda>v. Inr (crc = v)))) = Inr True"
proof -
  have check: "rbind (formatDecodeFixed32 (formatEncodeFixed32 (crc32c 0 body) @ body) 0) (\<lambda>crc.
      rbind (Value base' (formatEncodeFixed32 (crc32c 0 body) @ body) 4
        (length (formatEncodeFixed32 (crc32c 0 body) @ body) - 4)) (\<lambda>v. Inr (crc = v))) = Inr True"
    for body
    using decode_encode_fixed32 [of 0 "[]" "crc32c 0 body" body]
    by (simp add: Value_def Extend_crc32c)
  show ?thesis
    unfolding PutContextWalLogFormat_def DeleteContextWalLogFormat_def Let_def fixed_crc_head
      rbind.simps check by simp
qed

text \<open>Property C25. The log file stays within the threshold plus one record: started on a log
  smaller than the threshold, with records of at most \<open>R\<close> bytes, it never holds more than
  \<open>wal_log_size + R\<close> bytes.\<close>

theorem wal_ring_bounded:
  assumes "fd > 0" and "length c < unat kDefaultWalLogSize" and "\<forall>r \<in> set rs. length r \<le> R"
    and "R < 2 ^ 31"
    and "AddRecords wr rs (snd (snd (WalWriter_Init (fd, c) path name st (WalWriter_ctor g)))) = Inr w"
  shows "length (of_content (wl_file (wal_file w))) \<le> unat kDefaultWalLogSize + R"
proof -
  let ?w0 = "snd (snd (WalWriter_Init (fd, c) path name st (WalWriter_ctor g)))"
  have size: "unat (of_nat (length c) :: u32) = length c"
    using assms(2) unat_u32_less [of kDefaultWalLogSize] by (simp add: unat_of_nat)
  have "ring_ok R ?w0"
    using assms(1,2) size
    by (simp add: WalWriter_Init_opened ring_ok_def WalLog_Init_file)
  moreover have "unat (ww_wal_log_size ?w0) = 67108864"
    using assms(1) by (simp add: WalWriter_Init_opened kDefaultWalLogSize_def)
  ultimately show ?thesis
    using ring_ok_AddRecords [OF _ assms(3) _ assms(5)] assms(4)
    by (auto simp: ring_ok_def kDefaultWalLogSize_def)
qed

theorem wal_ring_bounded_witness:
  "\<exists>w. AddRecords write_all [[1], [2, 3]]
      (snd (snd (WalWriter_Init (3, []) [] [97] Status_ctor (WalWriter_ctor
        \<lparr>wl_fd = 0, wl_file = \<lparr>of_content = [], of_pos = 0\<rparr>, wl_fullFilename = [],
         wl_fileName = [], wl_path = []\<rparr>)))) = Inr w \<and>
    length (of_content (wl_file (wal_file w))) \<le> unat kDefaultWalLogSize + 2"
proof -
  let ?g = "\<lparr>wl_fd = 0, wl_file = \<lparr>of_content = [], of_pos = 0\<rparr>, wl_fullFilename = [],
    wl_fileName = [], wl_path = []\<rparr>"
  let ?w0 = "snd (snd (WalWriter_Init (3, []) [] [97] Status_ctor (WalWriter_ctor ?g)))"
  have "\<exists>w. AddRecords write_all [[1], [2, 3]] ?w0 = Inr w"
    by (simp add: WalWriter_AddRecord_eq Let_def WalWriter_Init_opened WalLog_AddRecord_def
        WalLog_Init_file WalLog_SeekBegin_def)
  then obtain w where w: "AddRecords write_all [[1], [2, 3]] ?w0 = Inr w" by blast
  from wal_ring_bounded [OF _ _ _ _ w, of 2] w show ?thesis
    by (simp add: kDefaultWalLogSize_def)
qed

text \<open>Property C8. A log opened on an empty file holds exactly the concatenation of the
  records added so far, until they reach the threshold; the only failure is an incomplete
  write.\<close>

theorem wal_fresh_is_concat:
  assumes "fd > 0" and "length (concat rs) < unat kDefaultWalLogSize"
  shows "case AddRecords wr rs (snd (snd (WalWriter_Init (fd, []) path name st (WalWriter_ctor g)))) of
      Inr w \<Rightarrow> of_content (wl_file (wal_file w)) = concat rs
    | Inl e \<Rightarrow> e = AssertFail \<and> wr \<noteq> write_all"
proof -
  let ?w0 = "snd (snd (WalWriter_Init (fd, []) path name st (WalWriter_ctor g)))"
  have w0: "unat (current_log_size ?w0) + length (concat rs) < unat (ww_wal_log_size ?w0)"
    using assms by (simp add: WalWriter_Init_opened)
  have ok: "wal_log_ok (wal_file ?w0)" and empty: "wal_log_stream (wal_file ?w0) = []"
    using assms(1)
    by (simp_all add: WalWriter_Init_opened WalLog_Init_file wal_log_ok_def wal_log_stream_def at_end_def)
  show ?thesis
  proof (cases "byte_sink.puts (WalLog_AddRecord wr) rs (wal_file ?w0)")
    case (Inl e)
    then show ?thesis
      using wal_sink.puts_fails [OF ok Inl] wal_total.puts_total [OF ok, of rs]
      by (auto simp: AddRecords_no_wrap [OF w0])
  next
    case (Inr f)
    then show ?thesis
      using wal_sink.puts_appends [OF ok Inr] empty
      by (simp add: AddRecords_no_wrap [OF w0] wal_log_stream_def)
  qed
qed

theorem wal_fresh_is_concat_witness:
  "case AddRecords write_all [[1], [2, 3]]
      (snd (snd (WalWriter_Init (3, []) [] [97] Status_ctor (WalWriter_ctor
        \<lparr>wl_fd = 0, wl_file = \<lparr>of_content = [], of_pos = 0\<rparr>, wl_fullFilename = [],
         wl_fileName = [], wl_path = []\<rparr>)))) of
      Inr w \<Rightarrow> of_content (wl_file (wal_file w)) = concat [[1], [2, 3]]
    | Inl e \<Rightarrow> e = AssertFail \<and> write_all \<noteq> write_all"
  by (rule wal_fresh_is_concat) (simp_all add: kDefaultWalLogSize_def)

text \<open>Property C34. Reopening an existing log does not continue it: the file is opened at
  offset 0, so the first record overwrites the oldest bytes.\<close>

theorem wal_reopen_overwrites:
  assumes "fd > 0" and "length c + length r < unat kDefaultWalLogSize"
  shows "\<exists>w. AddRecords write_all [r] (snd (snd (WalWriter_Init (fd, c) path name st (WalWriter_ctor g))))
      = Inr w \<and> of_content (wl_file (wal_file w)) = r @ drop (length r) c"
proof -
  let ?w0 = "snd (snd (WalWriter_Init (fd, c) path name st (WalWriter_ctor g)))"
  have "unat (of_nat (length c) :: u32) = length c"
    using assms(2) unat_u32_less [of kDefaultWalLogSize] by (simp add: unat_of_nat)
  then have w0: "unat (current_log_size ?w0) + length (concat [r]) < unat (ww_wal_log_size ?w0)"
    using assms by (simp add: WalWriter_Init_opened)
  show ?thesis
    unfolding AddRecords_no_wrap [OF w0] using assms(1)
    by (simp add: wal_sink.puts.simps WalWriter_Init_opened WalLog_Init_file WalLog_AddRecord_def
        put_at_def)
qed

theorem wal_reopen_overwrites_witness:
  "\<exists>w. AddRecords write_all [[9]] (snd (snd (WalWriter_Init (3, [1, 2, 3]) [] [97] Status_ctor
      (WalWriter_ctor \<lparr>wl_fd = 0, wl_file = \<lparr>of_content = [], of_pos = 0\<rparr>,
        wl_fullFilename = [], wl_fileName = [], wl_path = []\<rparr>)))) = Inr w \<and>
    of_content (wl_file (wal_file w)) = [9] @ drop (length [9 :: u8]) [1, 2, 3]"
  by (rule wal_reopen_overwrites) (simp_all add: kDefaultWalLogSize_def)

end
