(* ===== verification/Bloom.thy ===== *)
theory Bloom
  imports Prelude
begin

text \<open>
  The bit set of \<open>src/util/bitset.hpp\<close> and the Bloom filter of \<open>src/util/bloomfilter.hpp\<close>.
  The template argument \<open>N\<close> is an argument of the operations; the four hash functions are
  the record \<open>hashers\<close> (\<open>XXHash64::hash\<close>, \<open>std::hash\<close>, \<open>CityHash64WithSeed\<close> and
  \<open>util::Hash64WithSeed\<close>), so that what is shown holds for every choice of them.

  The locale \<open>key_filter\<close> states what the memtables rely on: a key that was inserted is
  reported as possibly present from then on.
\<close>

section \<open>BitSet\<close>

definition kset_Remain_Idx :: bytes where
  "kset_Remain_Idx = [1, 2, 4, 8, 16, 32, 64, 128]"

definition kdel_Remain_Idx :: bytes where
  "kdel_Remain_Idx = [254, 253, 251, 247, 239, 223, 191, 127]"

record BitSet =
  bs_data :: bytes
  bs_data_size :: u32

definition BitSet_ctor :: "nat \<Rightarrow> BitSet" where
  "BitSet_ctor N = \<lparr>bs_data = replicate (N div 8) 0, bs_data_size = of_nat (N div 8)\<rparr>"

definition BitSet_view :: "bytes \<Rightarrow> u32 \<Rightarrow> BitSet" where
  "BitSet_view data_view data_size = \<lparr>bs_data = data_view, bs_data_size = data_size\<rparr>"

definition bs_set :: "u32 \<Rightarrow> BitSet \<Rightarrow> BitSet res" where
  "bs_set idx b =
     (let pre_idx = unat (idx div 8); remain_idx = unat (idx mod 8) in
      rbind (rd (bs_data b) pre_idx) (\<lambda>c. rbind (rd kset_Remain_Idx remain_idx) (\<lambda>k.
        Inr (b\<lparr>bs_data := (bs_data b)[pre_idx := c OR k]\<rparr>))))"

definition bs_del :: "u32 \<Rightarrow> BitSet \<Rightarrow> BitSet res" where
  "bs_del idx b =
     (let pre_idx = unat (idx div 8); remain_idx = unat (idx mod 8) in
      rbind (rd (bs_data b) pre_idx) (\<lambda>c. rbind (rd kdel_Remain_Idx remain_idx) (\<lambda>k.
        Inr (b\<lparr>bs_data := (bs_data b)[pre_idx := c AND k]\<rparr>))))"

definition bs_test :: "u32 \<Rightarrow> BitSet \<Rightarrow> bool res" where
  "bs_test idx b =
     (let pre_idx = unat (idx div 8); remain_idx = unat (idx mod 8) in
      rbind (rd (bs_data b) pre_idx) (\<lambda>c. rbind (rd kset_Remain_Idx remain_idx) (\<lambda>k.
        Inr (c AND k \<noteq> 0))))"

section \<open>BloomFilter\<close>

record hashers =
  xx_hash :: "bytes \<Rightarrow> u64 \<Rightarrow> u64"
  std_hash :: "bytes \<Rightarrow> u64"
  city_hash :: "bytes \<Rightarrow> u64 \<Rightarrow> u64"
  farm_hash :: "bytes \<Rightarrow> u64 \<Rightarrow> u64"

definition kBloomFilterDefaultSize :: nat where
  "kBloomFilterDefaultSize = 2 * 1024 * 1024"

record BloomFilter =
  bf_seed :: u64
  bf_filter :: BitSet

definition BloomFilter_ctor :: "nat \<Rightarrow> BloomFilter" where
  "BloomFilter_ctor N = \<lparr>bf_seed = 12, bf_filter = BitSet_ctor N\<rparr>"

definition BloomFilter_view :: "bytes \<Rightarrow> u32 \<Rightarrow> u64 \<Rightarrow> BloomFilter" where
  "BloomFilter_view bitset_data bitset_data_size seed =
     \<lparr>bf_seed = seed, bf_filter = BitSet_view bitset_data bitset_data_size\<rparr>"

text \<open>The index \<open>hash % N\<close>, passed as a \<open>uint32_t\<close>.\<close>

definition bf_idx :: "nat \<Rightarrow> u64 \<Rightarrow> u32" where
  "bf_idx N h = ucast (h mod of_nat N)"

definition bf_Insert :: "hashers \<Rightarrow> nat \<Rightarrow> bytes \<Rightarrow> BloomFilter \<Rightarrow> BloomFilter res" where
  "bf_Insert H N key f =
     (let idx_1 = xx_hash H key (bf_seed f);
          idx_2 = std_hash H key;
          idx_3 = city_hash H key (bf_seed f);
          idx_4 = farm_hash H key (bf_seed f) in
      rbind (bs_set (bf_idx N idx_1) (bf_filter f)) (\<lambda>b.
      rbind (bs_set (bf_idx N idx_2) b) (\<lambda>b.
      rbind (bs_set (bf_idx N idx_3) b) (\<lambda>b.
      rbind (bs_set (bf_idx N idx_4) b) (\<lambda>b. Inr (f\<lparr>bf_filter := b\<rparr>))))))"

definition bf_IsMatch :: "hashers \<Rightarrow> nat \<Rightarrow> bytes \<Rightarrow> BloomFilter \<Rightarrow> bool res" where
  "bf_IsMatch H N key f =
     (let b = bf_filter f in
      rbind (bs_test (bf_idx N (xx_hash H key (bf_seed f))) b) (\<lambda>t.
      if \<not> t then Inr False else
      rbind (bs_test (bf_idx N (std_hash H key)) b) (\<lambda>t.
      if \<not> t then Inr False else
      rbind (bs_test (bf_idx N (city_hash H key (bf_seed f))) b) (\<lambda>t.
      if \<not> t then Inr False else
      rbind (bs_test (bf_idx N (farm_hash H key (bf_seed f))) b) (\<lambda>t.
      if \<not> t then Inr False else Inr True)))))"

definition bf_setSeed :: "u64 \<Rightarrow> BloomFilter \<Rightarrow> BloomFilter" where
  "bf_setSeed seed f = f\<lparr>bf_seed := seed\<rparr>"

definition bf_getBitSetSize :: "BloomFilter \<Rightarrow> u32" where
  "bf_getBitSetSize f = bs_data_size (bf_filter f)"

section \<open>The bit set\<close>

lemma below_8: "i < 8 \<Longrightarrow> i \<in> {0, 1, 2, 3, 4, 5, 6, 7 :: nat}"
  by auto

lemma kset_bit: "i < 8 \<Longrightarrow> kset_Remain_Idx ! i = 2 ^ i"
  using below_8 [of i] by (auto simp: kset_Remain_Idx_def)

lemma kdel_bit: "i < 8 \<Longrightarrow> kdel_Remain_Idx ! i = NOT (2 ^ i)"
  using below_8 [of i] by (auto simp: kdel_Remain_Idx_def)

lemma length_Remain_Idx [simp]: "length kset_Remain_Idx = 8" "length kdel_Remain_Idx = 8"
  by (simp_all add: kset_Remain_Idx_def kdel_Remain_Idx_def)

text \<open>The bit set as a predicate on bit numbers.\<close>

definition bs_bit :: "BitSet \<Rightarrow> nat \<Rightarrow> bool" where
  "bs_bit b i \<longleftrightarrow> bit (bs_data b ! (i div 8)) (i mod 8)"

definition bs_bits :: "BitSet \<Rightarrow> nat" where
  "bs_bits b = 8 * length (bs_data b)"

lemma unat_idx: "unat ((idx :: u32) div 8) = unat idx div 8" "unat (idx mod 8) = unat idx mod 8"
  by (simp_all add: unat_div unat_mod)

lemma bs_index:
  "i < bs_bits b \<longleftrightarrow> i div 8 < length (bs_data b)"
  by (auto simp: bs_bits_def)

lemma and_bit_0: "c AND 2 ^ i \<noteq> 0 \<longleftrightarrow> bit c i" for c :: "'a::len word"
  using bit_iff_and_push_bit_not_eq_0 [of c i] by (simp add: push_bit_eq_mult)

lemma bs_test_in:
  "unat idx < bs_bits b \<Longrightarrow> bs_test idx b = Inr (bs_bit b (unat idx))"
  by (simp add: bs_test_def unat_idx bs_index bs_bit_def kset_bit and_bit_0)

text \<open>Replacing the byte of bit \<open>i\<close> changes the bits of that byte only.\<close>

lemma bs_bit_update:
  assumes "i < bs_bits b"
  shows "bs_bit (b\<lparr>bs_data := (bs_data b)[i div 8 := c]\<rparr>) j \<longleftrightarrow>
    (if j div 8 = i div 8 then bit c (j mod 8) else bs_bit b j)"
  using assms by (auto simp: bs_bit_def bs_index nth_list_update)

lemma same_byte: "j div 8 = i div 8 \<Longrightarrow> j mod 8 = i mod 8 \<longleftrightarrow> j = (i :: nat)"
  by (metis div_mult_mod_eq)

lemma bs_set_in:
  assumes "unat idx < bs_bits b"
  shows "\<exists>b'. bs_set idx b = Inr b' \<and> bs_bits b' = bs_bits b \<and> bs_data_size b' = bs_data_size b \<and>
    (\<forall>j. bs_bit b' j \<longleftrightarrow> j = unat idx \<or> bs_bit b j)"
proof -
  let ?i = "unat idx"
  let ?b = "b\<lparr>bs_data := (bs_data b)[?i div 8 := bs_data b ! (?i div 8) OR 2 ^ (?i mod 8)]\<rparr>"
  have "bs_set idx b = Inr ?b"
    using assms by (simp add: bs_set_def unat_idx bs_index kset_bit Let_def)
  moreover have "bs_bit ?b j \<longleftrightarrow> j = ?i \<or> bs_bit b j" for j
    unfolding bs_bit_update [OF assms]
    using same_byte [of j ?i] by (auto simp: bs_bit_def bit_simps)
  ultimately show ?thesis by (simp add: bs_bits_def)
qed

lemma bs_del_in:
  assumes "unat idx < bs_bits b"
  shows "\<exists>b'. bs_del idx b = Inr b' \<and> bs_bits b' = bs_bits b \<and> bs_data_size b' = bs_data_size b \<and>
    (\<forall>j. bs_bit b' j \<longleftrightarrow> j \<noteq> unat idx \<and> bs_bit b j)"
proof -
  let ?i = "unat idx"
  let ?b = "b\<lparr>bs_data := (bs_data b)[?i div 8 := bs_data b ! (?i div 8) AND NOT (2 ^ (?i mod 8))]\<rparr>"
  have "bs_del idx b = Inr ?b"
    using assms by (simp add: bs_del_def unat_idx bs_index kdel_bit Let_def)
  moreover have "bs_bit ?b j \<longleftrightarrow> j \<noteq> ?i \<and> bs_bit b j" for j
    unfolding bs_bit_update [OF assms]
    using same_byte [of j ?i] by (auto simp: bs_bit_def bit_simps dest: bit_imp_le_length)
  ultimately show ?thesis by (simp add: bs_bits_def)
qed

section \<open>The contract of a key filter\<close>

locale key_filter =
  fixes ok :: "'f \<Rightarrow> bool"
    and insert :: "bytes \<Rightarrow> 'f \<Rightarrow> 'f res"
    and is_match :: "bytes \<Rightarrow> 'f \<Rightarrow> bool res"
  assumes insert_ok: "ok f \<Longrightarrow> \<exists>f'. insert k f = Inr f' \<and> ok f'"
    and match_ok: "ok f \<Longrightarrow> \<exists>b. is_match k f = Inr b"
    and insert_match: "ok f \<Longrightarrow> insert k f = Inr f' \<Longrightarrow> is_match k f' = Inr True"
    and match_kept: "ok f \<Longrightarrow> is_match k f = Inr True \<Longrightarrow> insert k' f = Inr f' \<Longrightarrow>
      is_match k f' = Inr True"
begin

fun inserts :: "bytes list \<Rightarrow> 'f \<Rightarrow> 'f res" where
  "inserts [] f = Inr f"
| "inserts (k # ks) f = rbind (insert k f) (inserts ks)"

lemma inserts_keep:
  assumes "ok f" and "is_match k f = Inr True"
  shows "\<exists>f'. inserts ks f = Inr f' \<and> ok f' \<and> is_match k f' = Inr True"
  using assms
proof (induction ks arbitrary: f)
  case (Cons k' ks)
  obtain f1 where "insert k' f = Inr f1" "ok f1" using insert_ok Cons.prems by blast
  moreover from this have "is_match k f1 = Inr True" using match_kept Cons.prems by blast
  ultimately show ?case using Cons.IH [of f1] by simp
qed simp

lemma no_false_negative:
  assumes "ok f"
  shows "\<exists>f'. inserts ks f = Inr f' \<and> ok f' \<and> (\<forall>k \<in> set ks. is_match k f' = Inr True)"
  using assms
proof (induction ks arbitrary: f)
  case (Cons k ks)
  obtain f1 where f1: "insert k f = Inr f1" "ok f1" using insert_ok Cons.prems by blast
  obtain f' where f': "inserts ks f1 = Inr f'" "ok f'" "\<forall>k \<in> set ks. is_match k f' = Inr True"
    using Cons.IH [OF f1(2)] by blast
  have "is_match k f' = Inr True"
    using inserts_keep [OF f1(2) insert_match [OF Cons.prems f1(1)], of ks] f'(1) by auto
  then show ?case using f1 f' by auto
qed simp

end

section \<open>The Bloom filter\<close>

definition bloom_ok :: "nat \<Rightarrow> BloomFilter \<Rightarrow> bool" where
  "bloom_ok N f \<longleftrightarrow> 0 < N \<and> N \<le> bs_bits (bf_filter f) \<and> N < 2 ^ 32"

lemma bf_idx_in:
  assumes "bloom_ok N f"
  shows "unat (bf_idx N h) < bs_bits (bf_filter f)"
proof -
  have N: "0 < N" "N < 2 ^ 32" "N \<le> bs_bits (bf_filter f)" using assms by (auto simp: bloom_ok_def)
  then have "unat (of_nat N :: u64) = N" by (simp add: unat_of_nat)
  then have "unat (h mod of_nat N) = unat h mod N" by (simp add: unat_mod)
  moreover have "unat h mod N < 2 ^ 32" using N by (meson less_trans mod_less_divisor)
  ultimately have "unat (bf_idx N h) = unat h mod N"
    by (simp add: bf_idx_def unsigned_ucast_eq take_bit_nat_eq_self_iff)
  also have "\<dots> < N" using N by simp
  finally show ?thesis using N by simp
qed

text \<open>Four in-range bits are set by \<open>Insert\<close> and tested by \<open>IsMatch\<close>.\<close>

definition bf_positions :: "hashers \<Rightarrow> nat \<Rightarrow> bytes \<Rightarrow> u64 \<Rightarrow> nat set" where
  "bf_positions H N key seed = {unat (bf_idx N (xx_hash H key seed)), unat (bf_idx N (std_hash H key)),
     unat (bf_idx N (city_hash H key seed)), unat (bf_idx N (farm_hash H key seed))}"

lemma bf_Insert_positions:
  assumes "bloom_ok N f"
  shows "\<exists>f'. bf_Insert H N key f = Inr f' \<and> bloom_ok N f' \<and> bf_seed f' = bf_seed f \<and>
    bs_bits (bf_filter f') = bs_bits (bf_filter f) \<and>
    (\<forall>j. bs_bit (bf_filter f') j \<longleftrightarrow> j \<in> bf_positions H N key (bf_seed f) \<or> bs_bit (bf_filter f) j)"
proof -
  note idx = bf_idx_in [OF assms]
  obtain b1 where b1: "bs_set (bf_idx N (xx_hash H key (bf_seed f))) (bf_filter f) = Inr b1"
    "bs_bits b1 = bs_bits (bf_filter f)"
    "\<forall>j. bs_bit b1 j \<longleftrightarrow> j = unat (bf_idx N (xx_hash H key (bf_seed f))) \<or> bs_bit (bf_filter f) j"
    using bs_set_in [OF idx] by blast
  obtain b2 where b2: "bs_set (bf_idx N (std_hash H key)) b1 = Inr b2" "bs_bits b2 = bs_bits b1"
    "\<forall>j. bs_bit b2 j \<longleftrightarrow> j = unat (bf_idx N (std_hash H key)) \<or> bs_bit b1 j"
    using bs_set_in [of "bf_idx N (std_hash H key)" b1] idx b1 by auto
  obtain b3 where b3: "bs_set (bf_idx N (city_hash H key (bf_seed f))) b2 = Inr b3"
    "bs_bits b3 = bs_bits b2"
    "\<forall>j. bs_bit b3 j \<longleftrightarrow> j = unat (bf_idx N (city_hash H key (bf_seed f))) \<or> bs_bit b2 j"
    using bs_set_in [of "bf_idx N (city_hash H key (bf_seed f))" b2] idx b1 b2 by auto
  obtain b4 where b4: "bs_set (bf_idx N (farm_hash H key (bf_seed f))) b3 = Inr b4"
    "bs_bits b4 = bs_bits b3"
    "\<forall>j. bs_bit b4 j \<longleftrightarrow> j = unat (bf_idx N (farm_hash H key (bf_seed f))) \<or> bs_bit b3 j"
    using bs_set_in [of "bf_idx N (farm_hash H key (bf_seed f))" b3] idx b1 b2 b3 by auto
  show ?thesis
    using b1 b2 b3 b4 assms
    by (auto simp: bf_Insert_def bf_positions_def bloom_ok_def)
qed

lemma bf_IsMatch_positions:
  assumes "bloom_ok N f"
  shows "bf_IsMatch H N key f = Inr (\<forall>j \<in> bf_positions H N key (bf_seed f). bs_bit (bf_filter f) j)"
  using bs_test_in [OF bf_idx_in [OF assms]]
  by (simp add: bf_IsMatch_def bf_positions_def Let_def)

lemma BloomFilter_ctor_ok:
  "bloom_ok kBloomFilterDefaultSize (BloomFilter_ctor kBloomFilterDefaultSize)"
  by (simp add: bloom_ok_def BloomFilter_ctor_def BitSet_ctor_def bs_bits_def kBloomFilterDefaultSize_def)

interpretation bloom: key_filter "bloom_ok N" "bf_Insert H N" "bf_IsMatch H N" for H N
proof
  fix f k
  assume ok: "bloom_ok N f"
  show "\<exists>f'. bf_Insert H N k f = Inr f' \<and> bloom_ok N f'"
    using bf_Insert_positions [OF ok] by blast
  show "\<exists>b. bf_IsMatch H N k f = Inr b"
    using bf_IsMatch_positions [OF ok] by blast
next
  fix f k f'
  assume ok: "bloom_ok N f" and ins: "bf_Insert H N k f = Inr f'"
  then show "bf_IsMatch H N k f' = Inr True"
    using bf_Insert_positions [OF ok, of H k] bf_IsMatch_positions [of N f'] by auto
next
  fix f k k' f'
  assume ok: "bloom_ok N f" and "bf_IsMatch H N k f = Inr True" and "bf_Insert H N k' f = Inr f'"
  then show "bf_IsMatch H N k f' = Inr True"
    using bf_Insert_positions [OF ok, of H k'] bf_IsMatch_positions [OF ok, of H k]
      bf_IsMatch_positions [of N f' H k] by auto
qed

section \<open>Properties\<close>

text \<open>The bit set behaves as a set of bit numbers: inside its size \<open>set\<close> and
  \<open>del\<close> change exactly the given bit, and \<open>test\<close> reads it.\<close>

lemma BitSet_set_del_test:
  assumes "unat i < 8 * length (bs_data b)" and "unat j < 8 * length (bs_data b)"
  shows "rbind (bs_set i b) (bs_test j) = (if i = j then Inr True else bs_test j b) \<and>
    rbind (bs_del i b) (bs_test j) = (if i = j then Inr False else bs_test j b)"
proof -
  have i: "unat i < bs_bits b" and j: "unat j < bs_bits b" using assms by (simp_all add: bs_bits_def)
  have "unat i = unat j \<longleftrightarrow> i = j" by (simp add: word_unat_eq_iff)
  then show ?thesis
    using bs_set_in [OF i] bs_del_in [OF i] bs_test_in [OF j] j bs_test_in [of j] by auto
qed

text \<open>The Bloom filter has no false negatives: whatever the four hash functions
  are, no sequence of insertions into a fresh filter fails, and afterwards every inserted key
  matches.\<close>

lemma bloom_no_false_negatives:
  "\<exists>f. key_filter.inserts (bf_Insert H kBloomFilterDefaultSize) ks
       (BloomFilter_ctor kBloomFilterDefaultSize) = Inr f \<and>
     (\<forall>k \<in> set ks. bf_IsMatch H kBloomFilterDefaultSize k f = Inr True)"
  using bloom.no_false_negative [OF BloomFilter_ctor_ok] by blast

end
