(* ===== verification/Btree.thy ===== *)
theory Btree
  imports Prelude "HOL-Library.List_Lexorder"
begin

text \<open>
  The interface of \<open>absl::btree_set\<close>, the ordered container behind \<open>MemBTree\<close> and
  \<open>MemBTreeView\<close>. The container is not part of the repository, so its operations are a
  record of functions every user takes as an argument, and the locale \<open>btree_set\<close> states
  the documented behaviour the users rely on: iteration is in the order of the comparator
  without equivalent elements, \<open>insert\<close> of an element that is equivalent to a stored one
  changes nothing, and \<open>find\<close> returns the stored equivalent element. The laws are required
  where the comparator is a strict weak order on the elements that occur.

  \<open>sorted_list_set\<close>, a sorted list, satisfies them.
\<close>

section \<open>Comparators\<close>

type_synonym comparator = "bytes \<Rightarrow> bytes \<Rightarrow> bool"

definition equivalent :: "comparator \<Rightarrow> bytes \<Rightarrow> bytes \<Rightarrow> bool" where
  "equivalent lt x y \<longleftrightarrow> \<not> lt x y \<and> \<not> lt y x"

text \<open>On \<open>A\<close> the comparator compares a key in a linear order.\<close>

definition ordered_by :: "bytes set \<Rightarrow> (bytes \<Rightarrow> bytes) \<Rightarrow> comparator \<Rightarrow> bool" where
  "ordered_by A key lt \<longleftrightarrow> (\<forall>x \<in> A. \<forall>y \<in> A. lt x y \<longleftrightarrow> key x < key y)"

section \<open>The container\<close>

record 't btree_api =
  bt_empty :: 't
  bt_insert :: "comparator \<Rightarrow> bytes \<Rightarrow> 't \<Rightarrow> 't"
  bt_find :: "comparator \<Rightarrow> bytes \<Rightarrow> 't \<Rightarrow> bytes option"
  bt_elems :: "'t \<Rightarrow> bytes list"

definition bt_size :: "'t btree_api \<Rightarrow> 't \<Rightarrow> nat" where
  "bt_size B t = length (bt_elems B t)"

locale btree_set =
  fixes B :: "'t btree_api"
  assumes elems_empty: "bt_elems B (bt_empty B) = []"
    and elems_insert: "ordered_by A key lt \<Longrightarrow> x \<in> A \<Longrightarrow> set (bt_elems B t) \<subseteq> A \<Longrightarrow>
      sorted_wrt lt (bt_elems B t) \<Longrightarrow>
      sorted_wrt lt (bt_elems B (bt_insert B lt x t)) \<and>
      set (bt_elems B (bt_insert B lt x t)) =
        (if \<exists>y \<in> set (bt_elems B t). equivalent lt x y then set (bt_elems B t)
         else insert x (set (bt_elems B t)))"
    and find_some: "ordered_by A key lt \<Longrightarrow> x \<in> A \<Longrightarrow> set (bt_elems B t) \<subseteq> A \<Longrightarrow>
      sorted_wrt lt (bt_elems B t) \<Longrightarrow> bt_find B lt x t = Some y \<Longrightarrow>
      y \<in> set (bt_elems B t) \<and> equivalent lt x y"
    and find_none: "ordered_by A key lt \<Longrightarrow> x \<in> A \<Longrightarrow> set (bt_elems B t) \<subseteq> A \<Longrightarrow>
      sorted_wrt lt (bt_elems B t) \<Longrightarrow> bt_find B lt x t = None \<Longrightarrow>
      \<not> (\<exists>y \<in> set (bt_elems B t). equivalent lt x y)"
begin

text \<open>
  Seen through the key, the container is a finite map: the element stored under a key, if
  any.
\<close>

definition stored :: "(bytes \<Rightarrow> bytes) \<Rightarrow> 't \<Rightarrow> bytes \<Rightarrow> bytes option" where
  "stored key t k = find (\<lambda>e. key e = k) (bt_elems B t)"

lemma equivalent_key:
  assumes "ordered_by A key lt" and "x \<in> A" and "y \<in> A"
  shows "equivalent lt x y \<longleftrightarrow> key x = key y"
  using assms by (auto simp: ordered_by_def equivalent_def)

lemma keys_distinct:
  assumes "ordered_by A key lt" and "set es \<subseteq> A" and "sorted_wrt lt es"
  shows "distinct (map key es)"
  using assms
proof (induction es)
  case (Cons e es)
  then have "key e < key e'" if "e' \<in> set es" for e'
    using that by (auto simp: ordered_by_def)
  then show ?case using Cons by fastforce
qed simp

lemma find_key_iff:
  assumes "distinct (map key es)"
  shows "find (\<lambda>e. key e = k) es = Some e \<longleftrightarrow> e \<in> set es \<and> key e = k"
  using assms by (induction es) (auto simp: image_iff)

lemma stored_iff:
  assumes "ordered_by A key lt" and "set (bt_elems B t) \<subseteq> A" and "sorted_wrt lt (bt_elems B t)"
  shows "stored key t k = Some e \<longleftrightarrow> e \<in> set (bt_elems B t) \<and> key e = k"
  unfolding stored_def by (rule find_key_iff [OF keys_distinct [OF assms]])

lemma stored_empty: "stored key (bt_empty B) k = None"
  by (simp add: stored_def elems_empty)

lemma stored_insert:
  assumes "ordered_by A key lt" and "x \<in> A" and "set (bt_elems B t) \<subseteq> A"
    and "sorted_wrt lt (bt_elems B t)"
  shows "stored key (bt_insert B lt x t) k =
    (if k = key x \<and> stored key t k = None then Some x else stored key t k)"
proof -
  let ?t = "bt_insert B lt x t"
  have ins: "sorted_wrt lt (bt_elems B ?t)" "set (bt_elems B ?t) =
      (if \<exists>y \<in> set (bt_elems B t). key x = key y then set (bt_elems B t)
       else insert x (set (bt_elems B t)))"
    using elems_insert [OF assms] equivalent_key [OF assms(1,2)] assms(3) by (auto split: if_splits)
  then have sub: "set (bt_elems B ?t) \<subseteq> A" using assms(2,3) by auto
  note iff = stored_iff [OF assms(1,3,4)] and iff' = stored_iff [OF assms(1) sub ins(1)]
  have ex: "(\<exists>y \<in> set (bt_elems B t). key x = key y) \<longleftrightarrow> stored key t (key x) \<noteq> None"
    using iff [of "key x"] by (metis not_Some_eq)
  have "stored key ?t k = Some e \<longleftrightarrow>
      (if k = key x \<and> stored key t k = None then Some x else stored key t k) = Some e" for e
  proof (cases "stored key t (key x) = None")
    case True
    then have "set (bt_elems B ?t) = insert x (set (bt_elems B t))"
      using ins(2) ex by (simp only: if_False not_not simp_thms)
    then have "stored key ?t k = Some e \<longleftrightarrow> e = x \<and> key x = k \<or> stored key t k = Some e"
      by (auto simp only: iff iff' insert_iff)
    then show ?thesis using True by auto
  next
    case False
    then have "set (bt_elems B ?t) = set (bt_elems B t)"
      using ins(2) ex by (simp only: if_True simp_thms)
    then have "stored key ?t k = Some e \<longleftrightarrow> stored key t k = Some e"
      by (simp only: iff iff')
    then show ?thesis using False by auto
  qed
  then show ?thesis by (metis not_None_eq)
qed

lemma find_stored:
  assumes "ordered_by A key lt" and "x \<in> A" and "set (bt_elems B t) \<subseteq> A"
    and "sorted_wrt lt (bt_elems B t)"
  shows "bt_find B lt x t = stored key t (key x)"
proof (cases "bt_find B lt x t")
  case None
  then have "\<not> (\<exists>y \<in> set (bt_elems B t). key y = key x)"
    using find_none [OF assms] equivalent_key [OF assms(1,2)] assms(3) by force
  then show ?thesis
    using None stored_iff [OF assms(1,3,4), of "key x"] by (cases "stored key t (key x)") auto
next
  case (Some y)
  then show ?thesis
    using find_some [OF assms Some] equivalent_key [OF assms(1,2), of y] assms(3)
      stored_iff [OF assms(1,3,4), of "key x" y] by auto
qed

end

section \<open>A sorted list is such a container\<close>

fun sl_insert :: "comparator \<Rightarrow> bytes \<Rightarrow> bytes list \<Rightarrow> bytes list" where
  "sl_insert lt x [] = [x]"
| "sl_insert lt x (y # ys) =
     (if lt x y then x # y # ys else if lt y x then y # sl_insert lt x ys else y # ys)"

definition sorted_list_set :: "bytes list btree_api" where
  "sorted_list_set = \<lparr>bt_empty = [], bt_insert = sl_insert,
     bt_find = (\<lambda>lt x es. find (equivalent lt x) es), bt_elems = (\<lambda>es. es)\<rparr>"

lemma sl_insert_set:
  assumes "ordered_by A key lt" and "x \<in> A" and "set es \<subseteq> A" and "sorted_wrt lt es"
  shows "set (sl_insert lt x es) =
    (if \<exists>y \<in> set es. equivalent lt x y then set es else insert x (set es))"
  using assms
proof (induction es)
  case (Cons y ys)
  have "\<not> equivalent lt x z" if "lt x y" "z \<in> set ys" for z
    using Cons.prems that by (force simp: equivalent_def ordered_by_def)
  then show ?case
    using Cons by (auto simp: equivalent_def)
qed simp

lemma sl_insert_sorted:
  assumes "ordered_by A key lt" and "x \<in> A" and "set es \<subseteq> A" and "sorted_wrt lt es"
  shows "sorted_wrt lt (sl_insert lt x es)"
  using assms
proof (induction es)
  case (Cons y ys)
  have "lt x z" if "lt x y" "z \<in> set ys" for z
    using Cons.prems that by (force simp: ordered_by_def)
  moreover have "set (sl_insert lt x ys) \<subseteq> insert x (set ys)"
    using sl_insert_set [of A key lt x ys] Cons.prems by (auto split: if_splits)
  ultimately show ?case
    using Cons by auto
qed simp

interpretation sorted_list: btree_set sorted_list_set
proof
  fix A key lt x t y
  assume o: "ordered_by A key lt" "x \<in> A" "set (bt_elems sorted_list_set t) \<subseteq> A"
    "sorted_wrt lt (bt_elems sorted_list_set t)"
  show "sorted_wrt lt (bt_elems sorted_list_set (bt_insert sorted_list_set lt x t)) \<and>
      set (bt_elems sorted_list_set (bt_insert sorted_list_set lt x t)) =
        (if \<exists>y \<in> set (bt_elems sorted_list_set t). equivalent lt x y then set (bt_elems sorted_list_set t)
         else insert x (set (bt_elems sorted_list_set t)))"
    using sl_insert_set [of A key lt x t] sl_insert_sorted [of A key lt x t] o
    by (simp add: sorted_list_set_def)
  show "y \<in> set (bt_elems sorted_list_set t) \<and> equivalent lt x y"
    if "bt_find sorted_list_set lt x t = Some y"
    using that by (auto simp: sorted_list_set_def find_Some_iff)
  show "\<not> (\<exists>y \<in> set (bt_elems sorted_list_set t). equivalent lt x y)"
    if "bt_find sorted_list_set lt x t = None"
    using that by (auto simp: sorted_list_set_def find_None_iff)
qed (simp add: sorted_list_set_def)

end
