(* ===== verification/Memtable.thy ===== *)
theory Memtable
  imports Key_Format Db_Types Bloom Btree
begin

text \<open>
  The memtable: \<open>src/db/comp.cpp\<close> (the order of the entries) and \<open>src/db/memtable.cpp\<close>
  (\<open>Set\<close>, \<open>Get\<close>, \<open>Delete\<close> and the accessors). The ordered set is the argument \<open>B\<close> of
  theory \<open>Btree\<close>, the hash functions of the Bloom filter the argument \<open>H\<close>.

  An operation works on its context as the code does, including the bytes it stores through
  \<open>simple_set_str.data()\<close>: a store outside the string is an error.
\<close>

section \<open>Comparator\<close>

text \<open>
  Views of entries. A null result for the right operand leaves its size 0, so the view is
  empty; the second assertion tests the first pointer again.
\<close>

definition Comparator :: "bytes \<Rightarrow> bytes \<Rightarrow> bool res" where
  "Comparator lef ref =
     rbind (getVarint32Ptr lef 0 5) (\<lambda>r. case r of
       None \<Rightarrow> Inl AssertFail
     | Some (lef_key_size, end_ptr) \<Rightarrow>
         rbind (getVarint32Ptr ref 0 5) (\<lambda>r2.
         rbind (view lef end_ptr (unat lef_key_size)) (\<lambda>lef_key_view.
         rbind (case r2 of None \<Rightarrow> Inr []
                | Some (ref_key_size, end_2_ptr) \<Rightarrow> view ref end_2_ptr (unat ref_key_size))
           (\<lambda>ref_key_view. Inr (lef_key_view < ref_key_view)))))"

definition comp_lt :: comparator where
  "comp_lt lef ref \<longleftrightarrow> Comparator lef ref = Inr True"

section \<open>Memtable\<close>

datatype ValueType = kTypeDeletion | kTypeValue

fun value_type_int :: "ValueType \<Rightarrow> nat" where
  "value_type_int kTypeDeletion = 0"
| "value_type_int kTypeValue = 1"

definition kDefaultMemtableSize :: u32 where
  "kDefaultMemtableSize = 128 * 1024 * 1024"

record 't Memtable =
  memSize :: u32
  isReadonly :: bool
  memtable_number :: u64
  compaction_number :: u32
  refs :: u32
  memMap :: 't
  bloomFilter :: BloomFilter

definition Memtable_ctor :: "'t btree_api \<Rightarrow> u64 \<Rightarrow> 't Memtable" where
  "Memtable_ctor B garbage_number =
     \<lparr>memSize = 0, isReadonly = False, memtable_number = garbage_number, compaction_number = 0,
      refs = 0, memMap = bt_empty B,
      bloomFilter = BloomFilter_ctor kBloomFilterDefaultSize\<rparr>"

text \<open>The string \<open>Set\<close> builds and then fills in.\<close>

definition Set_entry :: "SetContext \<Rightarrow> bytes res" where
  "Set_entry c =
     (let key = set_key c; value = set_value c;
          key_size_32_varint_size = varintLength (size64 key);
          value_size_32_varint_size = varintLength (size64 value);
          sequence_number_64_varint_size = varintLength (size64 value) in
      rbind (rd format32_vec key_size_32_varint_size) (\<lambda>fk.
      rbind (rd format64_vec sequence_number_64_varint_size) (\<lambda>fn.
      rbind (rd format32_vec value_size_32_varint_size) (\<lambda>fv.
        let simple_set_str = fk @ key @ fn @ kEmpty1Space @ fv @ value;
            start_ptr = length (encodeVarint32 (size32 key)) in
        rbind (str_puts simple_set_str 0 (encodeVarint32 (size32 key))) (\<lambda>s.
          let start_ptr = start_ptr + length key in
        rbind (str_puts s start_ptr (encodeVarint64 (set_number c))) (\<lambda>s.
          let start_ptr = start_ptr + length (encodeVarint64 (set_number c)) in
        rbind (str_puts s start_ptr (formatEncodeFixed8 (of_nat (value_type_int kTypeValue)))) (\<lambda>s.
          let start_ptr = start_ptr + 1 in
          str_puts s start_ptr (encodeVarint32 (size32 value)))))))))"

definition Memtable_Set ::
  "'t btree_api \<Rightarrow> hashers \<Rightarrow> SetContext \<Rightarrow> 't Memtable \<Rightarrow> 't Memtable res" where
  "Memtable_Set B H c mt =
     rbind (Set_entry c) (\<lambda>simple_set_str.
     rbind (bf_Insert H kBloomFilterDefaultSize (set_key c) (bloomFilter mt)) (\<lambda>bf.
       let origin_memMap_size = bt_size B (memMap mt);
           origin_str_size = length simple_set_str;
           t = bt_insert B comp_lt simple_set_str (memMap mt) in
       Inr (mt\<lparr>bloomFilter := bf, memMap := t,
               memSize := if bt_size B t > origin_memMap_size
                          then memSize mt + of_nat origin_str_size else memSize mt\<rparr>)))"

text \<open>The string \<open>Get\<close> searches for: size and key.\<close>

definition Get_entry :: "bytes \<Rightarrow> bytes res" where
  "Get_entry key =
     rbind (rd format32_vec (varintLength (size64 key))) (\<lambda>fk.
       str_puts (fk @ key) 0 (encodeVarint32 (size32 key)))"

text \<open>What \<open>Get\<close> reads out of the entry it finds.\<close>

definition Get_decode :: "bytes \<Rightarrow> GetContext \<Rightarrow> GetContext res" where
  "Get_decode e g =
     (let m = c_str e in
      rbind (getVarint32Ptr m 0 5) (\<lambda>r. case r of
        None \<Rightarrow> Inl AssertFail
      | Some (mem_key_size, end_ptr) \<Rightarrow>
          rbind (getVarint64Ptr m (end_ptr + unat mem_key_size) (end_ptr + unat mem_key_size + 9)) (\<lambda>r.
          case r of
            None \<Rightarrow> Inl NullDeref
          | Some (iter_number, end_ptr) \<Rightarrow>
              rbind (formatDecodeFixed8 m end_ptr) (\<lambda>key_type.
              if key_type = of_nat (value_type_int kTypeDeletion)
              then Inr (g\<lparr>get_code := setCode kDelete (get_code g)\<rparr>)
              else
                rbind (getVarint32Ptr m (end_ptr + 1) (end_ptr + 6)) (\<lambda>r. case r of
                  None \<Rightarrow> Inr (g\<lparr>get_value := [], get_code := setCode kOk (get_code g)\<rparr>)
                | Some (mem_value_size, end_ptr) \<Rightarrow>
                    rbind (view m end_ptr (unat mem_value_size)) (\<lambda>value_view.
                      Inr (g\<lparr>get_value := value_view, get_code := setCode kOk (get_code g)\<rparr>)))))))"

definition Memtable_Get ::
  "'t btree_api \<Rightarrow> hashers \<Rightarrow> GetContext \<Rightarrow> 't Memtable \<Rightarrow> GetContext res" where
  "Memtable_Get B H g mt =
     rbind (bf_IsMatch H kBloomFilterDefaultSize (get_key g) (bloomFilter mt)) (\<lambda>is_match.
       if \<not> is_match then Inr (g\<lparr>get_code := setCode kNotFound (get_code g)\<rparr>)
       else
         rbind (Get_entry (get_key g)) (\<lambda>simple_get_str.
           case bt_find B comp_lt simple_get_str (memMap mt) of
             None \<Rightarrow> Inr (g\<lparr>get_code := setCode kNotFound (get_code g)\<rparr>)
           | Some e \<Rightarrow> Get_decode e g))"

definition Delete_entry :: "DeleteContext \<Rightarrow> bytes res" where
  "Delete_entry d =
     (let key = del_key d in
      rbind (rd format32_vec (varintLength (size64 key))) (\<lambda>fk.
      rbind (rd format64_vec (varintLength (del_number d))) (\<lambda>fn.
        let simple_del_str = fk @ key @ fn @ kEmpty1Space;
            start_ptr = length (encodeVarint32 (size32 key)) + length key;
            number32 = ucast (del_number d) :: u32 in
        rbind (str_puts simple_del_str 0 (encodeVarint32 (size32 key))) (\<lambda>s.
        rbind (str_puts s start_ptr (encodeVarint32 number32)) (\<lambda>s.
          str_puts s (start_ptr + length (encodeVarint32 number32))
            (formatEncodeFixed8 (of_nat (status_int kDelete))))))))"

definition Memtable_Delete ::
  "'t btree_api \<Rightarrow> hashers \<Rightarrow> DeleteContext \<Rightarrow> 't Memtable \<Rightarrow> 't Memtable res" where
  "Memtable_Delete B H d mt =
     rbind (Delete_entry d) (\<lambda>simple_del_str.
     rbind (bf_Insert H kBloomFilterDefaultSize (del_key d) (bloomFilter mt)) (\<lambda>bf.
       Inr (mt\<lparr>bloomFilter := bf, memMap := bt_insert B comp_lt simple_del_str (memMap mt)\<rparr>)))"

definition getMemSize :: "'t Memtable \<Rightarrow> u32" where
  "getMemSize mt = memSize mt"

definition setReadOnly :: "'t Memtable \<Rightarrow> 't Memtable" where
  "setReadOnly mt = mt\<lparr>isReadonly := True\<rparr>"

definition setNumber :: "u32 \<Rightarrow> 't Memtable \<Rightarrow> 't Memtable" where
  "setNumber number mt = mt\<lparr>memtable_number := ucast number\<rparr>"

definition getMemNumber :: "'t Memtable \<Rightarrow> u32" where
  "getMemNumber mt = ucast (memtable_number mt)"

definition addRefs :: "'t Memtable \<Rightarrow> 't Memtable" where
  "addRefs mt = mt\<lparr>refs := refs mt + 1\<rparr>"

definition getRefs :: "'t Memtable \<Rightarrow> u32" where
  "getRefs mt = refs mt"

definition decreaseRefs :: "'t Memtable \<Rightarrow> 't Memtable" where
  "decreaseRefs mt = mt\<lparr>refs := refs mt - 1\<rparr>"

definition getMemTableRef :: "'t Memtable \<Rightarrow> 't" where
  "getMemTableRef mt = memMap mt"

definition setCompactionN :: "u32 \<Rightarrow> 't Memtable \<Rightarrow> 't Memtable" where
  "setCompactionN n mt = mt\<lparr>compaction_number := n\<rparr>"

definition getCompactionN :: "'t Memtable \<Rightarrow> u32" where
  "getCompactionN mt = compaction_number mt"

definition getBloomSeed :: "'t Memtable \<Rightarrow> u64" where
  "getBloomSeed mt = bf_seed (bloomFilter mt)"

section \<open>Entries\<close>

text \<open>The head every entry starts with, and a well-formed entry.\<close>

definition rec_head :: "bytes \<Rightarrow> bytes" where
  "rec_head k = encodeVarint32 (size32 k) @ k"

definition short :: "bytes \<Rightarrow> bool" where
  "short k \<longleftrightarrow> length k < 2 ^ 32"

lemma unat_size32 [simp]: "short k \<Longrightarrow> unat (size32 k) = length k"
  by (simp add: short_def unat_of_nat)

lemma ucast_size32: "short k \<Longrightarrow> ucast (size32 k) = size64 k"
  by (simp add: word_unat_eq_iff short_def unat_of_nat)

lemma varintLength_size: "short k \<Longrightarrow> varintLength (size64 k) = length (encodeVarint32 (size32 k))"
  using ucast_size32 [of k] by (metis encodeVarint32_leb unat_ucast_u64 varintLength_leb)

lemma varint_size_bounds:
  assumes "short k"
  shows "1 \<le> varintLength (size64 k) \<and> varintLength (size64 k) \<le> 5"
  using leb_unat_32 [of "size32 k"] leb_length_pos [of "unat (size32 k)"]
  by (simp add: varintLength_size [OF assms] encodeVarint32_leb Suc_leI)

abbreviation spaces :: "nat \<Rightarrow> bytes" where
  "spaces n \<equiv> replicate n 32"

lemma format_vec_spaces:
  "1 \<le> n \<Longrightarrow> n \<le> 5 \<Longrightarrow> rd format32_vec n = Inr (spaces n)"
  "1 \<le> n \<Longrightarrow> n \<le> 9 \<Longrightarrow> rd format64_vec n = Inr (spaces n)"
proof -
  show "rd format32_vec n = Inr (spaces n)" if "1 \<le> n" "n \<le> 5"
  proof -
    have "n \<in> {1, 2, 3, 4, 5}" using that by auto
    then show ?thesis by (auto simp: rd_def format32_vec_def kEmpty_defs numeral_eq_Suc)
  qed
  show "rd format64_vec n = Inr (spaces n)" if "1 \<le> n" "n \<le> 9"
  proof -
    have "n \<in> {1, 2, 3, 4, 5, 6, 7, 8, 9}" using that by auto
    then show ?thesis by (auto simp: rd_def format64_vec_def kEmpty_defs numeral_eq_Suc)
  qed
qed

lemma str_puts_concat:
  "str_puts s i (xs @ ys) = rbind (str_puts s i xs) (\<lambda>s. str_puts s (i + length xs) ys)"
  by (induction xs arbitrary: s i) (simp_all add: rbind_assoc)

lemma str_puts_overflow:
  "i \<le> Suc (length s) \<Longrightarrow> length s < i + length bs \<Longrightarrow> Suc (length s) < i + length bs \<or> last bs \<noteq> 0 \<Longrightarrow> bs \<noteq> [] \<Longrightarrow>
    str_puts s i bs = Inl OutOfBounds"
proof (induction s i bs rule: str_puts.induct)
  case (2 s i b bs)
  show ?case
  proof (cases "str_put s i b")
    case (Inr s')
    then have "length s' = length s" "i < length s \<or> i = length s \<and> b = 0" by (auto simp: str_put_def split: if_splits)
    then show ?thesis using 2 Inr by (cases bs) auto
  qed (auto simp: str_put_def split: if_splits)
qed simp

text \<open>The three fields stored behind the key, in one piece.\<close>

definition set_fields :: "SetContext \<Rightarrow> bytes" where
  "set_fields c = encodeVarint64 (set_number c) @ [1] @ encodeVarint32 (size32 (set_value c))"

lemma length_encodeVarint64: "length (encodeVarint64 n) = varintLength n"
  by (simp add: encodeVarint64_leb varintLength_leb)

lemma length_set_fields:
  assumes "short (set_value c)"
  shows "length (set_fields c) = varintLength (set_number c) + 1 + varintLength (size64 (set_value c))"
  by (simp add: set_fields_def length_encodeVarint64 varintLength_size [OF assms])

text \<open>
  The room of \<open>Set\<close> for these fields is computed from the length of the value alone: twice its varint and a byte. What
  does not fit goes over the value; a store behind the value is out of bounds.
\<close>

lemma Set_entry_stores:
  assumes "short (set_key c)" and "short (set_value c)"
  shows "Set_entry c = str_puts (rec_head (set_key c) @ spaces (2 * varintLength (size64 (set_value c)) + 1) @ set_value c)
    (length (rec_head (set_key c))) (set_fields c)"
proof -
  let ?k = "set_key c" and ?v = "set_value c"
  let ?nk = "varintLength (size64 ?k)" and ?nv = "varintLength (size64 ?v)"
  let ?p = "length (encodeVarint32 (size32 ?k)) + length ?k"
  define R where "R = spaces (2 * ?nv + 1) @ ?v"
  have vec: "rd format32_vec ?nk = Inr (spaces ?nk)" "rd format64_vec ?nv = Inr (spaces ?nv)"
    "rd format32_vec ?nv = Inr (spaces ?nv)"
    using varint_size_bounds [OF assms(1)] varint_size_bounds [OF assms(2)]
    by (auto intro!: format_vec_spaces)
  have R: "spaces ?nv @ kEmpty1Space @ spaces ?nv @ ?v = R"
    by (simp add: R_def kEmpty1Space_def replicate_add mult_2) (simp add: replicate_app_Cons_same)
  have 1: "str_puts (spaces ?nk @ ?k @ R) 0 (encodeVarint32 (size32 ?k)) = Inr (rec_head ?k @ R)"
    using str_puts_start [of "spaces ?nk" "encodeVarint32 (size32 ?k)" "?k @ R"]
      varintLength_size [OF assms(1)] by (simp add: rec_head_def)
  have "Set_entry c = rbind (str_puts (spaces ?nk @ ?k @ R) 0 (encodeVarint32 (size32 ?k)))
      (\<lambda>s. str_puts s ?p (set_fields c))"
    unfolding Set_entry_def Let_def vec rbind.simps R set_fields_def str_puts_concat
      formatEncodeFixed8_def by (simp add: add.assoc)
  then show ?thesis
    unfolding 1 rbind.simps by (simp add: R_def rec_head_def)
qed

definition set_fits :: "SetContext \<Rightarrow> bool" where
  "set_fits c \<longleftrightarrow> varintLength (set_number c) \<le> varintLength (size64 (set_value c)) + length (set_value c) \<or>
     set_value c = [] \<and> varintLength (set_number c) = 2"

definition stored_rec :: "SetContext \<Rightarrow> bytes" where
  "stored_rec c = (let R = spaces (2 * varintLength (size64 (set_value c)) + 1) @ set_value c in
     rec_head (set_key c) @ take (length R) (set_fields c) @ drop (length (set_fields c)) R)"

lemma last_leb: "last (leb n) = 0 \<longleftrightarrow> n = 0"
proof (induction n rule: less_induct)
  case (less n)
  show ?case
  proof (cases "n < 128")
    case True
    then show ?thesis by (simp add: word_unat_eq_iff unat_of_nat)
  next
    case False
    then show ?thesis using less [of "n div 128"] by (simp add: leb_big div_eq_0_iff)
  qed
qed

lemma varint_one: "varintLength (size64 []) = 1"
  by (simp add: varintLength_leb)

lemma Set_entry_eq:
  assumes "short (set_key c)" and "short (set_value c)"
  shows "Set_entry c = (if set_fits c then Inr (stored_rec c) else Inl OutOfBounds)"
proof -
  let ?h = "rec_head (set_key c)" and ?F = "set_fields c" and ?v = "set_value c"
  define R where "R = spaces (2 * varintLength (size64 ?v) + 1) @ ?v"
  have len: "length ?F \<le> length R \<longleftrightarrow> varintLength (set_number c) \<le> varintLength (size64 ?v) + length ?v"
    using length_set_fields [OF assms(2)] by (auto simp: R_def)
  have rec: "stored_rec c = ?h @ take (length R) ?F @ drop (length ?F) R" by (simp add: stored_rec_def R_def Let_def)
  consider "length ?F \<le> length R" | "length R < length ?F" "?v = []" "varintLength (set_number c) = 2" | "\<not> set_fits c"
    using len by (metis linorder_not_le set_fits_def)
  then have "str_puts (?h @ R) (length ?h) ?F = (if set_fits c then Inr (stored_rec c) else Inl OutOfBounds)"
  proof cases
    case 1
    then show ?thesis
      using str_puts_append [of _ ?h "take (length ?F) R" ?F "drop (length ?F) R"] len
      by (simp add: rec set_fits_def)
  next
    case 2
    let ?n = "encodeVarint64 (set_number c) @ [1]"
    have F: "?F = ?n @ [0]" and R3: "R = spaces 3" and n3: "length ?n = length R"
      using 2 by (simp_all add: set_fields_def R_def varint_one [simplified] encodeVarint32_def length_encodeVarint64)
    have "str_puts (?h @ R) (length ?h) ?n = Inr (?h @ ?n)"
      using str_puts_append [of "length ?h" ?h R ?n "[]"] n3 by simp
    then show ?thesis
      using 2 n3 by (simp add: F str_puts_concat str_put_def rec set_fits_def del: append_assoc)
  next
    case 3
    have "Suc (length R) < length ?F \<or> last ?F \<noteq> 0"
    proof (cases "?v = []")
      case True
      then show ?thesis using 3 length_set_fields [OF assms(2)] varint_one by (auto simp: set_fits_def R_def)
    next
      case False
      then have "unat (size32 ?v) \<noteq> 0" using assms(2) by simp
      then show ?thesis using last_leb [of "unat (size32 ?v)"] by (simp add: set_fields_def encodeVarint32_leb)
    qed
    then have "str_puts (?h @ R) (length ?h) ?F = Inl OutOfBounds"
      using 3 len by (intro str_puts_overflow) (auto simp: set_fits_def set_fields_def)
    then show ?thesis using 3 by simp
  qed
  then show ?thesis unfolding Set_entry_stores [OF assms] R_def .
qed

lemma Get_entry_eq:
  assumes "short k"
  shows "Get_entry k = Inr (rec_head k)"
proof -
  have "rd format32_vec (varintLength (size64 k)) = Inr (spaces (varintLength (size64 k)))"
    using varint_size_bounds [OF assms] by (intro format_vec_spaces) auto
  then show ?thesis
    using str_puts_start [of "spaces (varintLength (size64 k))" "encodeVarint32 (size32 k)" k]
    by (simp add: Get_entry_def rec_head_def varintLength_size [OF assms])
qed

text \<open>
  The room of \<open>Delete\<close> is computed from the 64-bit number, and the number is stored with 32 bits. A number of 10 bytes has
  no format.
\<close>

abbreviation number32 :: "DeleteContext \<Rightarrow> u32" where
  "number32 d \<equiv> ucast (del_number d)"

definition deletion_rec :: "DeleteContext \<Rightarrow> bytes" where
  "deletion_rec d = rec_head (del_key d) @ encodeVarint32 (number32 d) @ [6] @
     spaces (varintLength (del_number d) - length (encodeVarint32 (number32 d)))"

lemma length_number32: "length (encodeVarint32 (number32 d)) \<le> varintLength (del_number d)"
proof -
  have "unat (number32 d) \<le> unat (del_number d)" by (simp add: unsigned_ucast_eq take_bit_nat_less_eq_self)
  moreover have "unat (del_number d) < 128 ^ varintLength (del_number d)"
    using leb_length_le [of "varintLength (del_number d)" "unat (del_number d)"] by (simp add: varintLength_leb)
  ultimately have "unat (number32 d) < 128 ^ varintLength (del_number d)" by (rule le_less_trans)
  then show ?thesis
    using leb_length_le [of "varintLength (del_number d)" "unat (number32 d)"]
    by (simp add: encodeVarint32_leb varintLength_leb)
qed

lemma Delete_entry_eq:
  assumes "short (del_key d)"
  shows "Delete_entry d = (if del_number d < 2 ^ 63 then Inr (deletion_rec d) else Inl OutOfBounds)"
proof -
  let ?k = "del_key d" and ?e = "encodeVarint32 (number32 d)" and ?nn = "varintLength (del_number d)"
  let ?p = "length (encodeVarint32 (size32 ?k)) + length ?k" and ?nk = "varintLength (size64 ?k)"
  have nine: "?nn \<le> 9 \<longleftrightarrow> del_number d < 2 ^ 63" using leb_unat_64_9 by (simp add: varintLength_leb)
  have pos: "1 \<le> ?nn" by (simp add: varintLength_leb Suc_leI)
  have vec: "rd format32_vec ?nk = Inr (spaces ?nk)" using varint_size_bounds [OF assms] by (intro format_vec_spaces) auto
  have vec64: "rd format64_vec ?nn = (if del_number d < 2 ^ 63 then Inr (spaces ?nn) else Inl OutOfBounds)"
  proof (cases "?nn \<le> 9")
    case True
    then show ?thesis using format_vec_spaces(2) [of ?nn] pos nine by simp
  next
    case False
    then show ?thesis using nine by (simp add: rd_def format64_vec_def)
  qed
  define z where "z = ?nn - length ?e"
  have sp: "spaces ?nn @ [32] = spaces (length ?e) @ spaces 1 @ spaces z"
    using length_number32 [of d] by (simp add: z_def flip: replicate_add replicate_Suc) (simp add: replicate_append_same)
  have 1: "str_puts (spaces ?nk @ ?k @ spaces ?nn @ [32]) 0 (encodeVarint32 (size32 ?k)) =
      Inr (rec_head ?k @ spaces ?nn @ [32])"
    using str_puts_start [of "spaces ?nk" "encodeVarint32 (size32 ?k)" "?k @ spaces ?nn @ [32]"]
    by (simp add: rec_head_def varintLength_size [OF assms])
  have 2: "str_puts (rec_head ?k @ spaces ?nn @ [32]) ?p ?e = Inr (rec_head ?k @ ?e @ spaces 1 @ spaces z)"
    unfolding sp by (rule str_puts_append) (simp_all add: rec_head_def)
  have 3: "str_puts (rec_head ?k @ ?e @ spaces 1 @ spaces z) (?p + length ?e) [6] = Inr (rec_head ?k @ ?e @ [6] @ spaces z)"
    using str_puts_append [of "?p + length ?e" "rec_head ?k @ ?e" "spaces 1" "[6]" "spaces z"]
    by (simp add: rec_head_def)
  show ?thesis
    using 1 2 3 by (simp add: Delete_entry_def Let_def vec vec64 kEmpty1Space_def formatEncodeFixed8_def deletion_rec_def z_def)
qed

section \<open>The order of entries\<close>

lemma head_decode:
  assumes "short k"
  shows "getVarint32Ptr (rec_head k @ r) 0 5 = Inr (Some (size32 k, length (encodeVarint32 (size32 k))))"
  using getVarint32Ptr_encode [of 0 "[]" 5 "size32 k" "k @ r"] by (simp add: rec_head_def)

lemma head_view:
  assumes "short k"
  shows "view (rec_head k @ r) (length (encodeVarint32 (size32 k))) (length k) = Inr k"
  by (simp add: rec_head_def view_def)

text \<open>The key of an entry, and the entries that have one.\<close>

definition entry_key :: "bytes \<Rightarrow> bytes" where
  "entry_key e = (case getVarint32Ptr e 0 5 of
     Inr (Some (n, p)) \<Rightarrow> take (unat n) (drop p e)
   | _ \<Rightarrow> [])"

definition entries :: "bytes set" where
  "entries = {rec_head k @ r | k r. short k}"

lemma entry_key_head [simp]: "short k \<Longrightarrow> entry_key (rec_head k @ r) = k"
  by (simp add: entry_key_def head_decode) (simp add: rec_head_def)

lemma in_entries: "short k \<Longrightarrow> rec_head k @ r \<in> entries"
  by (auto simp: entries_def)

lemma Comparator_heads:
  assumes "short k" and "short k'"
  shows "Comparator (rec_head k @ r) (rec_head k' @ r') = Inr (k < k')"
  using assms by (simp add: Comparator_def head_decode head_view)

lemma comp_lt_ordered: "ordered_by entries entry_key comp_lt"
  by (auto simp: ordered_by_def entries_def comp_lt_def Comparator_heads)

section \<open>Decoding\<close>

lemma Get_decode_head:
  assumes "short k"
  shows "Get_decode (rec_head k @ encodeVarint64 n @ [t] @ x) g =
    (if n < 2 ^ 63 then
       if t = 0 then Inr (g\<lparr>get_code := setCode kDelete (get_code g)\<rparr>)
       else rbind (getVarint32Ptr (rec_head k @ encodeVarint64 n @ [t] @ x @ [0])
           (length (rec_head k @ encodeVarint64 n @ [t])) (length (rec_head k @ encodeVarint64 n @ [t]) + 5)) (\<lambda>r. case r of
             None \<Rightarrow> Inr (g\<lparr>get_value := [], get_code := setCode kOk (get_code g)\<rparr>)
           | Some (vs, p) \<Rightarrow> rbind (view (rec_head k @ encodeVarint64 n @ [t] @ x @ [0]) p (unat vs)) (\<lambda>v.
               Inr (g\<lparr>get_value := v, get_code := setCode kOk (get_code g)\<rparr>)))
     else Inl NullDeref)"
proof -
  let ?h = "rec_head k" and ?n = "encodeVarint64 n"
  define m where "m = c_str (?h @ ?n @ [t] @ x)"
  have m: "m = ?h @ ?n @ [t] @ x @ [0]" by (simp add: m_def c_str_def)
  have d1: "getVarint32Ptr m 0 5 = Inr (Some (size32 k, length (encodeVarint32 (size32 k))))"
    unfolding m by (rule head_decode [OF assms])
  have h: "length (encodeVarint32 (size32 k)) + unat (size32 k) = length ?h"
    using assms by (simp add: rec_head_def)
  have n9: "length ?n \<le> 9 \<longleftrightarrow> n < 2 ^ 63"
    using leb_unat_64_9 [of n] by (simp add: encodeVarint64_leb)
  have d2: "getVarint64Ptr m (length ?h) (length ?h + 9) =
      (if n < 2 ^ 63 then Inr (Some (n, length ?h + length ?n)) else Inr None)"
    using n9 getVarint64Ptr_encode [of "length ?h" ?h n "length ?h + 9" "[t] @ x @ [0]"]
      getVarint64Ptr_encode_short [of "length ?h" ?h "length ?h + 9" n "[t] @ x @ [0]"]
    by (cases "length ?n \<le> 9") (simp_all add: m)
  have d3: "formatDecodeFixed8 m (length ?h + length ?n) = Inr t"
    by (simp add: formatDecodeFixed8_def m nth_append)
  show ?thesis
    unfolding Get_decode_def Let_def m_def [symmetric]
    by (simp add: d1 h d2 d3) (simp add: m add_ac)
qed

lemma Get_decode_fields:
  assumes "short k" and "t \<noteq> 0"
  shows "Get_decode (rec_head k @ encodeVarint64 n @ [t] @ encodeVarint32 vs @ x) g =
    (if n < 2 ^ 63 then rbind (view (x @ [0]) 0 (unat vs)) (\<lambda>v.
         Inr (g\<lparr>get_value := v, get_code := setCode kOk (get_code g)\<rparr>))
     else Inl NullDeref)"
proof -
  define pre where "pre = rec_head k @ encodeVarint64 n @ [t]"
  have "getVarint32Ptr (pre @ encodeVarint32 vs @ x @ [0]) (length pre) (length pre + 5) =
      Inr (Some (vs, length pre + length (encodeVarint32 vs)))"
    by (rule getVarint32Ptr_encode) simp_all
  moreover have "view (pre @ encodeVarint32 vs @ x @ [0]) (length pre + length (encodeVarint32 vs)) (unat vs) =
      view (x @ [0]) 0 (unat vs)"
    by (simp add: view_def)
  ultimately show ?thesis
    using Get_decode_head [OF assms(1), of n t "encodeVarint32 vs @ x" g] assms(2) by (simp add: pre_def)
qed

text \<open>A deletion record: the size of the value is read from the terminator, or from a blank that was left over.\<close>

lemma Get_decode_deletion:
  assumes "short k" and "n < 2 ^ 63" and "t \<noteq> 0" and "z < 32"
  shows "Get_decode (rec_head k @ encodeVarint64 n @ [t] @ spaces z) g =
    (if z = 0 then Inr (g\<lparr>get_value := [], get_code := setCode kOk (get_code g)\<rparr>) else Inl OutOfBounds)"
proof -
  define pre where "pre = rec_head k @ encodeVarint64 n @ [t]"
  have d: "getVarint32Ptr (pre @ spaces z @ [0]) (length pre) (length pre + 5) =
      Inr (Some (if z = 0 then 0 else 32, Suc (length pre)))"
    by (cases z) (simp_all add: getVarint32Ptr_def nth_append)
  have "view (pre @ spaces z @ [0]) (Suc (length pre)) (unat (if z = 0 then 0 else 32 :: u32)) =
      (if z = 0 then Inr [] else Inl OutOfBounds)"
    using assms(4) by (simp add: view_def)
  with d show ?thesis
    using Get_decode_head [OF assms(1), of n t "spaces z" g] assms(2,3) by (cases z) (simp_all add: pre_def)
qed

section \<open>What a get makes of a record\<close>

text \<open>
  A value comes back as it was when the number of its record takes as many bytes as its length does. With a shorter number
  blanks precede it and as many bytes at its end are lost; with a number one byte longer the first byte is lost and the
  terminator follows; with a longer one the read leaves the string.
\<close>

definition recalled :: "SetContext \<Rightarrow> bytes" where
  "recalled c = (let nn = varintLength (set_number c); nv = varintLength (size64 (set_value c)) in
     take (length (set_value c)) (if nn \<le> nv then spaces (nv - nn) @ set_value c else tl (set_value c) @ [0]))"

definition set_answer :: "SetContext \<Rightarrow> GetContext \<Rightarrow> GetContext res" where
  "set_answer c g =
     (if varintLength (set_number c) \<le> varintLength (size64 (set_value c)) + 1
      then Inr (g\<lparr>get_value := recalled c, get_code := setCode kOk (get_code g)\<rparr>)
      else if set_number c < 2 ^ 63 then Inl OutOfBounds else Inl NullDeref)"

lemma recalled_same:
  "varintLength (set_number c) = varintLength (size64 (set_value c)) \<Longrightarrow> recalled c = set_value c"
  by (simp add: recalled_def)

lemma Get_decode_stored:
  assumes "short (set_key c)" and "short (set_value c)" and "set_fits c"
  shows "Get_decode (stored_rec c) g = set_answer c g"
proof -
  let ?k = "set_key c" and ?v = "set_value c" and ?n = "set_number c"
  let ?nn = "varintLength ?n" and ?nv = "varintLength (size64 ?v)"
  define R where "R = spaces (2 * ?nv + 1) @ ?v"
  have rec: "stored_rec c = rec_head ?k @ take (length R) (set_fields c) @ drop (length (set_fields c)) R"
    by (simp add: stored_rec_def R_def Let_def)
  have F: "length (set_fields c) = ?nn + 1 + ?nv" by (rule length_set_fields [OF assms(2)])
  have small: "?n < 2 ^ 63" if "?nn \<le> ?nv + 1"
    using that varint_size_bounds [OF assms(2)] leb_unat_64_9 [of ?n] by (simp add: varintLength_leb)
  show ?thesis
  proof (cases "?v = [] \<and> ?nn = 2")
    case True
    then have one: "?nv = 1" using varint_one by simp
    have "take (length R) (set_fields c) = encodeVarint64 ?n @ [1]"
      using True one by (simp add: set_fields_def R_def length_encodeVarint64)
    then show ?thesis
      using True one F small Get_decode_deletion [OF assms(1), of ?n 1 0 g]
      by (simp add: rec R_def set_answer_def recalled_def)
  next
    case False
    then have room: "?nn \<le> ?nv + length ?v" using assms(3) by (auto simp: set_fits_def)
    define x where "x = drop (?nn - ?nv) (spaces (?nv - ?nn) @ ?v)"
    have x: "drop (?nn + 1 + ?nv) R = x" by (cases "?nn \<le> ?nv") (simp_all add: R_def x_def)
    have "stored_rec c = rec_head ?k @ encodeVarint64 ?n @ [1] @ encodeVarint32 (size32 ?v) @ x"
      using room F x by (simp add: rec set_fields_def R_def)
    then have dec: "Get_decode (stored_rec c) g = (if ?n < 2 ^ 63 then rbind (view (x @ [0]) 0 (length ?v)) (\<lambda>v.
         Inr (g\<lparr>get_value := v, get_code := setCode kOk (get_code g)\<rparr>)) else Inl NullDeref)"
      using Get_decode_fields [OF assms(1), of 1 ?n "size32 ?v" x g] assms(2) by simp
    consider "?nn \<le> ?nv" | "?nn = ?nv + 1" | "?nn > ?nv + 1" by linarith
    then have "view (x @ [0]) 0 (length ?v) = (if ?nn \<le> ?nv + 1 then Inr (recalled c) else Inl OutOfBounds)"
      using room by cases (auto simp: view_def x_def recalled_def Let_def drop_Suc)
    then show ?thesis using small by (auto simp: dec set_answer_def)
  qed
qed

definition delete_answer :: "DeleteContext \<Rightarrow> GetContext \<Rightarrow> GetContext res" where
  "delete_answer d g =
     (if length (encodeVarint32 (number32 d)) = varintLength (del_number d)
      then Inr (g\<lparr>get_value := [], get_code := setCode kOk (get_code g)\<rparr>) else Inl OutOfBounds)"

lemma delete_answer_small:
  "del_number d < 2 ^ 32 \<Longrightarrow> delete_answer d g = Inr (g\<lparr>get_value := [], get_code := setCode kOk (get_code g)\<rparr>)"
  by (simp add: delete_answer_def encodeVarint32_leb varintLength_leb word_less_nat_alt unsigned_ucast_eq
      take_bit_nat_eq_self)

lemma Get_decode_deletion_rec:
  assumes "short (del_key d)" and "del_number d < 2 ^ 63"
  shows "Get_decode (deletion_rec d) g = delete_answer d g"
proof -
  let ?z = "varintLength (del_number d) - length (encodeVarint32 (number32 d))"
  have n: "encodeVarint32 (number32 d) = encodeVarint64 (ucast (number32 d))"
    by (simp add: encodeVarint32_leb encodeVarint64_leb)
  have "(ucast (number32 d) :: u64) < 2 ^ 63"
    using unat_u32_less [of "number32 d"] by (simp add: word_less_nat_alt)
  moreover have "?z < 32" using leb_unat_64 [of "del_number d"] by (simp add: varintLength_leb)
  moreover have "?z = 0 \<longleftrightarrow> length (encodeVarint32 (number32 d)) = varintLength (del_number d)"
    using length_number32 [of d] by auto
  ultimately show ?thesis
    using Get_decode_deletion [OF assms(1), of "ucast (number32 d)" 6 ?z g]
    by (simp add: deletion_rec_def delete_answer_def n)
qed

section \<open>The table as a map\<close>

text \<open>
  The invariant of a table: the filter is sound for the stored keys, the entries have keys
  and are sorted. The record under a key is \<open>entry_of\<close>.
\<close>

context btree_set
begin

definition entry_of :: "'t Memtable \<Rightarrow> bytes \<Rightarrow> bytes option" where
  "entry_of mt = stored entry_key (memMap mt)"

definition mt_ok :: "hashers \<Rightarrow> 't Memtable \<Rightarrow> bool" where
  "mt_ok H mt \<longleftrightarrow> bloom_ok kBloomFilterDefaultSize (bloomFilter mt) \<and>
     set (bt_elems B (memMap mt)) \<subseteq> entries \<and> sorted_wrt comp_lt (bt_elems B (memMap mt)) \<and>
     (\<forall>k. entry_of mt k \<noteq> None \<longrightarrow>
        bf_IsMatch H kBloomFilterDefaultSize k (bloomFilter mt) = Inr True)"

lemma mt_ok_ctor: "mt_ok H (Memtable_ctor B g) \<and> entry_of (Memtable_ctor B g) = (\<lambda>_. None)"
  by (auto simp: mt_ok_def Memtable_ctor_def elems_empty entry_of_def stored_empty
      BloomFilter_ctor_ok)

text \<open>The step \<open>Set\<close> and \<open>Delete\<close> share: insert the key into the filter and a record.\<close>

lemma insert_record:
  assumes "mt_ok H mt" and "short k" and "e = rec_head k @ r"
  shows "\<exists>bf. bf_Insert H kBloomFilterDefaultSize k (bloomFilter mt) = Inr bf \<and>
    (\<forall>mt'. bloomFilter mt' = bf \<longrightarrow> memMap mt' = bt_insert B comp_lt e (memMap mt) \<longrightarrow>
       mt_ok H mt' \<and> entry_of mt' = (if entry_of mt k = None then (entry_of mt)(k \<mapsto> e) else entry_of mt))"
proof -
  have ok: "bloom_ok kBloomFilterDefaultSize (bloomFilter mt)"
    and sub: "set (bt_elems B (memMap mt)) \<subseteq> entries"
    and sorted: "sorted_wrt comp_lt (bt_elems B (memMap mt))"
    and m: "\<And>k. entry_of mt k \<noteq> None \<Longrightarrow>
      bf_IsMatch H kBloomFilterDefaultSize k (bloomFilter mt) = Inr True"
    using assms(1) by (auto simp: mt_ok_def)
  have e: "e \<in> entries" "entry_key e = k" using assms(2,3) in_entries by auto
  obtain bf where bf: "bf_Insert H kBloomFilterDefaultSize k (bloomFilter mt) = Inr bf"
    "bloom_ok kBloomFilterDefaultSize bf"
    using bloom.insert_ok [OF ok] by blast
  let ?t = "bt_insert B comp_lt e (memMap mt)"
  have st: "stored entry_key ?t = (if entry_of mt k = None then (entry_of mt)(k \<mapsto> e) else entry_of mt)"
    using stored_insert [OF comp_lt_ordered e(1) sub sorted] e(2) by (auto simp: entry_of_def fun_eq_iff)
  have el: "sorted_wrt comp_lt (bt_elems B ?t)" "set (bt_elems B ?t) \<subseteq> entries"
    using elems_insert [OF comp_lt_ordered e(1) sub sorted] e(1) sub by (auto split: if_splits)
  have "bf_IsMatch H kBloomFilterDefaultSize k' bf = Inr True"
    if "stored entry_key ?t k' \<noteq> None" for k'
  proof (cases "k' = k")
    case True
    then show ?thesis using bloom.insert_match [OF ok bf(1)] by simp
  next
    case False
    then have "entry_of mt k' \<noteq> None" using that st by (auto split: if_splits)
    then show ?thesis using bloom.match_kept [OF ok m bf(1)] by blast
  qed
  then show ?thesis
    using bf el st by (auto simp: mt_ok_def entry_of_def)
qed

lemma Memtable_Set_entry_of:
  assumes "mt_ok H mt" and "short (set_key c)" and "Set_entry c = Inr e"
    and "e = rec_head (set_key c) @ r"
  shows "\<exists>mt'. Memtable_Set B H c mt = Inr mt' \<and> mt_ok H mt' \<and>
    entry_of mt' = (if entry_of mt (set_key c) = None then (entry_of mt)(set_key c \<mapsto> e) else entry_of mt)"
proof -
  obtain bf where bf: "bf_Insert H kBloomFilterDefaultSize (set_key c) (bloomFilter mt) = Inr bf"
    and eff: "\<forall>mt'. bloomFilter mt' = bf \<longrightarrow> memMap mt' = bt_insert B comp_lt e (memMap mt) \<longrightarrow>
       mt_ok H mt' \<and> entry_of mt' =
         (if entry_of mt (set_key c) = None then (entry_of mt)(set_key c \<mapsto> e) else entry_of mt)"
    using insert_record [OF assms(1,2,4)] by blast
  show ?thesis
    unfolding Memtable_Set_def assms(3) rbind.simps bf Let_def by (simp add: eff)
qed

lemma Memtable_Delete_entry_of:
  assumes "mt_ok H mt" and "short (del_key d)" and "Delete_entry d = Inr e"
    and "e = rec_head (del_key d) @ r"
  shows "\<exists>mt'. Memtable_Delete B H d mt = Inr mt' \<and> mt_ok H mt' \<and>
    entry_of mt' = (if entry_of mt (del_key d) = None then (entry_of mt)(del_key d \<mapsto> e) else entry_of mt)"
proof -
  obtain bf where bf: "bf_Insert H kBloomFilterDefaultSize (del_key d) (bloomFilter mt) = Inr bf"
    and eff: "\<forall>mt'. bloomFilter mt' = bf \<longrightarrow> memMap mt' = bt_insert B comp_lt e (memMap mt) \<longrightarrow>
       mt_ok H mt' \<and> entry_of mt' =
         (if entry_of mt (del_key d) = None then (entry_of mt)(del_key d \<mapsto> e) else entry_of mt)"
    using insert_record [OF assms(1,2,4)] by blast
  show ?thesis
    unfolding Memtable_Delete_def assms(3) rbind.simps bf by (simp add: eff)
qed

lemma Memtable_Get_entry_of:
  assumes "mt_ok H mt" and "short (get_key g)"
  shows "Memtable_Get B H g mt = (case entry_of mt (get_key g) of
      None \<Rightarrow> Inr (g\<lparr>get_code := setCode kNotFound (get_code g)\<rparr>)
    | Some e \<Rightarrow> Get_decode e g)"
proof -
  have ok: "bloom_ok kBloomFilterDefaultSize (bloomFilter mt)"
    and m: "\<And>k. entry_of mt k \<noteq> None \<Longrightarrow>
      bf_IsMatch H kBloomFilterDefaultSize k (bloomFilter mt) = Inr True"
    using assms(1) by (auto simp: mt_ok_def)
  obtain b where b: "bf_IsMatch H kBloomFilterDefaultSize (get_key g) (bloomFilter mt) = Inr b"
    using bloom.match_ok [OF ok] by blast
  have "bt_find B comp_lt (rec_head (get_key g)) (memMap mt) = entry_of mt (get_key g)"
    using find_stored [OF comp_lt_ordered in_entries [OF assms(2), of "[]"], of "memMap mt"]
      entry_key_head [OF assms(2), of "[]"] assms(1) by (simp add: mt_ok_def entry_of_def)
  moreover have "entry_of mt (get_key g) = None" if "\<not> b"
    using m b that by fastforce
  ultimately show ?thesis
    using b by (auto simp: Memtable_Get_def Get_entry_eq [OF assms(2)])
qed

text \<open>A counter of the entry bytes, kept by \<open>Set\<close> alone.\<close>

definition entry_bytes :: "'t Memtable \<Rightarrow> nat" where
  "entry_bytes mt = (\<Sum>e \<in> set (bt_elems B (memMap mt)). length e)"

lemma Memtable_Set_size:
  assumes "mt_ok H mt" and "short (set_key c)" and "Set_entry c = Inr (rec_head (set_key c) @ r)"
    and "memSize mt = of_nat (entry_bytes mt)" and "Memtable_Set B H c mt = Inr mt'"
  shows "memSize mt' = of_nat (entry_bytes mt')"
proof -
  let ?e = "rec_head (set_key c) @ r" and ?t = "memMap mt"
  let ?t' = "bt_insert B comp_lt ?e ?t"
  have sub: "set (bt_elems B ?t) \<subseteq> entries" and sorted: "sorted_wrt comp_lt (bt_elems B ?t)"
    using assms(1) by (auto simp: mt_ok_def)
  have e: "?e \<in> entries" using in_entries [OF assms(2)] .
  have el: "sorted_wrt comp_lt (bt_elems B ?t')" "set (bt_elems B ?t') =
      (if \<exists>y \<in> set (bt_elems B ?t). equivalent comp_lt ?e y then set (bt_elems B ?t)
       else insert ?e (set (bt_elems B ?t)))"
    using elems_insert [OF comp_lt_ordered e sub sorted] by blast+
  then have sub': "set (bt_elems B ?t') \<subseteq> entries" using sub e by (auto split: if_splits)
  have card: "bt_size B ?t = card (set (bt_elems B ?t))" "bt_size B ?t' = card (set (bt_elems B ?t'))"
    using keys_distinct [OF comp_lt_ordered sub sorted] keys_distinct [OF comp_lt_ordered sub' el(1)]
    by (auto simp: bt_size_def distinct_card distinct_map)
  have mt': "memMap mt' = ?t'" "memSize mt' = (if bt_size B ?t' > bt_size B ?t
      then memSize mt + of_nat (length ?e) else memSize mt)"
    using assms(3,5) by (auto simp: Memtable_Set_def rbind_eq_Inr_iff Let_def)
  show ?thesis
  proof (cases "\<exists>y \<in> set (bt_elems B ?t). equivalent comp_lt ?e y")
    case True
    then have "set (bt_elems B ?t') = set (bt_elems B ?t)" using el(2) by simp
    then show ?thesis using mt' card assms(4) by (simp add: entry_bytes_def)
  next
    case False
    moreover have "?e \<notin> set (bt_elems B ?t)"
      using False sub e equivalent_key [OF comp_lt_ordered] by blast
    ultimately show ?thesis
      using mt' card assms(4) el(2) by (simp add: entry_bytes_def del: length_append)
  qed
qed

end

section \<open>Requests\<close>

text \<open>A request \<open>Set\<close> has room for.\<close>

definition storable :: "SetContext \<Rightarrow> bool" where
  "storable c \<longleftrightarrow> short (set_key c) \<and> short (set_value c) \<and> set_fits c"

text \<open>
  A request whose sequence number takes as many bytes as the length of its value, the room
  \<open>Set\<close> reserves for it.
\<close>

definition aligned :: "SetContext \<Rightarrow> bool" where
  "aligned c \<longleftrightarrow> short (set_key c) \<and> short (set_value c) \<and>
     varintLength (set_number c) = varintLength (size64 (set_value c))"

definition set_rec :: "SetContext \<Rightarrow> bytes" where
  "set_rec c = rec_head (set_key c) @ encodeVarint64 (set_number c) @ [1] @
     encodeVarint32 (size32 (set_value c)) @ set_value c"

lemma aligned_storable:
  assumes "aligned c"
  shows "storable c" "stored_rec c = set_rec c"
    "set_answer c g = Inr (g\<lparr>get_value := set_value c, get_code := setCode kOk (get_code g)\<rparr>)"
  using assms length_set_fields [of c]
  by (simp_all add: storable_def aligned_def set_fits_def stored_rec_def set_rec_def Let_def set_answer_def recalled_same)
    (simp_all add: set_fields_def)

lemma stored_rec_head: "\<exists>r. stored_rec c = rec_head (set_key c) @ r"
  by (simp add: stored_rec_def Let_def)

fun Memtable_Sets :: "'t btree_api \<Rightarrow> hashers \<Rightarrow> SetContext list \<Rightarrow> 't Memtable \<Rightarrow> 't Memtable res" where
  "Memtable_Sets B H [] mt = Inr mt"
| "Memtable_Sets B H (c # cs) mt = rbind (Memtable_Set B H c mt) (Memtable_Sets B H cs)"

lemma map_of_filter_first:
  "map_of (map (\<lambda>c. (f c, h c)) cs) k = map_option h (find (\<lambda>c. f c = k) cs)"
  by (induction cs) auto

context btree_set
begin

lemma Memtable_Sets_entry_of:
  assumes "mt_ok H mt" and "\<forall>c \<in> set cs. storable c"
  shows "\<exists>mt'. Memtable_Sets B H cs mt = Inr mt' \<and> mt_ok H mt' \<and>
    entry_of mt' = map_of (map (\<lambda>c. (set_key c, stored_rec c)) cs) ++ entry_of mt \<and>
    (memSize mt = of_nat (entry_bytes mt) \<longrightarrow> memSize mt' = of_nat (entry_bytes mt'))"
  using assms
proof (induction cs arbitrary: mt)
  case (Cons c cs)
  have c: "short (set_key c)" "Set_entry c = Inr (stored_rec c)"
    using Cons.prems(2) Set_entry_eq by (auto simp: storable_def)
  obtain r where r: "stored_rec c = rec_head (set_key c) @ r" using stored_rec_head by blast
  obtain mt1 where mt1: "Memtable_Set B H c mt = Inr mt1" "mt_ok H mt1"
    "entry_of mt1 = (if entry_of mt (set_key c) = None then (entry_of mt)(set_key c \<mapsto> stored_rec c) else entry_of mt)"
    using Memtable_Set_entry_of [OF Cons.prems(1) c r] by blast
  have size: "memSize mt = of_nat (entry_bytes mt) \<longrightarrow> memSize mt1 = of_nat (entry_bytes mt1)"
    using Memtable_Set_size [OF Cons.prems(1) c(1)] c(2) r mt1(1) by simp
  obtain mt' where mt': "Memtable_Sets B H cs mt1 = Inr mt'" "mt_ok H mt'"
    "entry_of mt' = map_of (map (\<lambda>c. (set_key c, stored_rec c)) cs) ++ entry_of mt1"
    "memSize mt1 = of_nat (entry_bytes mt1) \<longrightarrow> memSize mt' = of_nat (entry_bytes mt')"
    using Cons.IH [OF mt1(2)] Cons.prems(2) by auto
  have "entry_of mt' = map_of (map (\<lambda>c. (set_key c, stored_rec c)) (c # cs)) ++ entry_of mt"
    using mt'(3) mt1(3) by (auto simp: map_add_def fun_eq_iff split: option.splits if_splits)
  moreover have "Memtable_Sets B H (c # cs) mt = Inr mt'" using mt1(1) mt'(1) by simp
  ultimately show ?case using mt'(2,4) size by blast
qed simp

text \<open>From an empty table: the record of the first request of a key.\<close>

lemma Memtable_Sets_first:
  assumes "\<forall>c \<in> set cs. storable c"
  shows "\<exists>mt. Memtable_Sets B H cs (Memtable_ctor B n) = Inr mt \<and> mt_ok H mt \<and>
    (\<forall>k. entry_of mt k = map_option stored_rec (find (\<lambda>c. set_key c = k) cs))"
  using Memtable_Sets_entry_of [OF conjunct1 [OF mt_ok_ctor] assms] mt_ok_ctor
  by (fastforce simp: map_add_def map_of_filter_first)

lemma Get_first:
  assumes "mt_ok H mt" and "short (get_key g)" and "\<forall>c \<in> set cs. storable c"
    and "find (\<lambda>c. set_key c = get_key g) cs = Some c" and "entry_of mt (get_key g) = Some (stored_rec c)"
  shows "Memtable_Get B H g mt = set_answer c g"
proof -
  have "storable c" using assms(3,4) by (auto simp: find_Some_iff)
  then show ?thesis
    using Memtable_Get_entry_of [OF assms(1,2)] assms(5) by (simp add: Get_decode_stored storable_def)
qed

end

text \<open>Any sequence of \<open>Set\<close> and \<open>Delete\<close>, and the requests \<open>Set\<close> and \<open>Delete\<close> have room for.\<close>

datatype mt_op = MSet SetContext | MDelete DeleteContext

fun Memtable_ops :: "'t btree_api \<Rightarrow> hashers \<Rightarrow> mt_op list \<Rightarrow> 't Memtable \<Rightarrow> 't Memtable res" where
  "Memtable_ops B H [] mt = Inr mt"
| "Memtable_ops B H (MSet c # ops) mt = rbind (Memtable_Set B H c mt) (Memtable_ops B H ops)"
| "Memtable_ops B H (MDelete d # ops) mt = rbind (Memtable_Delete B H d mt) (Memtable_ops B H ops)"

fun op_short :: "mt_op \<Rightarrow> bool" where
  "op_short (MSet c) \<longleftrightarrow> short (set_key c) \<and> short (set_value c)"
| "op_short (MDelete d) \<longleftrightarrow> short (del_key d)"

fun fits_room :: "mt_op \<Rightarrow> bool" where
  "fits_room (MSet c) \<longleftrightarrow> set_fits c"
| "fits_room (MDelete d) \<longleftrightarrow> del_number d < 2 ^ 63"

context btree_set
begin

lemma Memtable_ops_step:
  assumes "mt_ok H mt" and "op_short op"
  shows "if fits_room op then \<exists>mt'. mt_ok H mt' \<and> (\<forall>ops. Memtable_ops B H (op # ops) mt = Memtable_ops B H ops mt')
    else \<forall>ops. Memtable_ops B H (op # ops) mt = Inl OutOfBounds"
proof (cases op)
  case (MSet c)
  obtain r where r: "stored_rec c = rec_head (set_key c) @ r" using stored_rec_head by blast
  show ?thesis
  proof (cases "set_fits c")
    case True
    then show ?thesis using Memtable_Set_entry_of [OF assms(1) _ _ r] Set_entry_eq [of c] assms(2) MSet by fastforce
  next
    case False
    then show ?thesis using Set_entry_eq [of c] assms(2) MSet by (simp add: Memtable_Set_def)
  qed
next
  case (MDelete d)
  have r: "deletion_rec d = rec_head (del_key d) @ encodeVarint32 (number32 d) @ [6] @
     spaces (varintLength (del_number d) - length (encodeVarint32 (number32 d)))" by (simp add: deletion_rec_def)
  show ?thesis
  proof (cases "del_number d < 2 ^ 63")
    case True
    then show ?thesis using Memtable_Delete_entry_of [OF assms(1) _ _ r] Delete_entry_eq [of d] assms(2) MDelete by fastforce
  next
    case False
    then show ?thesis using Delete_entry_eq [of d] assms(2) MDelete by (simp add: Memtable_Delete_def)
  qed
qed

lemma Memtable_ops_ok:
  "mt_ok H mt \<Longrightarrow> list_all op_short ops \<Longrightarrow>
    if list_all fits_room ops then \<exists>mt'. Memtable_ops B H ops mt = Inr mt' \<and> mt_ok H mt'
    else Memtable_ops B H ops mt = Inl OutOfBounds"
proof (induction ops arbitrary: mt)
  case (Cons op ops)
  show ?case
  proof (cases "fits_room op")
    case True
    then obtain mt' where "mt_ok H mt'" "Memtable_ops B H (op # ops) mt = Memtable_ops B H ops mt'"
      using Memtable_ops_step [OF Cons.prems(1), of op] Cons.prems(2) by auto
    then show ?thesis using Cons.IH [of mt'] Cons.prems(2) True by simp
  next
    case False
    then show ?thesis using Memtable_ops_step [OF Cons.prems(1), of op] Cons.prems(2) by simp
  qed
qed simp

lemma mt_ok_elems:
  assumes "mt_ok H mt" "e \<in> set (bt_elems B (memMap mt))"
  shows "bf_IsMatch H kBloomFilterDefaultSize (entry_key e) (bloomFilter mt) = Inr True"
proof -
  have "entry_of mt (entry_key e) = Some e"
    using assms stored_iff [OF comp_lt_ordered, of "memMap mt" "entry_key e" e]
    by (simp add: entry_of_def mt_ok_def)
  then show ?thesis using assms(1) by (simp add: mt_ok_def)
qed

end

section \<open>Properties\<close>

text \<open>Property C4. The first write of a key wins: after any sets that have room for their sequence numbers none has failed, and
  a \<open>Get\<close> is answered from the record of the first \<open>Set\<close> of its key, or with \<open>kNotFound\<close> when there was none, for every
  ordered set that keeps its contract and every choice of hash functions. What the record gives back is
  \<open>set_answer\<close>: the value when the number takes as many bytes as the length of the value does, the value shifted by the
  difference when the number takes fewer bytes or one more, and an error when it takes more.\<close>

theorem memtable_first_write_wins:
  assumes "btree_set B" and "\<forall>c \<in> set cs. storable c" and "short (get_key g)"
  shows "\<exists>mt. Memtable_Sets B H cs (Memtable_ctor B n) = Inr mt \<and>
    Memtable_Get B H g mt = (case find (\<lambda>c. set_key c = get_key g) cs of
        None \<Rightarrow> Inr (g\<lparr>get_code := setCode kNotFound (get_code g)\<rparr>)
      | Some c \<Rightarrow> set_answer c g) \<and>
    (\<forall>c. aligned c \<longrightarrow> set_answer c g = Inr (g\<lparr>get_value := set_value c, get_code := setCode kOk (get_code g)\<rparr>))"
proof -
  obtain mt where mt: "Memtable_Sets B H cs (Memtable_ctor B n) = Inr mt" "btree_set.mt_ok B H mt"
    "\<forall>k. btree_set.entry_of B mt k = map_option stored_rec (find (\<lambda>c. set_key c = k) cs)"
    using btree_set.Memtable_Sets_first [OF assms(1,2)] by blast
  have "Memtable_Get B H g mt = (case find (\<lambda>c. set_key c = get_key g) cs of
        None \<Rightarrow> Inr (g\<lparr>get_code := setCode kNotFound (get_code g)\<rparr>) | Some c \<Rightarrow> set_answer c g)"
    using btree_set.Memtable_Get_entry_of [OF assms(1) mt(2) assms(3)] mt(3)
      btree_set.Get_first [OF assms(1) mt(2) assms(3,2)] by (auto split: option.splits)
  then show ?thesis using mt(1) aligned_storable(3) by blast
qed

definition example_set :: "bytes \<Rightarrow> bytes \<Rightarrow> SetContext" where
  "example_set k v = \<lparr>set_key = k, set_value = v, set_code = Status_ctor, set_number = 7\<rparr>"

definition example_hashers :: hashers where
  "example_hashers = \<lparr>xx_hash = (\<lambda>k s. s), std_hash = (\<lambda>k. 1), city_hash = (\<lambda>k s. s), farm_hash = (\<lambda>k s. s)\<rparr>"

lemma example_aligned: "length v < 128 \<Longrightarrow> length k < 128 \<Longrightarrow> aligned (example_set k v)"
  by (simp add: aligned_def example_set_def short_def varintLength_leb unat_of_nat)

theorem memtable_first_write_wins_witness:
  "\<exists>mt. Memtable_Sets sorted_list_set example_hashers [example_set [97] [1], example_set [97] [2]]
      (Memtable_ctor sorted_list_set 0) = Inr mt \<and>
    Memtable_Get sorted_list_set example_hashers (GetContext_ctor 0 [97]) mt =
      Inr ((GetContext_ctor 0 [97])\<lparr>get_value := [1], get_code := setCode kOk Status_ctor\<rparr>)"
proof -
  have a: "aligned (example_set [97] [1])" "aligned (example_set [97] [2])" by (simp_all add: example_aligned)
  then have "\<forall>c \<in> set [example_set [97] [1], example_set [97] [2]]. storable c"
    "short (get_key (GetContext_ctor 0 [97]))"
    by (simp_all add: aligned_storable GetContext_ctor_def short_def)
  from memtable_first_write_wins [OF sorted_list.btree_set_axioms this, of example_hashers 0] a(1)
  show ?thesis by (auto simp: example_set_def GetContext_ctor_def simp del: Memtable_Sets.simps)
qed

text \<open>Property C35. A deletion does not hide a key: after sets that have room and a \<open>Delete\<close> whose number has a format, a
  \<open>Get\<close> of the key is answered from the record of the first \<open>Set\<close> as if nothing was deleted. If there was
  none it finds the deletion record, which it answers with \<open>kOk\<close> and an empty value when the number takes as many
  bytes in 32 bits as in 64, as every number below $2^{32}$ does, and with a read outside the string otherwise.
  \<open>kDelete\<close> is never reported.\<close>

theorem memtable_delete_keeps_key:
  assumes "btree_set B" and "\<forall>c \<in> set cs. storable c" and "short (del_key d)"
    and "del_number d < 2 ^ 63" and "get_key g = del_key d"
  shows "\<exists>mt mt'. Memtable_Sets B H cs (Memtable_ctor B n) = Inr mt \<and>
    Memtable_Delete B H d mt = Inr mt' \<and>
    Memtable_Get B H g mt' = (case find (\<lambda>c. set_key c = del_key d) cs of
        None \<Rightarrow> delete_answer d g
      | Some c \<Rightarrow> set_answer c g) \<and>
    (\<forall>g'. Memtable_Get B H g mt' = Inr g' \<longrightarrow> getCode (get_code g') = kOk) \<and>
    (del_number d < 2 ^ 32 \<longrightarrow>
      delete_answer d g = Inr (g\<lparr>get_value := [], get_code := setCode kOk (get_code g)\<rparr>))"
proof -
  obtain mt where mt: "Memtable_Sets B H cs (Memtable_ctor B n) = Inr mt" "btree_set.mt_ok B H mt"
    "\<forall>k. btree_set.entry_of B mt k = map_option stored_rec (find (\<lambda>c. set_key c = k) cs)"
    using btree_set.Memtable_Sets_first [OF assms(1,2)] by blast
  obtain mt' where mt': "Memtable_Delete B H d mt = Inr mt'" "btree_set.mt_ok B H mt'"
    "btree_set.entry_of B mt' = (if btree_set.entry_of B mt (del_key d) = None
       then (btree_set.entry_of B mt)(del_key d \<mapsto> deletion_rec d) else btree_set.entry_of B mt)"
    using btree_set.Memtable_Delete_entry_of [OF assms(1) mt(2) assms(3)] Delete_entry_eq [OF assms(3)] assms(4)
    by (auto simp: deletion_rec_def)
  have short: "short (get_key g)" using assms(3,5) by simp
  have get: "Memtable_Get B H g mt' = (case find (\<lambda>c. set_key c = del_key d) cs of
      None \<Rightarrow> delete_answer d g | Some c \<Rightarrow> set_answer c g)"
    using btree_set.Memtable_Get_entry_of [OF assms(1) mt'(2) short] mt'(3) mt(3) assms(5)
      btree_set.Get_first [OF assms(1) mt'(2) short assms(2)] Get_decode_deletion_rec [OF assms(3,4)]
    by (auto split: option.splits)
  moreover have "getCode (get_code g') = kOk" if "Memtable_Get B H g mt' = Inr g'" for g'
    using that unfolding get by (auto simp: delete_answer_def set_answer_def getCode_def setCode_def split: option.splits if_splits)
  ultimately show ?thesis using mt(1) mt'(1) delete_answer_small by blast
qed

theorem memtable_delete_keeps_key_witness:
  "\<exists>mt mt'. Memtable_Sets sorted_list_set example_hashers [example_set [97] [1]]
      (Memtable_ctor sorted_list_set 0) = Inr mt \<and>
    Memtable_Delete sorted_list_set example_hashers
      \<lparr>del_key = [97], del_code = Status_ctor, del_number = 8, del_callback = False\<rparr> mt = Inr mt' \<and>
    Memtable_Get sorted_list_set example_hashers (GetContext_ctor 0 [97]) mt' =
      Inr ((GetContext_ctor 0 [97])\<lparr>get_value := [1], get_code := setCode kOk Status_ctor\<rparr>)"
proof -
  let ?d = "\<lparr>del_key = [97], del_code = Status_ctor, del_number = 8, del_callback = False\<rparr>"
  have a: "aligned (example_set [97] [1])" by (simp add: example_aligned)
  then have "\<forall>c \<in> set [example_set [97] [1]]. storable c" "short (del_key ?d)" "del_number ?d < 2 ^ 63"
    "get_key (GetContext_ctor 0 [97]) = del_key ?d"
    by (simp_all add: aligned_storable GetContext_ctor_def short_def)
  from memtable_delete_keeps_key [OF sorted_list.btree_set_axioms this, of example_hashers 0] aligned_storable(3) [OF a]
  show ?thesis by (auto simp: example_set_def GetContext_ctor_def simp del: Memtable_Sets.simps)
qed

text \<open>A sequence number shorter than the length of the value shifts the value: \<open>Get\<close> returns the blanks of the unused
  room and loses as many bytes at the end.\<close>

lemma memtable_short_number_shifts_value:
  assumes "btree_set B" and "short (set_key c)" and "short (set_value c)"
    and "varintLength (set_number c) < varintLength (size64 (set_value c))" and "get_key g = set_key c"
  shows "\<exists>mt. Memtable_Sets B H [c] (Memtable_ctor B n) = Inr mt \<and>
    Memtable_Get B H g mt = Inr (g\<lparr>get_value :=
        take (length (set_value c))
          (replicate (varintLength (size64 (set_value c)) - varintLength (set_number c)) 32 @ set_value c),
      get_code := setCode kOk (get_code g)\<rparr>)"
proof -
  have c: "storable c" using assms(2-4) by (simp add: storable_def set_fits_def)
  then obtain mt where mt: "Memtable_Sets B H [c] (Memtable_ctor B n) = Inr mt" "btree_set.mt_ok B H mt"
    "btree_set.entry_of B mt (set_key c) = Some (stored_rec c)"
    using btree_set.Memtable_Sets_first [OF assms(1), of "[c]" H n] by auto
  have "Memtable_Get B H g mt = set_answer c g"
    using btree_set.Get_first [OF assms(1) mt(2), of g "[c]" c] c mt(3) assms(2,5) by simp
  then show ?thesis using mt(1) assms(4) by (simp add: set_answer_def recalled_def Let_def del: Memtable_Sets.simps)
qed

text \<open>\<open>getMemSize\<close> is the number of bytes of the stored entries, modulo
  $2^{32}$, as long as only \<open>Set\<close> is used: a request that finds its key present adds
  nothing.\<close>

lemma memtable_size_counts_entries:
  assumes "btree_set B" and "\<forall>c \<in> set cs. storable c"
  shows "\<exists>mt. Memtable_Sets B H cs (Memtable_ctor B n) = Inr mt \<and>
    getMemSize mt = of_nat (\<Sum>e \<in> set (bt_elems B (getMemTableRef mt)). length e)"
proof -
  note ctor = conjunct1 [OF btree_set.mt_ok_ctor [OF assms(1), of H n]]
  have "memSize (Memtable_ctor B n) = of_nat (btree_set.entry_bytes B (Memtable_ctor B n))"
    using btree_set.elems_empty [OF assms(1)]
    by (simp add: btree_set.entry_bytes_def [OF assms(1)] Memtable_ctor_def)
  then show ?thesis
    using btree_set.Memtable_Sets_entry_of [OF assms(1) ctor assms(2)]
    by (auto simp: getMemSize_def getMemTableRef_def btree_set.entry_bytes_def [OF assms(1)])
qed



end
