(* ===== verification/Memtable_View.thy ===== *)
theory Memtable_View
  imports Memtable
begin

text \<open>
  Read-only views of compacted memtables: \<open>src/db/memtable_view.cpp\<close> and its header. A view
  is loaded from the bytes \<open>m\<close> of a mapped file; positions are offsets in it, and a null
  pointer returned by one decoder is dereferenced by the next. The Bloom filter of a view is
  a bit set over the mapped bytes behind the header. A table is referred to by a handle.
\<close>

section \<open>Loading\<close>

record CompactInfo =
  firstLevel :: u32
  secondLevel :: u32
  IsInstead :: bool

record 't MemTable_view =
  sstable_ref :: nat
  mv_info :: CompactInfo
  mv_version :: u32
  memView :: bytes
  memViewSize :: u32
  cur_level :: u32
  isReadable :: bool
  number_n :: u32
  memMapView :: 't
  mv_bloomFilter :: "BloomFilter option"

text \<open>
  A header field: the next statement dereferences the pointer the decoder returned. The
  window reaches \<open>w\<close> bytes from the field on.
\<close>

definition field32 :: "bytes \<Rightarrow> nat \<Rightarrow> nat \<Rightarrow> (u32 \<times> nat) res" where
  "field32 m p w = rbind (getVarint32Ptr m p (p + w)) (\<lambda>r. case r of
     None \<Rightarrow> Inl NullDeref | Some f \<Rightarrow> Inr f)"

definition field64 :: "bytes \<Rightarrow> nat \<Rightarrow> nat \<Rightarrow> (u64 \<times> nat) res" where
  "field64 m p w = rbind (getVarint64Ptr m p (p + w)) (\<lambda>r. case r of
     None \<Rightarrow> Inl NullDeref | Some f \<Rightarrow> Inr f)"

text \<open>A decoded varint has at least one byte.\<close>

lemma getVarint32PtrFallback_loop_progress:
  "getVarint32PtrFallback_loop m p limit shift r = Inr (Some (v, q)) \<Longrightarrow> p < q"
proof (induction m p limit shift r rule: getVarint32PtrFallback_loop.induct)
  case (1 m p limit shift r)
  then show ?case
    by (subst (asm) getVarint32PtrFallback_loop.simps)
      (fastforce simp: rbind_eq_Inr_iff Let_def split: if_splits)
qed

lemma getVarint32Ptr_progress: "getVarint32Ptr m p limit = Inr (Some (v, q)) \<Longrightarrow> p < q"
  by (simp add: getVarint32Ptr_fallback getVarint32PtrFallback_def getVarint32PtrFallback_loop_progress)

text \<open>
  The loop both constructors end with: it cuts the rest of the file into records. A record
  whose value size does not decode is taken for a deletion; its key alone is inserted and the
  loop goes on behind the key size.
\<close>

function load_records :: "'t btree_api \<Rightarrow> bytes \<Rightarrow> nat \<Rightarrow> nat \<Rightarrow> 't \<Rightarrow> 't res" where
  "load_records B m p memViewEnd t =
     (if p < memViewEnd then
        rbind (getVarint32Ptr m p (p + 5)) (\<lambda>r. case r of
          None \<Rightarrow> Inl AssertFail
        | Some (key_size, end_2) \<Rightarrow>
            rbind (getVarint32Ptr m (end_2 + unat key_size) (end_2 + unat key_size + 5)) (\<lambda>r. case r of
              None \<Rightarrow>
                rbind (view m end_2 (unat key_size)) (\<lambda>kv_str_view.
                  load_records B m end_2 memViewEnd (bt_insert B comp_lt kv_str_view t))
            | Some (value_size, e) \<Rightarrow>
                rbind (view m p (e + unat value_size - p)) (\<lambda>kv_str_view.
                  load_records B m (e + unat value_size) memViewEnd
                    (bt_insert B comp_lt kv_str_view t))))
      else Inr t)"
  by pat_completeness auto
termination
  by (relation "measure (\<lambda>(_, _, p, e, _). e - p)")
    (auto dest!: getVarint32Ptr_progress)

declare load_records.simps [simp del]

text \<open>
  \<open>Init\<close> reads the filter seed with the window \<open>mmap_view.data() + 5\<close>, counted from the
  start of the file.
\<close>

definition MemTable_view_Init ::
  "'t btree_api \<Rightarrow> bytes \<Rightarrow> 't MemTable_view \<Rightarrow> (bool \<times> 't MemTable_view) res" where
  "MemTable_view_Init B m v =
     rbind (field32 m 0 5) (\<lambda>(version, p).
     rbind (field64 m p 9) (\<lambda>(create_time, p).
     rbind (field32 m p 5) (\<lambda>(cur_lev, p).
     rbind (field32 m p 5) (\<lambda>(cur_number, p).
     rbind (getVarint32Ptr m p (p + 5)) (\<lambda>r.
     rbind (guard (cur_lev = cur_level v) AssertFail) (\<lambda>_.
     rbind (guard (cur_number = cur_number) AssertFail) (\<lambda>_.
     case r of None \<Rightarrow> Inl NullDeref | Some (all_key_size, p) \<Rightarrow>
     rbind (getVarint64Ptr m p 5) (\<lambda>r.
     case r of None \<Rightarrow> Inl NullDeref | Some (bloomfilter_seed, p) \<Rightarrow>
     rbind (field32 m p 4) (\<lambda>(bloomfilter_size, p).
       let bf = BloomFilter_view (drop p m) (bloomfilter_size * 8) bloomfilter_seed in
       rbind (load_records B m (p + unat bloomfilter_size) (length m) (memMapView v)) (\<lambda>t.
       rbind (guard (unat all_key_size = bt_size B t) AssertFail) (\<lambda>_.
         Inr (True, v\<lparr>mv_version := version, memView := m, memViewSize := size32 m,
                     memMapView := t, mv_bloomFilter := Some bf\<rparr>))))))))))))"

text \<open>
  The constructor of a first-level view; the fields it does not set are those of \<open>garbage\<close>,
  the containers are empty.
\<close>

definition MemTable_view_ctor ::
  "'t btree_api \<Rightarrow> 't MemTable_view \<Rightarrow> bytes \<Rightarrow> u32 \<Rightarrow> u32 \<Rightarrow> nat \<Rightarrow> 't MemTable_view res" where
  "MemTable_view_ctor B garbage m n lev sstable =
     rbind (MemTable_view_Init B m
       (garbage\<lparr>cur_level := lev, number_n := n, sstable_ref := sstable,
                memMapView := bt_empty B, mv_bloomFilter := None\<rparr>)) (\<lambda>(_, v). Inr v)"

text \<open>
  The constructor of a merged view. It never reads a filter seed: the filter is built with
  the value the variable happens to have, \<open>garbage_seed\<close>.
\<close>

definition MemTable_view_merge_ctor ::
  "'t btree_api \<Rightarrow> u64 \<Rightarrow> 't MemTable_view \<Rightarrow> bytes \<Rightarrow> u32 \<Rightarrow> u32 \<Rightarrow> u32 \<Rightarrow> nat \<Rightarrow> 't MemTable_view res" where
  "MemTable_view_merge_ctor B garbage_seed garbage m number level_1 level_2 sstable =
     rbind (field32 m 0 5) (\<lambda>(version, p).
     rbind (field64 m p 9) (\<lambda>(createTime, p).
     rbind (field32 m p 5) (\<lambda>(cur_lev_1, p).
     rbind (getVarint32Ptr m p (p + 5)) (\<lambda>r.
     case r of None \<Rightarrow> Inl NullDeref | Some (cur_lev_2, p) \<Rightarrow>
     rbind (guard (cur_lev_2 = level_1) AssertFail) (\<lambda>_.
     rbind (getVarint32Ptr m p (p + 5)) (\<lambda>r.
     case r of None \<Rightarrow> Inl NullDeref | Some (mem_number, p) \<Rightarrow>
     rbind (guard (mem_number = number) AssertFail) (\<lambda>_.
     rbind (field32 m p 5) (\<lambda>(all_key_size, p).
     rbind (field32 m p 5) (\<lambda>(bloom_filter_size, p).
       let bf = BloomFilter_view (drop p m) (bloom_filter_size * 8) garbage_seed in
       rbind (load_records B m (p + unat bloom_filter_size) (length m) (bt_empty B)) (\<lambda>t.
       rbind (guard (unat all_key_size = bt_size B t) AssertFail) (\<lambda>_.
         Inr (garbage\<lparr>sstable_ref := sstable,
                mv_info := \<lparr>firstLevel = level_1, secondLevel = level_2, IsInstead = False\<rparr>,
                mv_version := version, memView := m, memViewSize := size32 m,
                number_n := number, memMapView := t, mv_bloomFilter := Some bf\<rparr>))))))))))))"

section \<open>Reading\<close>

definition MemTable_view_Get ::
  "'t btree_api \<Rightarrow> hashers \<Rightarrow> GetContext \<Rightarrow> 't MemTable_view \<Rightarrow> GetContext res" where
  "MemTable_view_Get B H g v =
     (case mv_bloomFilter v of None \<Rightarrow> Inl NullDeref | Some bf \<Rightarrow>
      rbind (bf_IsMatch H kBloomFilterDefaultSize (get_key g) bf) (\<lambda>is_match.
      if \<not> is_match then Inr (g\<lparr>get_code := setCode kNotFound (get_code g)\<rparr>)
      else
        rbind (rd format32_vec (varintLength (size64 (get_key g)))) (\<lambda>fk.
        rbind (str_puts (fk @ get_key g) 0 (encodeVarint32 (size32 (get_key g)))) (\<lambda>simple_get_str.
        case bt_find B comp_lt simple_get_str (memMapView v) of
          None \<Rightarrow> Inr (g\<lparr>get_code := setCode kNotFound (get_code g)\<rparr>)
        | Some m \<Rightarrow>
            if length m = length simple_get_str
            then Inr (g\<lparr>get_code := setCode kDelete (get_code g)\<rparr>)
            else
              rbind (getVarint32Ptr m 0 5) (\<lambda>r. case r of
                None \<Rightarrow> Inl AssertFail
              | Some (key_size, p) \<Rightarrow>
                  rbind (field32 m (p + unat key_size) 5) (\<lambda>(value_size, p).
                  rbind (view m p (unat value_size)) (\<lambda>value.
                    Inr (g\<lparr>get_value := value, get_code := setCode kOk (get_code g)\<rparr>))))))))"

definition view_setNumber :: "u32 \<Rightarrow> 't MemTable_view \<Rightarrow> 't MemTable_view" where
  "view_setNumber n v = v\<lparr>number_n := n\<rparr>"

definition view_getNumber :: "'t MemTable_view \<Rightarrow> u32" where
  "view_getNumber v = number_n v"

definition view_setLevel :: "u32 \<Rightarrow> 't MemTable_view \<Rightarrow> 't MemTable_view" where
  "view_setLevel n v = v\<lparr>cur_level := n\<rparr>"

definition view_getLevel :: "'t MemTable_view \<Rightarrow> u32" where
  "view_getLevel v = cur_level v"

definition view_setReadOnly :: "'t MemTable_view \<Rightarrow> 't MemTable_view" where
  "view_setReadOnly v = v\<lparr>isReadable := True\<rparr>"

section \<open>Records of a view\<close>

text \<open>A live record and a deletion as the compactor writes them.\<close>

definition kv_rec :: "bytes \<times> bytes \<Rightarrow> bytes" where
  "kv_rec kv = rec_head (fst kv) @ encodeVarint32 (size32 (snd kv)) @ snd kv"

lemma field32_progress: "field32 m p w = Inr (v, q) \<Longrightarrow> p < q"
  by (auto simp: field32_def rbind_eq_Inr_iff split: option.splits dest: getVarint32Ptr_progress)

lemma getVarint64Ptr_loop_progress:
  "getVarint64Ptr_loop m p limit shift r = Inr (Some (v, q)) \<Longrightarrow> p < q"
proof (induction m p limit shift r rule: getVarint64Ptr_loop.induct)
  case (1 m p limit shift r)
  then show ?case
    by (subst (asm) getVarint64Ptr_loop.simps)
      (fastforce simp: rbind_eq_Inr_iff Let_def split: if_splits)
qed

lemma field64_progress: "field64 m p w = Inr (v, q) \<Longrightarrow> p < q"
  by (auto simp: field64_def getVarint64Ptr_def rbind_eq_Inr_iff split: option.splits
      dest: getVarint64Ptr_loop_progress)

lemma load_records_live:
  assumes "short (fst kv)" and "short (snd kv)"
    and "p = length pre" and "memViewEnd = length (pre @ kv_rec kv @ post)"
  shows "load_records B (pre @ kv_rec kv @ post) p memViewEnd t =
    load_records B (pre @ kv_rec kv @ post) (p + length (kv_rec kv)) memViewEnd
      (bt_insert B comp_lt (kv_rec kv) t)"
proof -
  let ?m = "pre @ kv_rec kv @ post"
  let ?ek = "encodeVarint32 (size32 (fst kv))" and ?ev = "encodeVarint32 (size32 (snd kv))"
  have m: "?m = pre @ ?ek @ fst kv @ ?ev @ snd kv @ post" by (simp add: kv_rec_def rec_head_def)
  have d1: "getVarint32Ptr ?m p (p + 5) = Inr (Some (size32 (fst kv), p + length ?ek))"
    unfolding m by (rule getVarint32Ptr_encode) (use assms in auto)
  let ?q = "p + length ?ek + length (fst kv)"
  have d2: "getVarint32Ptr ?m ?q (?q + 5) = Inr (Some (size32 (snd kv), ?q + length ?ev))"
    using getVarint32Ptr_encode [of ?q "pre @ ?ek @ fst kv" "?q + 5" "size32 (snd kv)" "snd kv @ post"]
      assms(3) unfolding m by simp
  have len: "?q + length ?ev + length (snd kv) = p + length (kv_rec kv)"
    by (simp add: kv_rec_def rec_head_def)
  have v: "view ?m p (length (kv_rec kv)) = Inr (kv_rec kv)"
    using assms(3) by (simp add: view_def)
  have "0 < length (kv_rec kv)" by (simp add: kv_rec_def rec_head_def encodeVarint32_leb)
  then have "p < memViewEnd" using assms(3,4) by simp
  then show ?thesis
    by (subst load_records.simps)
      (simp add: d1 d2 assms(1,2) len v)
qed

lemma load_records_all:
  assumes "\<forall>kv \<in> set ps. short (fst kv) \<and> short (snd kv)"
  shows "load_records B (pre @ concat (map kv_rec ps)) (length pre)
      (length (pre @ concat (map kv_rec ps))) t =
    Inr (foldl (\<lambda>t r. bt_insert B comp_lt r t) t (map kv_rec ps))"
  using assms
proof (induction ps arbitrary: pre t)
  case Nil
  then show ?case by (simp add: load_records.simps)
next
  case (Cons kv ps)
  have "load_records B ((pre @ kv_rec kv) @ concat (map kv_rec ps)) (length (pre @ kv_rec kv))
      (length ((pre @ kv_rec kv) @ concat (map kv_rec ps))) (bt_insert B comp_lt (kv_rec kv) t) =
      Inr (foldl (\<lambda>t r. bt_insert B comp_lt r t) (bt_insert B comp_lt (kv_rec kv) t) (map kv_rec ps))"
    using Cons.prems by (intro Cons.IH) auto
  moreover have "load_records B (pre @ kv_rec kv @ concat (map kv_rec ps)) (length pre)
      (length (pre @ kv_rec kv @ concat (map kv_rec ps))) t =
    load_records B (pre @ kv_rec kv @ concat (map kv_rec ps)) (length pre + length (kv_rec kv))
      (length (pre @ kv_rec kv @ concat (map kv_rec ps))) (bt_insert B comp_lt (kv_rec kv) t)"
    using Cons.prems by (intro load_records_live) auto
  ultimately show ?case
    by simp
qed

context btree_set
begin

lemma inserts_stored:
  assumes "set (bt_elems B t) \<subseteq> entries" and "sorted_wrt comp_lt (bt_elems B t)"
    and "\<forall>kv \<in> set ps. short (fst kv) \<and> short (snd kv)"
  shows "let t' = foldl (\<lambda>t r. bt_insert B comp_lt r t) t (map kv_rec ps) in
    set (bt_elems B t') \<subseteq> entries \<and> sorted_wrt comp_lt (bt_elems B t') \<and>
    stored entry_key t' = map_of (map (\<lambda>kv. (fst kv, kv_rec kv)) ps) ++ stored entry_key t"
  using assms
proof (induction ps arbitrary: t)
  case (Cons kv ps)
  obtain r where r: "kv_rec kv = rec_head (fst kv) @ r" by (simp add: kv_rec_def)
  then have e: "kv_rec kv \<in> entries" "entry_key (kv_rec kv) = fst kv"
    using Cons.prems(3) in_entries by auto
  let ?t1 = "bt_insert B comp_lt (kv_rec kv) t"
  have t1: "set (bt_elems B ?t1) \<subseteq> entries" "sorted_wrt comp_lt (bt_elems B ?t1)"
    using elems_insert [OF comp_lt_ordered e(1) Cons.prems(1,2)] e(1) Cons.prems(1)
    by (auto split: if_splits)
  have st: "stored entry_key ?t1 k = (if k = fst kv \<and> stored entry_key t k = None then Some (kv_rec kv)
      else stored entry_key t k)" for k
    using stored_insert [OF comp_lt_ordered e(1) Cons.prems(1,2)] e(2) by simp
  have "map_of (map (\<lambda>kv. (fst kv, kv_rec kv)) ps) ++ stored entry_key ?t1 =
      map_of (map (\<lambda>kv. (fst kv, kv_rec kv)) (kv # ps)) ++ stored entry_key t"
    by (auto simp: map_add_def fun_eq_iff st split: option.splits if_splits)
  then show ?case
    using Cons.IH [OF t1] Cons.prems(3) by (simp add: Let_def fun_upd_def)
qed simp

lemma stored_size:
  assumes "set (bt_elems B t) \<subseteq> entries" and "sorted_wrt comp_lt (bt_elems B t)"
  shows "bt_size B t = card (dom (stored entry_key t))"
proof -
  have "dom (stored entry_key t) = entry_key ` set (bt_elems B t)"
    using stored_iff [OF comp_lt_ordered assms] by (auto simp: dom_def)
  then show ?thesis
    using keys_distinct [OF comp_lt_ordered assms]
    by (metis bt_size_def distinct_card length_map list.set_map)
qed

end

text \<open>A key-value record read field by field.\<close>

lemma kv_rec_value:
  assumes "short k" and "short y"
  shows "rbind (getVarint32Ptr (kv_rec (k, y)) 0 5) (\<lambda>r. case r of
      None \<Rightarrow> Inl AssertFail
    | Some (key_size, p) \<Rightarrow> rbind (field32 (kv_rec (k, y)) (p + unat key_size) 5) (\<lambda>(value_size, p).
        rbind (view (kv_rec (k, y)) p (unat value_size)) f)) = f y"
proof -
  let ?r = "kv_rec (k, y)" and ?h = "rec_head k" and ?ev = "encodeVarint32 (size32 y)"
  have d1: "getVarint32Ptr ?r 0 5 = Inr (Some (size32 k, length (encodeVarint32 (size32 k))))"
    using head_decode [OF assms(1)] by (simp add: kv_rec_def)
  have h: "length (encodeVarint32 (size32 k)) + length k = length ?h"
    by (simp add: rec_head_def)
  have d2: "getVarint32Ptr ?r (length ?h) (length ?h + 5) = Inr (Some (size32 y, length ?h + length ?ev))"
    unfolding kv_rec_def by (simp, rule getVarint32Ptr_encode) auto
  have "view ?r (length ?h + length ?ev) (length y) = Inr y"
    by (simp add: kv_rec_def view_def)
  then show ?thesis by (simp add: d1 h assms field32_def d2)
qed

text \<open>What a view answers: what is stored, if the filter lets the key through.\<close>

lemma view_Get_stored:
  assumes "btree_set B" and "set (bt_elems B (memMapView v)) \<subseteq> entries"
    and "sorted_wrt comp_lt (bt_elems B (memMapView v))" and "mv_bloomFilter v = Some bf"
    and "bloom_ok kBloomFilterDefaultSize bf" and "short (get_key g)"
    and "btree_set.stored B entry_key (memMapView v) (get_key g) = map_option (\<lambda>x. kv_rec (get_key g, x)) x"
    and "\<And>y. x = Some y \<Longrightarrow> short y"
  shows "MemTable_view_Get B H g v = Inr (case
        if bf_IsMatch H kBloomFilterDefaultSize (get_key g) bf = Inr True then x else None of
      None \<Rightarrow> g\<lparr>get_code := setCode kNotFound (get_code g)\<rparr>
    | Some y \<Rightarrow> g\<lparr>get_value := y, get_code := setCode kOk (get_code g)\<rparr>)"
proof -
  let ?k = "get_key g"
  obtain b where b: "bf_IsMatch H kBloomFilterDefaultSize ?k bf = Inr b"
    using bloom.match_ok [OF assms(5)] by blast
  have find: "bt_find B comp_lt (rec_head ?k) (memMapView v)
      = map_option (\<lambda>x. kv_rec (?k, x)) x"
    using btree_set.find_stored [OF assms(1) comp_lt_ordered in_entries [OF assms(6), of "[]"]
        _ assms(3)] assms(2,7) entry_key_head [OF assms(6), of "[]"] by simp
  have get: "MemTable_view_Get B H g v = (if \<not> b then Inr (g\<lparr>get_code := setCode kNotFound (get_code g)\<rparr>)
      else case bt_find B comp_lt (rec_head ?k) (memMapView v) of
          None \<Rightarrow> Inr (g\<lparr>get_code := setCode kNotFound (get_code g)\<rparr>)
        | Some m \<Rightarrow>
            if length m = length (rec_head ?k)
            then Inr (g\<lparr>get_code := setCode kDelete (get_code g)\<rparr>)
            else
              rbind (getVarint32Ptr m 0 5) (\<lambda>r. case r of
                None \<Rightarrow> Inl AssertFail
              | Some (key_size, p) \<Rightarrow>
                  rbind (field32 m (p + unat key_size) 5) (\<lambda>(value_size, p).
                  rbind (view m p (unat value_size)) (\<lambda>value.
                    Inr (g\<lparr>get_value := value, get_code := setCode kOk (get_code g)\<rparr>)))))"
    using Get_entry_eq [OF assms(6)] unfolding Get_entry_def
    by (auto simp: MemTable_view_Get_def assms(4) b rbind_eq_Inr_iff)
  show ?thesis
  proof (cases x)
    case None
    then show ?thesis using get find b by simp
  next
    case (Some y)
    have "length (kv_rec (?k, y)) \<noteq> length (rec_head ?k)" by (simp add: kv_rec_def encodeVarint32_leb)
    then show ?thesis
      using Some get find b assms(8) by (simp add: kv_rec_value assms(6))
  qed
qed

lemma map_of_kv_rec:
  "map_of (map (\<lambda>kv. (fst kv, kv_rec kv)) ps) k = map_option (\<lambda>x. kv_rec (k, x)) (map_of ps k)"
  by (induction ps) auto

text \<open>A filter of ones matches every key.\<close>

lemma ones_match:
  assumes "length bloom = kBloomFilterDefaultSize div 8" and "set bloom \<subseteq> {255}"
  shows "bf_IsMatch H kBloomFilterDefaultSize k (BloomFilter_view (bloom @ rest) sz seed) = Inr True"
proof -
  let ?f = "BloomFilter_view (bloom @ rest) sz seed"
  have N: "kBloomFilterDefaultSize = 8 * length bloom" "0 < length bloom" "8 * length bloom < 2 ^ 32"
    using assms(1) by (simp_all add: kBloomFilterDefaultSize_def)
  have ok: "bloom_ok kBloomFilterDefaultSize ?f"
    using assms(1) by (simp add: bloom_ok_def BloomFilter_view_def BitSet_view_def bs_bits_def
        kBloomFilterDefaultSize_def)
  have small: "bloom_ok kBloomFilterDefaultSize (BloomFilter_view bloom sz seed)"
    using assms(1) by (simp add: bloom_ok_def BloomFilter_view_def BitSet_view_def bs_bits_def
        kBloomFilterDefaultSize_def)
  have bit: "bs_bit (bf_filter ?f) j" if "j < 8 * length bloom" for j
  proof -
    have "j div 8 < length bloom" using that by simp
    moreover from this have "bloom ! (j div 8) \<in> {255}"
      using assms(2) nth_mem by blast
    ultimately have "(bloom @ rest) ! (j div 8) = 255"
      by (simp add: nth_append)
    moreover have "bit (255 :: u8) i" if "i < 8" for i
      using below_8 [OF that] by auto
    ultimately show ?thesis by (simp add: bs_bit_def BloomFilter_view_def BitSet_view_def)
  qed
  have "j < 8 * length bloom" if "j \<in> bf_positions H kBloomFilterDefaultSize k (bf_seed ?f)" for j
    using that bf_idx_in [OF small] by (auto simp: bf_positions_def BloomFilter_view_def BitSet_view_def bs_bits_def)
  then show ?thesis
    using bit by (simp add: bf_IsMatch_positions [OF ok])
qed

text \<open>A mapped file as the merge constructor expects it.\<close>

definition merge_header :: "u32 \<Rightarrow> u64 \<Rightarrow> u32 \<Rightarrow> u32 \<Rightarrow> u32 \<Rightarrow> u32 \<Rightarrow> bytes \<Rightarrow> bytes" where
  "merge_header version time lev_1 lev_2 number count bloom =
     encodeVarint32 version @ encodeVarint64 time @ encodeVarint32 lev_1 @ encodeVarint32 lev_2 @
     encodeVarint32 number @ encodeVarint32 count @ encodeVarint32 (size32 bloom)"

lemma field32_encode:
  "p = length pre \<Longrightarrow> field32 (pre @ encodeVarint32 v @ post) p 5 = Inr (v, p + length (encodeVarint32 v))"
  by (simp add: field32_def getVarint32Ptr_encode)

lemma field64_encode:
  assumes "p = length pre" and "v < 2 ^ 63"
  shows "field64 (pre @ encodeVarint64 v @ post) p 9 = Inr (v, p + length (encodeVarint64 v))"
proof -
  have "length (encodeVarint64 v) \<le> 9"
    using leb_unat_64_9 [of v] assms(2) by (simp add: encodeVarint64_leb)
  then show ?thesis using assms(1) by (simp add: field64_def getVarint64Ptr_encode)
qed

lemma merge_ctor_eq:
  assumes "time < 2 ^ 63" and "short bloom"
    and "m = merge_header version time lev_1 level_1 number count bloom @ bloom @ recs"
    and "q = length (merge_header version time lev_1 level_1 number count bloom)"
  shows "MemTable_view_merge_ctor B seed garbage m number level_1 level_2 sstable =
    rbind (load_records B m (q + length bloom) (length m) (bt_empty B)) (\<lambda>t.
    rbind (guard (unat count = bt_size B t) AssertFail) (\<lambda>_.
      Inr (garbage\<lparr>sstable_ref := sstable,
         mv_info := \<lparr>firstLevel = level_1, secondLevel = level_2, IsInstead = False\<rparr>,
         mv_version := version, memView := m, memViewSize := size32 m, number_n := number,
         memMapView := t,
         mv_bloomFilter := Some (BloomFilter_view (drop q m) (size32 bloom * 8) seed)\<rparr>)))"
proof -
  define f1 f2 f3 f4 f5 f6 f7 where "f1 = encodeVarint32 version" and "f2 = encodeVarint64 time"
    and "f3 = encodeVarint32 lev_1" and "f4 = encodeVarint32 level_1" and "f5 = encodeVarint32 number"
    and "f6 = encodeVarint32 count" and "f7 = encodeVarint32 (size32 bloom)"
  define p1 p2 p3 p4 p5 p6 p7 where p: "p1 = length f1" "p2 = p1 + length f2" "p3 = p2 + length f3"
    "p4 = p3 + length f4" "p5 = p4 + length f5" "p6 = p5 + length f6" "p7 = p6 + length f7"
  have m: "m = f1 @ f2 @ f3 @ f4 @ f5 @ f6 @ f7 @ bloom @ recs" and q: "q = p7"
    using assms(3,4) by (simp_all add: merge_header_def f1_def f2_def f3_def f4_def f5_def f6_def f7_def p)
  have 1: "field32 m 0 5 = Inr (version, p1)"
    using field32_encode [of 0 "[]" version] by (simp add: m f1_def p)
  have 2: "field64 m p1 9 = Inr (time, p2)"
    using field64_encode [of p1 f1 time, OF _ assms(1)] by (simp add: m f2_def p)
  have 3: "field32 m p2 5 = Inr (lev_1, p3)"
    using field32_encode [of p2 "f1 @ f2" lev_1] by (simp add: m f3_def p)
  have 4: "getVarint32Ptr m p3 (p3 + 5) = Inr (Some (level_1, p4))"
    using getVarint32Ptr_encode [of p3 "f1 @ f2 @ f3" "p3 + 5" level_1] by (simp add: m f4_def p)
  have 5: "getVarint32Ptr m p4 (p4 + 5) = Inr (Some (number, p5))"
    using getVarint32Ptr_encode [of p4 "f1 @ f2 @ f3 @ f4" "p4 + 5" number] by (simp add: m f5_def p)
  have 6: "field32 m p5 5 = Inr (count, p6)"
    using field32_encode [of p5 "f1 @ f2 @ f3 @ f4 @ f5" count] by (simp add: m f6_def p)
  have 7: "field32 m p6 5 = Inr (size32 bloom, p7)"
    using field32_encode [of p6 "f1 @ f2 @ f3 @ f4 @ f5 @ f6" "size32 bloom"] by (simp add: m f7_def p)
  show ?thesis
    unfolding MemTable_view_merge_ctor_def 1 rbind.simps prod.case 2 3 4 option.case 5 6 7
    by (simp add: q assms(2))
qed

lemma inserted_records:
  assumes "btree_set B" and "distinct (map fst ps)" and "\<forall>kv \<in> set ps. short (fst kv) \<and> short (snd kv)"
  defines "t \<equiv> foldl (\<lambda>t r. bt_insert B comp_lt r t) (bt_empty B) (map kv_rec ps)"
  shows "set (bt_elems B t) \<subseteq> entries" "sorted_wrt comp_lt (bt_elems B t)" "bt_size B t = length ps"
    "btree_set.stored B entry_key t = map_of (map (\<lambda>kv. (fst kv, kv_rec kv)) ps)"
proof -
  show t: "set (bt_elems B t) \<subseteq> entries" "sorted_wrt comp_lt (bt_elems B t)"
    "btree_set.stored B entry_key t = map_of (map (\<lambda>kv. (fst kv, kv_rec kv)) ps)"
    using btree_set.inserts_stored [OF assms(1) _ _ assms(3), of "bt_empty B"]
      btree_set.elems_empty [OF assms(1)] btree_set.stored_empty [OF assms(1)]
    by (auto simp: Let_def map_add_def t_def)
  have "dom (map_of (map (\<lambda>kv. (fst kv, kv_rec kv)) ps)) = set (map fst ps)"
    by (simp add: dom_map_of_conv_image_fst image_image)
  then show "bt_size B t = length ps"
    using btree_set.stored_size [OF assms(1) t(1,2)] t(3) distinct_card [OF assms(2)] by simp
qed

lemma merged_view_loads:
  assumes "btree_set B" and "time < 2 ^ 63" and "distinct (map fst ps)"
    and "\<forall>kv \<in> set ps. short (fst kv) \<and> short (snd kv)" and "length ps < 2 ^ 32"
    and "length bloom = kBloomFilterDefaultSize div 8"
  shows "\<exists>v. MemTable_view_merge_ctor B seed garbage
      (merge_header version time lev_1 level_1 number (of_nat (length ps)) bloom @ bloom @
        concat (map kv_rec ps)) number level_1 level_2 sstable = Inr v \<and>
    (\<forall>g. short (get_key g) \<longrightarrow> MemTable_view_Get B H g v = Inr (case
        if bf_IsMatch H kBloomFilterDefaultSize (get_key g)
          (BloomFilter_view (bloom @ concat (map kv_rec ps)) (size32 bloom * 8) seed) = Inr True
        then map_of ps (get_key g) else None of
        None \<Rightarrow> g\<lparr>get_code := setCode kNotFound (get_code g)\<rparr>
      | Some y \<Rightarrow> g\<lparr>get_value := y, get_code := setCode kOk (get_code g)\<rparr>))"
proof -
  let ?h = "merge_header version time lev_1 level_1 number (of_nat (length ps)) bloom"
  let ?recs = "concat (map kv_rec ps)"
  let ?t = "foldl (\<lambda>t r. bt_insert B comp_lt r t) (bt_empty B) (map kv_rec ps)"
  let ?bf = "BloomFilter_view (bloom @ ?recs) (size32 bloom * 8) seed"
  have short: "short bloom" using assms(6) by (simp add: short_def kBloomFilterDefaultSize_def)
  have load: "load_records B (?h @ bloom @ ?recs) (length ?h + length bloom)
      (length (?h @ bloom @ ?recs)) (bt_empty B) = Inr ?t"
    using load_records_all [OF assms(4), of B "?h @ bloom" "bt_empty B"] by simp
  note t = inserted_records [OF assms(1,3,4)]
  have count: "unat (of_nat (length ps) :: u32) = length ps"
    using assms(5) by (simp add: unat_of_nat)
  let ?v = "garbage\<lparr>sstable_ref := sstable,
    mv_info := \<lparr>firstLevel = level_1, secondLevel = level_2, IsInstead = False\<rparr>,
    mv_version := version, memView := ?h @ bloom @ ?recs, memViewSize := size32 (?h @ bloom @ ?recs),
    number_n := number, memMapView := ?t, mv_bloomFilter := Some ?bf\<rparr>"
  have ctor: "MemTable_view_merge_ctor B seed garbage (?h @ bloom @ ?recs) number level_1 level_2 sstable
      = Inr ?v"
    using merge_ctor_eq [OF assms(2) short refl refl, of B seed garbage version lev_1 level_1 number
        "of_nat (length ps)" ?recs level_2 sstable] load t(3) count
    by simp
  have ok: "bloom_ok kBloomFilterDefaultSize ?bf"
    using assms(6) by (simp add: bloom_ok_def BloomFilter_view_def BitSet_view_def bs_bits_def
        kBloomFilterDefaultSize_def)
  have "MemTable_view_Get B H g ?v = Inr (case
        if bf_IsMatch H kBloomFilterDefaultSize (get_key g) ?bf = Inr True then map_of ps (get_key g) else None of
        None \<Rightarrow> g\<lparr>get_code := setCode kNotFound (get_code g)\<rparr>
      | Some y \<Rightarrow> g\<lparr>get_value := y, get_code := setCode kOk (get_code g)\<rparr>)"
    if g: "short (get_key g)" for g
  proof (rule view_Get_stored [OF assms(1) _ _ _ ok g])
    show "btree_set.stored B entry_key (memMapView ?v) (get_key g) =
        map_option (\<lambda>x. kv_rec (get_key g, x)) (map_of ps (get_key g))"
      using t(4) by (simp add: map_of_kv_rec)
    show "short y" if "map_of ps (get_key g) = Some y" for y
      using assms(4) map_of_SomeD [OF that] by auto
  qed (use t in simp_all)
  then show ?thesis using ctor by blast
qed

definition example_view :: "bytes list MemTable_view" where
  "example_view = \<lparr>sstable_ref = 0, mv_info = \<lparr>firstLevel = 0, secondLevel = 0, IsInstead = False\<rparr>,
     mv_version = 0, memView = [], memViewSize = 0, cur_level = 0, isReadable = False, number_n = 0,
     memMapView = [], mv_bloomFilter = None\<rparr>"

text \<open>A small file with one record under the key \<open>a\<close>.\<close>

definition ones :: bytes where
  "ones = replicate (kBloomFilterDefaultSize div 8) 255"

definition example_file :: "u32 \<Rightarrow> bytes" where
  "example_file number = merge_header 1 2 0 0 number 1 ones @ ones @ concat (map kv_rec [([97], [1, 2])])"

lemma ones_ok: "length ones = kBloomFilterDefaultSize div 8" "set ones \<subseteq> {255}"
  by (simp_all add: ones_def set_replicate_conv_if)

lemma example_file_loads:
  "\<exists>v. MemTable_view_merge_ctor sorted_list_set 5 example_view (example_file number) number 0 level_2 9 = Inr v \<and>
    (\<forall>g. short (get_key g) \<longrightarrow> MemTable_view_Get sorted_list_set H g v =
      Inr (case map_of [([97], [1, 2])] (get_key g) of
        None \<Rightarrow> g\<lparr>get_code := setCode kNotFound (get_code g)\<rparr>
      | Some y \<Rightarrow> g\<lparr>get_value := y, get_code := setCode kOk (get_code g)\<rparr>))"
  unfolding example_file_def
  using merged_view_loads [OF sorted_list.btree_set_axioms, of 2 "[([97], [1, 2])]" ones 5 example_view 1 0 0
      number level_2 9 H] ones_match [OF ones_ok] by (simp add: ones_ok short_def)

text \<open>No first-level view can ever be loaded: the window of the filter seed ends
  at the fifth byte of the file, the five fields before it take at least five bytes, so the
  decoder returns a null pointer and the next field is read through it (unless a check before
  that fails).\<close>

lemma view_Init_never_returns: "\<exists>e. MemTable_view_Init B m v = Inl e"
proof (cases "MemTable_view_Init B m v")
  case (Inr r)
  obtain version p1 time p2 lev p3 number p4 count p5 where
    "field32 m 0 5 = Inr (version, p1)" "field64 m p1 9 = Inr (time, p2)"
    "field32 m p2 5 = Inr (lev, p3)" "field32 m p3 5 = Inr (number, p4)"
    "getVarint32Ptr m p4 (p4 + 5) = Inr (Some (count, p5))"
    and seed: "\<exists>s p6. getVarint64Ptr m p5 5 = Inr (Some (s, p6))"
    using Inr by (auto simp: MemTable_view_Init_def rbind_eq_Inr_iff split: option.splits)
  then have "5 \<le> p5"
    by (auto dest!: field32_progress field64_progress getVarint32Ptr_progress)
  then have "getVarint64Ptr m p5 5 = Inr None"
    by (simp add: getVarint64Ptr_def getVarint64Ptr_loop.simps)
  then show ?thesis using seed by simp
qed simp

section \<open>Properties\<close>



end
