(* ===== verification/View_Manager.thy ===== *)
theory View_Manager
  imports Memtable_View
begin

text \<open>
  The levels of views behind the memtables: \<open>src/db/memtable_view_manager.hpp\<close> and
  \<open>src/db/memtable_view_manager.cpp\<close>. A mutex is the flag of being held; locking a held
  mutex by the thread that holds it never returns (\<open>Deadlock\<close>). Elements are accessed
  unchecked in the code, so an index outside the vector is \<open>OutOfBounds\<close>.
\<close>

record 't MemTableViewVec =
  memtable_vec :: "'t MemTable_view list"
  vv_mtx :: bool
  isCompaction :: bool

record 't MemTableViewManager =
  mgr_memtable_n :: u32
  mem_all_vec :: "'t MemTableViewVec list"

definition getCompactLock :: "'t MemTableViewVec \<Rightarrow> bool \<times> 't MemTableViewVec" where
  "getCompactLock vv = (if isCompaction vv then (False, vv) else (True, vv\<lparr>isCompaction := True\<rparr>))"

definition finishCompact :: "'t MemTableViewVec \<Rightarrow> 't MemTableViewVec" where
  "finishCompact vv = vv\<lparr>isCompaction := True\<rparr>"

definition vv_lock :: "'t MemTableViewVec \<Rightarrow> 't MemTableViewVec res" where
  "vv_lock vv = (if vv_mtx vv then Inl Deadlock else Inr (vv\<lparr>vv_mtx := True\<rparr>))"

definition vv_unlock :: "'t MemTableViewVec \<Rightarrow> 't MemTableViewVec" where
  "vv_unlock vv = vv\<lparr>vv_mtx := False\<rparr>"

definition MemTableViewManager_Init :: "u32 \<Rightarrow> 't MemTableViewManager \<Rightarrow> 't MemTableViewManager" where
  "MemTableViewManager_Init n mgr =
     \<lparr>mgr_memtable_n = n,
      mem_all_vec = replicate (unat n) \<lparr>memtable_vec = [], vv_mtx = False, isCompaction = False\<rparr>\<rparr>"

definition getMemViewVecSize :: "u32 \<Rightarrow> 't MemTableViewManager \<Rightarrow> u32 res" where
  "getMemViewVecSize number mgr =
     rbind (rd (mem_all_vec mgr) (unat number)) (\<lambda>vv. Inr (of_nat (length (memtable_vec vv))))"

definition set_vec :: "u32 \<Rightarrow> 't MemTableViewVec \<Rightarrow> 't MemTableViewManager \<Rightarrow> 't MemTableViewManager" where
  "set_vec number vv mgr = mgr\<lparr>mem_all_vec := (mem_all_vec mgr)[unat number := vv]\<rparr>"

definition PushTableView ::
  "'t btree_api \<Rightarrow> 't MemTable_view \<Rightarrow> u32 \<Rightarrow> bytes \<Rightarrow> nat \<Rightarrow> 't MemTableViewManager \<Rightarrow>
   't MemTableViewManager res" where
  "PushTableView B garbage number data sstable mgr =
     rbind (guard (length (mem_all_vec mgr) > unat number) AssertFail) (\<lambda>_.
     rbind (rd (mem_all_vec mgr) (unat number)) (\<lambda>vv.
     rbind (MemTable_view_ctor B garbage data number (of_nat (length (memtable_vec vv))) sstable) (\<lambda>v.
     rbind (vv_lock vv) (\<lambda>vv.
       let vv = vv\<lparr>memtable_vec := memtable_vec vv @ [v]\<rparr> in
       Inr (set_vec number (vv_unlock vv) mgr)))))"

text \<open>\<open>std::vector::erase(begin() + i)\<close>.\<close>

definition erase_at :: "nat \<Rightarrow> 'a list \<Rightarrow> 'a list res" where
  "erase_at i xs = (if i < length xs then Inr (take i xs @ drop (Suc i) xs) else Inl OutOfBounds)"

definition PushTableMergeView ::
  "'t btree_api \<Rightarrow> u64 \<Rightarrow> 't MemTable_view \<Rightarrow> u32 \<Rightarrow> bytes \<Rightarrow> u32 \<Rightarrow> u32 \<Rightarrow> nat \<Rightarrow>
   't MemTableViewManager \<Rightarrow> 't MemTableViewManager res" where
  "PushTableMergeView B garbage_seed garbage number data level_1 level_2 sstable mgr =
     rbind (guard (length (mem_all_vec mgr) > unat number) AssertFail) (\<lambda>_.
     rbind (MemTable_view_merge_ctor B garbage_seed garbage data number level_1 level_2 sstable) (\<lambda>merged.
     rbind (rd (mem_all_vec mgr) (unat number)) (\<lambda>vv.
     rbind (guard (unat level_1 < length (memtable_vec vv)) AssertFail) (\<lambda>_.
     rbind (guard (unat level_2 < length (memtable_vec vv)) AssertFail) (\<lambda>_.
     rbind (vv_lock vv) (\<lambda>vv.
     rbind (erase_at (unat level_1) (memtable_vec vv)) (\<lambda>vs.
     rbind (erase_at (unat level_2) vs) (\<lambda>vs.
       Inr (set_vec number (vv_unlock (vv\<lparr>memtable_vec := vs\<rparr>)) mgr)))))))))"

fun getRequest_loop ::
  "'t btree_api \<Rightarrow> hashers \<Rightarrow> 't MemTable_view list \<Rightarrow> GetContext \<Rightarrow> (GetContext \<times> bool) res" where
  "getRequest_loop B H [] g = Inr (g, False)"
| "getRequest_loop B H (v # vs) g =
     rbind (MemTable_view_Get B H g v) (\<lambda>g.
       if getCode (get_code g) = kOk \<or> getCode (get_code g) = kDelete then Inr (g, True)
       else getRequest_loop B H vs g)"

text \<open>The early return inside the loop leaves the mutex locked.\<close>

definition getRequest ::
  "'t btree_api \<Rightarrow> hashers \<Rightarrow> u32 \<Rightarrow> GetContext \<Rightarrow> 't MemTableViewManager \<Rightarrow>
   (GetContext \<times> 't MemTableViewManager) res" where
  "getRequest B H number g mgr =
     rbind (rd (mem_all_vec mgr) (unat number)) (\<lambda>vv.
     rbind (vv_lock vv) (\<lambda>vv.
     rbind (getRequest_loop B H (rev (memtable_vec vv)) g) (\<lambda>(g, found).
       Inr (g, set_vec number (if found then vv else vv_unlock vv) mgr))))"

section \<open>Lemmas\<close>

text \<open>A view that answers like the map \<open>f\<close>.\<close>

definition answers :: "'t btree_api \<Rightarrow> hashers \<Rightarrow> (bytes \<rightharpoonup> bytes) \<Rightarrow> 't MemTable_view \<Rightarrow> bool" where
  "answers B H f v \<longleftrightarrow> (\<forall>g. short (get_key g) \<longrightarrow> MemTable_view_Get B H g v =
     Inr (case f (get_key g) of
        None \<Rightarrow> g\<lparr>get_code := setCode kNotFound (get_code g)\<rparr>
      | Some y \<Rightarrow> g\<lparr>get_value := y, get_code := setCode kOk (get_code g)\<rparr>))"

definition newest :: "(bytes \<rightharpoonup> bytes) list \<Rightarrow> bytes \<rightharpoonup> bytes" where
  "newest fs = foldl (++) Map.empty fs"

lemma newest_snoc: "newest (fs @ [f]) = newest fs ++ f"
  by (simp add: newest_def)

lemma getCode_setCode [simp]: "getCode (setCode c st) = c"
  by (simp add: getCode_def setCode_def)

lemma setCode_setCode [simp]: "setCode c (setCode c' st) = setCode c st"
  by (simp add: setCode_def)

lemma getRequest_loop_newest:
  assumes "list_all2 (answers B H) fs vs" and "short (get_key g)" and "vs \<noteq> []"
  shows "getRequest_loop B H (rev vs) g = Inr (case newest fs (get_key g) of
      None \<Rightarrow> (g\<lparr>get_code := setCode kNotFound (get_code g)\<rparr>, False)
    | Some y \<Rightarrow> (g\<lparr>get_value := y, get_code := setCode kOk (get_code g)\<rparr>, True))"
  using assms
proof (induction vs arbitrary: fs g rule: rev_induct)
  case (snoc v vs)
  then obtain fs' f where fs: "fs = fs' @ [f]" "list_all2 (answers B H) fs' vs" "answers B H f v"
    by (auto simp: list_all2_append2 list_all2_Cons2)
  have get: "MemTable_view_Get B H g v = Inr (case f (get_key g) of
        None \<Rightarrow> g\<lparr>get_code := setCode kNotFound (get_code g)\<rparr>
      | Some y \<Rightarrow> g\<lparr>get_value := y, get_code := setCode kOk (get_code g)\<rparr>)"
    using fs(3) snoc.prems(2) by (simp add: answers_def)
  show ?case
  proof (cases "f (get_key g)")
    case None
    show ?thesis
    proof (cases "vs = []")
      case True
      then have "fs' = []" using fs(2) by simp
      then show ?thesis using None get fs(1) True by (simp add: newest_def)
    next
      case False
      then show ?thesis
        using None get fs(1) snoc.IH [OF fs(2), of "g\<lparr>get_code := setCode kNotFound (get_code g)\<rparr>"]
          snoc.prems(2) by (simp add: newest_snoc map_add_def split: option.splits)
    qed
  next
    case (Some y)
    then show ?thesis using get fs(1) by (simp add: newest_snoc map_add_def)
  qed
qed simp

lemma set_vec_nth:
  "unat number < length (mem_all_vec mgr) \<Longrightarrow> mem_all_vec (set_vec number vv mgr) ! unat number = vv"
  "length (mem_all_vec (set_vec number vv mgr)) = length (mem_all_vec mgr)"
  by (simp_all add: set_vec_def)

lemma getRequest_locked:
  assumes "unat number < length (mem_all_vec mgr)" and "vv_mtx (mem_all_vec mgr ! unat number)"
  shows "getRequest B H number g mgr = Inl Deadlock"
  using assms by (simp add: getRequest_def vv_lock_def)

text \<open>Erasing two positions one after the other.\<close>

lemma erase_twice:
  assumes "erase_at i xs = Inr ys" and "erase_at j ys = Inr zs" and "i < j"
  shows "length zs + 2 = length xs \<and> set zs \<subseteq> set xs \<and> zs ! (j - 1) = xs ! j \<and> j + 1 < length xs"
proof -
  have xs: "i < length xs" "ys = take i xs @ drop (Suc i) xs" and ys: "j < length ys" "zs = take j ys @ drop (Suc j) ys"
    using assms(1,2) by (auto simp: erase_at_def split: if_splits)
  have "zs ! (j - 1) = ys ! (j - 1)"
    using ys assms(3) by (simp add: nth_append)
  also have "\<dots> = xs ! j"
    using xs ys(1) assms(3) by (auto simp: nth_append min_def)
  finally show ?thesis
    using xs ys by (auto dest: in_set_takeD in_set_dropD)
qed

datatype lock_op = TryLock | Finish

fun run_lock :: "lock_op list \<Rightarrow> 't MemTableViewVec \<Rightarrow> bool list" where
  "run_lock [] vv = []"
| "run_lock (TryLock # ops) vv = (let (b, vv') = getCompactLock vv in b # run_lock ops vv')"
| "run_lock (Finish # ops) vv = run_lock ops (finishCompact vv)"

lemma run_lock_taken: "isCompaction vv \<Longrightarrow> True \<notin> set (run_lock ops vv)"
  by (induction ops vv rule: run_lock.induct) (auto simp: getCompactLock_def finishCompact_def)

section \<open>Properties\<close>

text \<open>Property C36. \<open>getRequest\<close> asks the views from the newest to the oldest: when every view
  answers like a map, the answer is that of their right-biased union. If the key was found
  the mutex stays locked, and every later request to the same table never returns; otherwise
  the state is as before.\<close>

theorem getRequest_newest_then_stuck:
  assumes "unat number < length (mem_all_vec mgr)"
    and "mem_all_vec mgr ! unat number = vv" and "\<not> vv_mtx vv"
    and "list_all2 (answers B H) fs (memtable_vec vv)" and "memtable_vec vv \<noteq> []"
    and "short (get_key g)"
  shows "\<exists>mgr'. getRequest B H number g mgr = Inr (case newest fs (get_key g) of
        None \<Rightarrow> g\<lparr>get_code := setCode kNotFound (get_code g)\<rparr>
      | Some y \<Rightarrow> g\<lparr>get_value := y, get_code := setCode kOk (get_code g)\<rparr>, mgr') \<and>
    (case newest fs (get_key g) of
        None \<Rightarrow> mgr' = mgr
      | Some _ \<Rightarrow> \<forall>g2. getRequest B H number g2 mgr' = Inl Deadlock)"
proof -
  note loop = getRequest_loop_newest [OF assms(4,6,5)]
  have unchanged: "set_vec number (vv_unlock (vv\<lparr>vv_mtx := True\<rparr>)) mgr = mgr"
    using assms(1-3) by (simp add: set_vec_def vv_unlock_def list_update_same_conv)
  show ?thesis
  proof (cases "newest fs (get_key g)")
    case None
    then show ?thesis
      using loop assms(1-3) unchanged by (simp add: getRequest_def vv_lock_def)
  next
    case (Some y)
    let ?mgr = "set_vec number (vv\<lparr>vv_mtx := True\<rparr>) mgr"
    have "getRequest B H number g2 ?mgr = Inl Deadlock" for g2
      using assms(1) by (intro getRequest_locked) (simp_all add: set_vec_nth)
    then show ?thesis
      using Some loop assms(1-3) by (simp add: getRequest_def vv_lock_def)
  qed
qed

theorem getRequest_newest_then_stuck_witness:
  "\<exists>v mgr'. getRequest sorted_list_set example_hashers 0 (GetContext_ctor 0 [97])
      \<lparr>mgr_memtable_n = 1, mem_all_vec = [\<lparr>memtable_vec = [v], vv_mtx = False, isCompaction = False\<rparr>]\<rparr>
      = Inr ((GetContext_ctor 0 [97])\<lparr>get_value := [1, 2], get_code := setCode kOk Status_ctor\<rparr>, mgr') \<and>
    (\<forall>g2. getRequest sorted_list_set example_hashers 0 g2 mgr' = Inl Deadlock)"
proof -
  obtain v where v: "answers sorted_list_set example_hashers (map_of [([97], [1, 2])]) v"
    using example_file_loads [of 0 1 example_hashers] by (auto simp: answers_def)
  let ?vv = "\<lparr>memtable_vec = [v], vv_mtx = False, isCompaction = False\<rparr>"
  let ?mgr = "\<lparr>mgr_memtable_n = 1, mem_all_vec = [?vv]\<rparr>"
  have "\<exists>mgr'. getRequest sorted_list_set example_hashers 0 (GetContext_ctor 0 [97]) ?mgr =
      Inr ((GetContext_ctor 0 [97])\<lparr>get_value := [1, 2], get_code := setCode kOk Status_ctor\<rparr>, mgr') \<and>
    (\<forall>g2. getRequest sorted_list_set example_hashers 0 g2 mgr' = Inl Deadlock)"
    using getRequest_newest_then_stuck [of 0 ?mgr ?vv sorted_list_set example_hashers
        "[map_of [([97], [1, 2])]]" "GetContext_ctor 0 [97]"] v
    by (simp add: newest_def GetContext_ctor_def short_def)
  then show ?thesis by blast
qed

text \<open>A merge loses data: with \<open>level_1 < level_2\<close> a successful
  \<open>PushTableMergeView\<close> drops two views and adds none, and the second one it drops is not
  \<open>level_2\<close> (which moved down by one) but its successor.\<close>

lemma PushTableMergeView_drops:
  assumes "PushTableMergeView B garbage_seed garbage number data level_1 level_2 sstable mgr = Inr mgr'"
    and "unat level_1 < unat level_2"
  shows "let vs = memtable_vec (mem_all_vec mgr ! unat number);
             vs' = memtable_vec (mem_all_vec mgr' ! unat number) in
    length vs' + 2 = length vs \<and> set vs' \<subseteq> set vs \<and> vs' ! (unat level_2 - 1) = vs ! unat level_2 \<and>
    unat level_2 + 1 < length vs"
proof -
  let ?vv = "mem_all_vec mgr ! unat number"
  obtain ys zs where n: "unat number < length (mem_all_vec mgr)"
    and ys: "erase_at (unat level_1) (memtable_vec ?vv) = Inr ys"
    and zs: "erase_at (unat level_2) ys = Inr zs"
    and mgr': "mgr' = set_vec number (vv_unlock (?vv\<lparr>vv_mtx := True, memtable_vec := zs\<rparr>)) mgr"
    using assms(1)
    by (auto simp: PushTableMergeView_def rbind_eq_Inr_iff vv_lock_def split: if_splits)
  have "memtable_vec (mem_all_vec mgr' ! unat number) = zs"
    using n by (simp add: mgr' set_vec_nth vv_unlock_def)
  then show ?thesis
    using erase_twice [OF ys zs assms(2)] by (simp add: Let_def)
qed

lemma PushTableMergeView_drops_witness:
  "\<exists>mgr'. PushTableMergeView sorted_list_set 5 example_view 0 (example_file 0) 0 1 9
      \<lparr>mgr_memtable_n = 1, mem_all_vec =
        [\<lparr>memtable_vec = replicate 3 example_view, vv_mtx = False, isCompaction = False\<rparr>]\<rparr> = Inr mgr' \<and>
    length (memtable_vec (mem_all_vec mgr' ! 0)) = 1"
proof -
  let ?mgr = "\<lparr>mgr_memtable_n = 1, mem_all_vec =
    [\<lparr>memtable_vec = replicate 3 example_view, vv_mtx = False, isCompaction = False\<rparr>]\<rparr>"
  obtain v where "MemTable_view_merge_ctor sorted_list_set 5 example_view (example_file 0) 0 0 1 9 = Inr v"
    using example_file_loads [of 0 1] by blast
  then obtain mgr' where mgr': "PushTableMergeView sorted_list_set 5 example_view 0 (example_file 0) 0 1 9 ?mgr
      = Inr mgr'"
    by (simp add: PushTableMergeView_def vv_lock_def erase_at_def)
  from PushTableMergeView_drops [OF this] this show ?thesis by (simp add: Let_def)
qed

text \<open>The compaction flag of a table is never released: in any sequence of
  \<open>getCompactLock\<close> and \<open>finishCompact\<close> calls on a fresh table at most one attempt to take
  it succeeds.\<close>

lemma compact_lock_taken_once:
  "length (filter id (run_lock ops \<lparr>memtable_vec = vs, vv_mtx = b, isCompaction = False\<rparr>)) \<le> 1"
proof (cases ops)
  case (Cons op ops')
  have none: "filter id (run_lock ops' vv) = []" if "isCompaction vv" for vv :: "'a MemTableViewVec"
    using run_lock_taken [OF that, of ops'] by (auto simp: filter_empty_conv)
  show ?thesis
    using Cons none by (cases op) (simp_all add: getCompactLock_def finishCompact_def)
qed simp

end
