(* ===== verification/Sstable.thy ===== *)
theory Sstable
  imports Db_Types
begin

text \<open>
  Table files and the manager that numbers them: \<open>src/db/sstable.hpp\<close>, \<open>sstable.cpp\<close>,
  \<open>sstable_manager.hpp\<close> and \<open>sstable_manager.cpp\<close>. Tables are shared objects: they live in
  a heap and are referred to by their index in it. What \<open>open\<close>, \<open>stat\<close>, \<open>fstat\<close> and
  \<open>mmap\<close> answer are arguments.
\<close>

section \<open>SSTable\<close>

datatype map_ptr = NullPtr | MapFailed | Mapped bytes

record SSTable =
  isMmap :: bool
  mmapBasePtr :: map_ptr
  fileLength :: u64
  sst_isOpen :: bool
  sst_fd :: int
  sstable_number :: u32
  sstable_level :: u32
  fullfilename :: bytes
  sst_fileName :: bytes
  sst_filePath :: bytes

text \<open>The fields the constructor does not set are those of \<open>garbage\<close>; strings are empty.\<close>

definition SSTable_ctor :: "SSTable \<Rightarrow> SSTable" where
  "SSTable_ctor garbage =
     garbage\<lparr>isMmap := False, mmapBasePtr := NullPtr, sst_isOpen := False, fullfilename := [],
             sst_fileName := [], sst_filePath := []\<rparr>"

definition getFd :: "SSTable \<Rightarrow> int" where
  "getFd t = sst_fd t"

definition SSTable_Init :: "int \<Rightarrow> bytes \<Rightarrow> bytes \<Rightarrow> u32 \<Rightarrow> u32 \<Rightarrow> SSTable \<Rightarrow> bool \<times> SSTable" where
  "SSTable_Init open_fd path filename level number t =
     (let t = t\<lparr>fullfilename := path @ [47] @ filename, sst_fd := open_fd\<rparr> in
      if sst_fd t < 0 then (False, t)
      else (True, t\<lparr>sst_fileName := filename, sst_filePath := path, sstable_number := number,
                    sstable_level := level, sst_isOpen := True\<rparr>))"

definition SSTable_Close :: "SSTable \<Rightarrow> SSTable" where
  "SSTable_Close t = (if sst_isOpen t then t\<lparr>sst_isOpen := False\<rparr> else t)"

definition sst_getLevel :: "SSTable \<Rightarrow> u32" where
  "sst_getLevel t = sstable_level t"

definition sst_setLevel :: "u32 \<Rightarrow> SSTable \<Rightarrow> SSTable" where
  "sst_setLevel n t = t\<lparr>sstable_level := n\<rparr>"

definition sst_setNumber :: "u32 \<Rightarrow> SSTable \<Rightarrow> SSTable" where
  "sst_setNumber n t = t\<lparr>sstable_number := n\<rparr>"

definition sst_getNumber :: "SSTable \<Rightarrow> u32" where
  "sst_getNumber t = sstable_number t"

text \<open>\<open>fstat\<close> fails with \<open>None\<close>; the size is truncated to 32 bits.\<close>

definition sst_getFileSize :: "nat option \<Rightarrow> SSTable \<Rightarrow> u32 res" where
  "sst_getFileSize fstat t = (case fstat of None \<Rightarrow> Inl AssertFail | Some st_size \<Rightarrow> Inr (of_nat st_size))"

definition InitMmap :: "nat option \<Rightarrow> map_ptr \<Rightarrow> SSTable \<Rightarrow> bool \<times> SSTable" where
  "InitMmap stat mmap t = (case stat of
       None \<Rightarrow> (False, t)
     | Some st_size \<Rightarrow>
         let t = t\<lparr>fileLength := of_nat st_size, mmapBasePtr := mmap\<rparr> in
         if mmap = MapFailed then (False, t) else (True, t\<lparr>isMmap := True\<rparr>))"

text \<open>The pointer is kept after unmapping.\<close>

definition getMmapPtr :: "SSTable \<Rightarrow> map_ptr" where
  "getMmapPtr t = mmapBasePtr t"

section \<open>SSTableManager\<close>

record SSTableManager =
  sm_memtable_n :: u32
  sm_db_path :: bytes
  sstable_vec :: "nat list list"
  comp_sstable_vec :: "nat list list"
  sst_heap :: "SSTable list"

definition SSTableManager_ctor :: "u32 \<Rightarrow> SSTableManager" where
  "SSTableManager_ctor garbage =
     \<lparr>sm_memtable_n = garbage, sm_db_path = [], sstable_vec = [], comp_sstable_vec = [], sst_heap = []\<rparr>"

definition resize :: "nat \<Rightarrow> 'a \<Rightarrow> 'a list \<Rightarrow> 'a list" where
  "resize n x xs = take n xs @ replicate (n - length xs) x"

definition SSTableManager_Init :: "DBConfig \<Rightarrow> SSTableManager \<Rightarrow> SSTableManager" where
  "SSTableManager_Init db_config m =
     m\<lparr>sm_memtable_n := memtable_N db_config,
       sstable_vec := resize (unat (memtable_N db_config)) [] (sstable_vec m),
       sm_db_path := db_path db_config\<rparr>"

definition getSSTable :: "u32 \<Rightarrow> u32 \<Rightarrow> SSTableManager \<Rightarrow> nat res" where
  "getSSTable number level m =
     rbind (rd (sstable_vec m) (unat number)) (\<lambda>v. rd v (unat level))"

text \<open>A new table is appended; the one at index \<open>level\<close> is returned.\<close>

definition newSSTable :: "SSTable \<Rightarrow> u32 \<Rightarrow> u32 \<Rightarrow> SSTableManager \<Rightarrow> (nat \<times> SSTableManager) res" where
  "newSSTable garbage number level m =
     rbind (rd (sstable_vec m) (unat number)) (\<lambda>v.
       let m = m\<lparr>sst_heap := sst_heap m @ [SSTable_ctor garbage],
                 sstable_vec := (sstable_vec m)[unat number := v @ [length (sst_heap m)]]\<rparr> in
       rbind (getSSTable number level m) (\<lambda>h. Inr (h, m)))"

definition newCompactionSSTable :: "SSTable \<Rightarrow> u32 \<Rightarrow> u32 \<Rightarrow> SSTableManager \<Rightarrow> (nat \<times> SSTableManager) res" where
  "newCompactionSSTable garbage number level m =
     rbind (rd (comp_sstable_vec m) (unat number)) (\<lambda>v.
       let m = m\<lparr>sst_heap := sst_heap m @ [SSTable_ctor garbage],
                 comp_sstable_vec := (comp_sstable_vec m)[unat number := v @ [length (sst_heap m)]]\<rparr> in
       rbind (getSSTable number level m) (\<lambda>h. Inr (h, m)))"

definition getVecSize :: "SSTableManager \<Rightarrow> nat" where
  "getVecSize m = length (sstable_vec m)"

definition getNumSize :: "u32 \<Rightarrow> SSTableManager \<Rightarrow> nat res" where
  "getNumSize number m = rbind (rd (sstable_vec m) (unat number)) (\<lambda>v. Inr (length v))"

text \<open>A member call through a table handle.\<close>

definition sst_at :: "nat \<Rightarrow> SSTableManager \<Rightarrow> SSTable res" where
  "sst_at h m = rd (sst_heap m) h"

definition sst_upd :: "nat \<Rightarrow> SSTable \<Rightarrow> SSTableManager \<Rightarrow> SSTableManager" where
  "sst_upd h t m = m\<lparr>sst_heap := (sst_heap m)[h := t]\<rparr>"

section \<open>Lemmas\<close>

lemma length_resize [simp]: "length (resize n x xs) = n"
  by (simp add: resize_def)

text \<open>Every handle of the manager points into the heap, and no table is listed twice.\<close>

definition sm_ok :: "SSTableManager \<Rightarrow> bool" where
  "sm_ok m \<longleftrightarrow> distinct (concat (sstable_vec m)) \<and> (\<forall>h\<in>set (concat (sstable_vec m)). h < length (sst_heap m)) \<and>
     length (sstable_vec m) = unat (sm_memtable_n m)"

lemma SSTableManager_Init_ok:
  "sm_ok (SSTableManager_Init cfg (SSTableManager_ctor g))"
  by (simp add: sm_ok_def SSTableManager_Init_def SSTableManager_ctor_def resize_def)

text \<open>
  When the level is the number of tables so far, the new table is the one returned; it is
  closed and no one else's.
\<close>

lemma newSSTable_next:
  assumes "unat number < length (sstable_vec m)" and "unat level = length (sstable_vec m ! unat number)"
  shows "newSSTable garbage number level m = Inr (length (sst_heap m),
    m\<lparr>sst_heap := sst_heap m @ [SSTable_ctor garbage],
      sstable_vec := (sstable_vec m)[unat number := sstable_vec m ! unat number @ [length (sst_heap m)]]\<rparr>)"
  using assms by (simp add: newSSTable_def getSSTable_def Let_def)

lemma concat_update:
  assumes "i < length xss"
  shows "concat (xss[i := ys]) = concat (take i xss) @ ys @ concat (drop (Suc i) xss)"
    and "concat xss = concat (take i xss) @ xss ! i @ concat (drop (Suc i) xss)"
proof -
  have "xss = take i xss @ xss ! i # drop (Suc i) xss"
    using assms by (simp add: id_take_nth_drop)
  then show "concat xss = concat (take i xss) @ xss ! i @ concat (drop (Suc i) xss)"
    by (metis concat.simps(2) concat_append)
  show "concat (xss[i := ys]) = concat (take i xss) @ ys @ concat (drop (Suc i) xss)"
    using assms by (simp add: upd_conv_take_nth_drop)
qed

lemma newSSTable_ok:
  assumes "sm_ok m" and "newSSTable garbage number level m = Inr (h, m')"
  shows "sm_ok m'"
proof -
  have n: "unat number < length (sstable_vec m)"
    using assms(2) by (auto simp: newSSTable_def rd_def split: if_splits)
  let ?x = "length (sst_heap m)"
  have m': "m' = m\<lparr>sst_heap := sst_heap m @ [SSTable_ctor garbage],
      sstable_vec := (sstable_vec m)[unat number := sstable_vec m ! unat number @ [?x]]\<rparr>"
    using assms(2) n by (auto simp: newSSTable_def rbind_eq_Inr_iff Let_def)
  show ?thesis
    using assms(1) concat_update(1) [OF n, of "sstable_vec m ! unat number @ [?x]"] concat_update(2) [OF n]
    unfolding sm_ok_def m' by (auto simp: less_Suc_eq)
qed

lemma newCompactionSSTable_fails:
  "comp_sstable_vec m = [] \<Longrightarrow> newCompactionSSTable garbage number level m = Inl OutOfBounds"
  by (simp add: newCompactionSSTable_def)

end
