(* ===== verification/Iouring.thy ===== *)
theory Iouring
  imports Prelude
begin

text \<open>
  The wrapper around liburing: \<open>src/util/iouring.hpp\<close> and \<open>src/util/iouring.cpp\<close>. The ring
  holds the requests that were prepared, those that were submitted, and the completion events
  the kernel has posted, oldest first; an event carries the address that was set as its data.
  A write request is its descriptor, the address and the contents of its buffer and whether it is
  linked to the next one; a read request has the size of its buffer instead of contents. Results of the kernel are
  arguments.
\<close>

record WriteRequest =
  wr_fd :: int
  wr_data :: nat
  wr_bytes :: bytes
  wr_link :: bool

record ReadRequest =
  rr_fd :: int
  rr_data :: nat
  rr_data_size :: u32
  rr_link :: bool

text \<open>An entry of the submission queue, and the descriptors and contents that entries write, in order.\<close>

datatype sqe = SqWrite WriteRequest | SqRead ReadRequest

fun written :: "sqe list \<Rightarrow> (int \<times> bytes) list" where
  "written [] = []"
| "written (SqWrite w # es) = (wr_fd w, wr_bytes w) # written es"
| "written (SqRead r # es) = written es"

lemma written_append [simp]: "written (xs @ ys) = written xs @ written ys"
  by (induction xs rule: written.induct) simp_all

record IOUring =
  ring_depth :: u32
  isInit :: bool
  sq_prepared :: "sqe list"
  sq_submitted :: "sqe list"
  cq_events :: "nat list"

definition IOUring_ctor :: "u32 \<Rightarrow> IOUring" where
  "IOUring_ctor garbage =
     \<lparr>ring_depth = garbage, isInit = False, sq_prepared = [], sq_submitted = [], cq_events = []\<rparr>"

text \<open>\<open>io_uring_queue_init\<close> answers 0 on success.\<close>

definition IOUring_Init :: "int \<Rightarrow> u32 \<Rightarrow> IOUring \<Rightarrow> IOUring res" where
  "IOUring_Init init_ue depth r =
     (let r = r\<lparr>ring_depth := depth\<rparr> in
      if init_ue \<noteq> 0 then Inl AssertFail else Inr (r\<lparr>isInit := True\<rparr>))"

definition IOUring_Stop :: "IOUring \<Rightarrow> IOUring" where
  "IOUring_Stop r = (if isInit r then r\<lparr>isInit := False\<rparr> else r)"

text \<open>\<open>io_uring_get_sqe\<close> returns a null pointer when the submission queue is full; it is
  used unchecked.\<close>

definition get_sqe :: "IOUring \<Rightarrow> unit res" where
  "get_sqe r = guard (length (sq_prepared r) < unat (ring_depth r)) NullDeref"

definition PrepWrite :: "WriteRequest \<Rightarrow> IOUring \<Rightarrow> IOUring res" where
  "PrepWrite req r = rbind (get_sqe r) (\<lambda>_. Inr (r\<lparr>sq_prepared := sq_prepared r @ [SqWrite (req\<lparr>wr_link := False\<rparr>)]\<rparr>))"

definition PrepWriteLink :: "WriteRequest \<Rightarrow> IOUring \<Rightarrow> IOUring res" where
  "PrepWriteLink req r = rbind (get_sqe r) (\<lambda>_. Inr (r\<lparr>sq_prepared := sq_prepared r @ [SqWrite (req\<lparr>wr_link := True\<rparr>)]\<rparr>))"

definition PrepRead :: "ReadRequest \<Rightarrow> IOUring \<Rightarrow> IOUring res" where
  "PrepRead req r = rbind (get_sqe r) (\<lambda>_. Inr (r\<lparr>sq_prepared := sq_prepared r @ [SqRead (req\<lparr>rr_link := False\<rparr>)]\<rparr>))"

definition PrepReadLink :: "ReadRequest \<Rightarrow> IOUring \<Rightarrow> IOUring res" where
  "PrepReadLink req r = rbind (get_sqe r) (\<lambda>_. Inr (r\<lparr>sq_prepared := sq_prepared r @ [SqRead (req\<lparr>rr_link := True\<rparr>)]\<rparr>))"

text \<open>A submission the kernel accepts takes everything prepared; a refused one leaves it.\<close>

definition Submit :: "int \<Rightarrow> IOUring \<Rightarrow> IOUring" where
  "Submit ue r =
     (if ue < 0 then r
      else r\<lparr>sq_submitted := sq_submitted r @ sq_prepared r, sq_prepared := []\<rparr>)"

definition PeekFinishQueue :: "IOUring \<Rightarrow> nat option" where
  "PeekFinishQueue r = (case cq_events r of [] \<Rightarrow> None | d # ds \<Rightarrow> Some d)"

text \<open>Waiting returns the oldest event, or the next one the kernel posts; a failed wait leaves the result empty.\<close>

definition WaitFinishQueue :: "int \<Rightarrow> nat \<Rightarrow> IOUring \<Rightarrow> nat option \<times> IOUring" where
  "WaitFinishQueue ue posted r =
     (if ue \<noteq> 0 then (None, r)
      else case cq_events r of
        [] \<Rightarrow> (Some posted, r\<lparr>cq_events := [posted]\<rparr>)
      | d # ds \<Rightarrow> (Some d, r))"

definition IOUring_dtor :: "IOUring \<Rightarrow> IOUring" where
  "IOUring_dtor r = IOUring_Stop r"

definition DeleteEvent :: "nat option \<Rightarrow> IOUring \<Rightarrow> IOUring res" where
  "DeleteEvent que r = (case que of
       None \<Rightarrow> Inl AssertFail
     | Some d \<Rightarrow> Inr (r\<lparr>cq_events := tl (cq_events r)\<rparr>))"

section \<open>Lemmas\<close>

text \<open>Peeking again returns the same event until it is deleted.\<close>

lemma Peek_Delete:
  "PeekFinishQueue r = Some d \<Longrightarrow>
    \<exists>r'. DeleteEvent (Some d) r = Inr r' \<and> cq_events r = d # cq_events r'"
  by (auto simp: PeekFinishQueue_def DeleteEvent_def split: list.splits)

text \<open>Waiting and peeking see the same event, which stays until it is deleted.\<close>

lemma Wait_Peek: "WaitFinishQueue 0 posted r = (e, r') \<Longrightarrow> PeekFinishQueue r' = e \<and> e \<noteq> None"
  by (auto simp: WaitFinishQueue_def PeekFinishQueue_def split: list.splits)

text \<open>Reads take the place of a request in the queue and write nothing.\<close>

lemma PrepRead_written:
  "PrepRead req r = Inr r' \<Longrightarrow> written (sq_submitted (Submit ue r')) = written (sq_submitted (Submit ue r)) \<and>
    length (sq_prepared r') = Suc (length (sq_prepared r)) \<and> length (sq_prepared r') \<le> unat (ring_depth r')"
  by (auto simp: PrepRead_def get_sqe_def Submit_def rbind_eq_Inr_iff)

lemma PrepWrite_Submit:
  assumes "get_sqe r = Inr ()" and "0 \<le> ue" and "PrepWrite req r = Inr r'"
  shows "sq_submitted (Submit ue r') = sq_submitted r @ sq_prepared r @ [SqWrite (req\<lparr>wr_link := False\<rparr>)]"
    and "sq_prepared (Submit ue r') = []"
  using assms by (auto simp: PrepWrite_def Submit_def)

end
