(* ===== verification/Compactor.thy ===== *)
theory Compactor
  imports View_Manager Sstable Iouring
begin

text \<open>
  The compactor's data, its queues and the file format of a flushed memtable:
  \<open>src/db/compactor.hpp\<close> and the first half of \<open>src/db/compactor.cpp\<close>. References to the
  compactor, the shared memtable and the view manager are represented by whether they are
  set; mutexes are locked and unlocked in the same call and leave no trace.
\<close>

section \<open>Data\<close>

definition kDefaultIOUringSize :: u32 where "kDefaultIOUringSize = 128"

record CompData =
  sync_data :: bytes
  cd_memtable_n :: u32
  cd_sstable_ref :: "nat option"
  isMajorCompact :: bool
  level_info :: "u32 \<times> u32"

definition CompData_ctor :: "u32 \<times> u32 \<Rightarrow> bytes \<Rightarrow> u32 \<Rightarrow> nat \<Rightarrow> CompData" where
  "CompData_ctor garbage data_ref memtable_n sstable =
     \<lparr>sync_data = data_ref, cd_memtable_n = memtable_n, cd_sstable_ref = Some sstable, isMajorCompact = False,
      level_info = garbage\<rparr>"

record 't CompWorker =
  comp_kv_data_str :: bytes
  cw_isRunning :: bool
  compactor_ref :: bool
  shared_memtable_ref :: bool
  memview_ref :: bool
  iouring :: IOUring
  bg_wait_to_sync_sstable :: "'t Memtable list"
  wait_to_sync_sstable :: "'t Memtable list"
  sync_data_map :: "(nat \<times> CompData) list"
  cw_path :: bytes

definition CompWorker_ctor :: "u32 \<Rightarrow> 't CompWorker" where
  "CompWorker_ctor garbage =
     \<lparr>comp_kv_data_str = [], cw_isRunning = False, compactor_ref = False, shared_memtable_ref = False,
      memview_ref = False, iouring = IOUring_ctor garbage, bg_wait_to_sync_sstable = [],
      wait_to_sync_sstable = [], sync_data_map = [], cw_path = []\<rparr>"

text \<open>The static members of \<open>CompWorker\<close> are fields of the one compactor.\<close>

record 't Compactor =
  cp_memtable_n :: u32
  task_workers_n :: u32
  cp_max_level_n :: u32
  cp_cur_version :: u32
  bg_comp_workers :: "'t CompWorker list"
  sstable_manager :: SSTableManager
  current_comp_index :: u32
  cp_db_path :: bytes

section \<open>Queues\<close>

definition AddSStable :: "'t Memtable \<Rightarrow> 't CompWorker \<Rightarrow> 't CompWorker" where
  "AddSStable memtable w = w\<lparr>bg_wait_to_sync_sstable := bg_wait_to_sync_sstable w @ [memtable]\<rparr>"

definition SetCompactorRef :: "bool \<Rightarrow> 't CompWorker \<Rightarrow> 't CompWorker" where
  "SetCompactorRef compactor w = w\<lparr>compactor_ref := compactor\<rparr>"

definition Compactor_Init :: "u32 \<Rightarrow> DBConfig \<Rightarrow> 't Compactor \<Rightarrow> 't Compactor" where
  "Compactor_Init garbage db_config c =
     (let mgr = SSTableManager_Init db_config (SSTableManager_ctor garbage);
          workers = replicate (unat (compactor_thread_size db_config)) (CompWorker_ctor garbage) in
      c\<lparr>cp_db_path := db_path db_config, cp_memtable_n := memtable_N db_config,
        task_workers_n := compactor_thread_size db_config, cp_max_level_n := max_level_size db_config,
        cp_cur_version := db_version db_config, current_comp_index := 0,
        bg_comp_workers := map (\<lambda>w. w\<lparr>cw_path := db_path db_config\<rparr>) workers,
        sstable_manager := mgr\<rparr>)"

definition SetCompWorkerCompactorRef :: "bool \<Rightarrow> 't Compactor \<Rightarrow> 't Compactor res" where
  "SetCompWorkerCompactorRef compactor c =
     rbind (guard compactor AssertFail) (\<lambda>_.
       Inr (c\<lparr>bg_comp_workers := map (SetCompactorRef compactor) (bg_comp_workers c)\<rparr>))"

definition SetSharedMemTableRef :: "bool \<Rightarrow> 't Compactor \<Rightarrow> 't Compactor res" where
  "SetSharedMemTableRef sharedmemtable c =
     rbind (guard sharedmemtable AssertFail) (\<lambda>_.
       Inr (c\<lparr>bg_comp_workers := map (\<lambda>w. w\<lparr>shared_memtable_ref := sharedmemtable\<rparr>) (bg_comp_workers c)\<rparr>))"

definition SetSharedMemTableViewSSRef :: "bool \<Rightarrow> 't Compactor \<Rightarrow> 't Compactor res" where
  "SetSharedMemTableViewSSRef manager c =
     rbind (guard manager AssertFail) (\<lambda>_.
       Inr (c\<lparr>bg_comp_workers := map (\<lambda>w. w\<lparr>memview_ref := manager\<rparr>) (bg_comp_workers c)\<rparr>))"

text \<open>The part of \<open>Run\<close> before the thread starts.\<close>

definition CompWorker_start :: "int \<Rightarrow> 't CompWorker \<Rightarrow> 't CompWorker res" where
  "CompWorker_start init_ue w =
     rbind (IOUring_Init init_ue kDefaultIOUringSize (iouring w)) (\<lambda>r.
       Inr (w\<lparr>iouring := r, cw_isRunning := True\<rparr>))"

fun map_res :: "('a \<Rightarrow> 'b res) \<Rightarrow> 'a list \<Rightarrow> 'b list res" where
  "map_res f [] = Inr []"
| "map_res f (x # xs) = rbind (f x) (\<lambda>y. rbind (map_res f xs) (\<lambda>ys. Inr (y # ys)))"

definition Compactor_Run :: "int \<Rightarrow> 't Compactor \<Rightarrow> 't Compactor res" where
  "Compactor_Run init_ue c =
     rbind (map_res (CompWorker_start init_ue) (bg_comp_workers c)) (\<lambda>ws.
       Inr (c\<lparr>bg_comp_workers := map (\<lambda>w. w\<lparr>cw_isRunning := True\<rparr>) ws\<rparr>))"

definition AddReadOnlyTable :: "'t Memtable \<Rightarrow> 't Compactor \<Rightarrow> 't Compactor res" where
  "AddReadOnlyTable mem_table c =
     (let i = unat (current_comp_index c); n = length (bg_comp_workers c) in
      rbind (guard (i < n) AssertFail) (\<lambda>_.
      rbind (rd (bg_comp_workers c) i) (\<lambda>w.
        Inr (c\<lparr>bg_comp_workers := (bg_comp_workers c)[i := AddSStable mem_table w],
               current_comp_index :=
                 of_nat (unat (current_comp_index c + 1) mod n)\<rparr>))))"

section \<open>The format of a flushed memtable\<close>

text \<open>Writing through the \<open>data()\<close> of a \<open>std::vector<char>\<close>.\<close>

definition vec_puts :: "bytes \<Rightarrow> nat \<Rightarrow> bytes \<Rightarrow> bytes res" where
  "vec_puts v p bs =
     (if p + length bs \<le> length v then Inr (take p v @ bs @ drop (p + length bs) v) else Inl OutOfBounds)"

text \<open>\<open>end_ptr = encode(end_ptr, v)\<close>.\<close>

definition put_field :: "bytes \<Rightarrow> bytes \<times> nat \<Rightarrow> (bytes \<times> nat) res" where
  "put_field f vp = rbind (vec_puts (fst vp) (snd vp) f) (\<lambda>v. Inr (v, snd vp + length f))"

text \<open>
  The head of the file. \<open>time_now_date\<close> is \<open>TimeStamp::Now().getNowU64()\<close>, a field \<open>Now\<close>
  does not set.
\<close>

definition comp_head :: "u64 \<Rightarrow> u32 \<Rightarrow> 't btree_api \<Rightarrow> 't Memtable \<Rightarrow> bytes res" where
  "comp_head time_now_date cur_version B mt =
     (let filter_size = bs_data_size (bf_filter (bloomFilter mt));
          seed = getBloomSeed mt;
          cur_lev = getCompactionN mt;
          cur_number = getMemNumber mt;
          all_key_size = of_nat (bt_size B (getMemTableRef mt)) :: u64;
          all_key_size_var_size = varintLength all_key_size in
      rbind (rd format32_vec (varintLength (ucast cur_version))) (\<lambda>f1.
      rbind (rd format64_vec (varintLength time_now_date)) (\<lambda>f2.
      rbind (rd format32_vec (varintLength (ucast cur_lev))) (\<lambda>f3.
      rbind (rd format32_vec (varintLength (ucast cur_number))) (\<lambda>f4.
      rbind (rd format32_vec all_key_size_var_size) (\<lambda>f5.
      rbind (rd format64_vec (varintLength seed)) (\<lambda>f6.
      rbind (rd format32_vec (varintLength (ucast filter_size))) (\<lambda>f7.
      rbind (view (bs_data (bf_filter (bloomFilter mt))) 0 (unat filter_size)) (\<lambda>filter_data.
        let str = f1 @ f2 @ f3 @ f4 @ f5 @ f6 @ f7 @ filter_data in
      rbind (guard (length str > unat filter_size) AssertFail) (\<lambda>_.
      rbind (put_field (encodeVarint32 cur_version) (str, 0)) (\<lambda>s.
      rbind (put_field (encodeVarint64 time_now_date) s) (\<lambda>s.
      rbind (put_field (encodeVarint32 cur_lev) s) (\<lambda>s.
      rbind (put_field (encodeVarint32 cur_number) s) (\<lambda>s.
      rbind (put_field (encodeVarint32 (of_nat all_key_size_var_size)) s) (\<lambda>s.
      rbind (put_field (encodeVarint64 seed) s) (\<lambda>s.
      rbind (put_field (encodeVarint32 filter_size) s) (\<lambda>s. Inr (fst s))))))))))))))))))"

text \<open>One entry appended to the file.\<close>

definition comp_entry :: "bytes \<Rightarrow> bytes \<Rightarrow> bytes res" where
  "comp_entry str e =
     rbind (formatMemTableToSSTableStr e) (\<lambda>kv.
     rbind (rd format32_vec (varintLength (size64 (kv_key kv)))) (\<lambda>fk.
       let before_insert_size = length str in
       if kv_isExist kv then
         rbind (rd format32_vec (varintLength (size64 (kv_value kv)))) (\<lambda>fv.
         rbind (put_field (encodeVarint32 (size32 (kv_key kv)))
           (str @ fk @ kv_key kv @ fv @ kv_value kv, before_insert_size)) (\<lambda>s.
         rbind (put_field (encodeVarint32 (size32 (kv_value kv)))
           (fst s, snd s + length (kv_key kv))) (\<lambda>s. Inr (fst s))))
       else
         rbind (put_field (encodeVarint32 (size32 (kv_key kv)))
           (str @ fk @ kv_key kv, before_insert_size)) (\<lambda>s. Inr (fst s))))"

fun comp_entries :: "bytes \<Rightarrow> bytes list \<Rightarrow> bytes res" where
  "comp_entries str [] = Inr str"
| "comp_entries str (e # es) = rbind (comp_entry str e) (\<lambda>str. comp_entries str es)"

definition comp_format :: "u64 \<Rightarrow> u32 \<Rightarrow> 't btree_api \<Rightarrow> 't Memtable \<Rightarrow> bytes res" where
  "comp_format time_now_date cur_version B mt =
     rbind (comp_head time_now_date cur_version B mt) (\<lambda>str.
       comp_entries str (bt_elems B (getMemTableRef mt)))"

section \<open>Lemmas on the format\<close>

lemma put_field_append:
  "rbind (put_field f vp) (put_field g) = put_field (f @ g) vp"
  by (auto simp: put_field_def vec_puts_def drop_append add.assoc) (simp add: ac_simps)

lemma put_field_chain:
  "rbind (put_field f vp) (\<lambda>s. rbind (put_field g s) k) = rbind (put_field (f @ g) vp) k"
  by (simp flip: put_field_append add: rbind_assoc)

lemma put_field_at:
  "length old = length f \<Longrightarrow> put_field f (pre @ old @ post, length pre) = Inr (pre @ f @ post, length pre + length f)"
  by (simp add: put_field_def vec_puts_def)

lemma put_field_blanks:
  "length f \<le> n \<Longrightarrow> put_field f (spaces n @ post, 0) = Inr (f @ spaces (n - length f) @ post, length f)"
  by (simp add: put_field_def vec_puts_def)

lemma varint_u32: "varintLength (ucast (v :: u32)) = length (encodeVarint32 v)"
  by (simp add: varintLength_leb encodeVarint32_leb)

lemma varint_u32_room: "rd format32_vec (varintLength (ucast (v :: u32))) = Inr (spaces (length (encodeVarint32 v)))"
  unfolding varint_u32 using leb_unat_32 [of v]
  by (intro format_vec_spaces) (simp_all add: encodeVarint32_leb Suc_le_eq)

lemma varint_u64_room:
  "v < 2 ^ 63 \<Longrightarrow> rd format64_vec (varintLength v) = Inr (spaces (length (encodeVarint64 v)))"
  unfolding length_encodeVarint64 [symmetric] using leb_unat_64_9 [of v]
  by (intro format_vec_spaces) (simp_all add: encodeVarint64_leb Suc_le_eq)

lemma varint_count_room:
  assumes "n < 2 ^ 32"
  defines "l \<equiv> varintLength (of_nat n)"
  shows "rd format32_vec l = Inr (spaces l)" "1 \<le> l" "encodeVarint32 (of_nat l) = [of_nat l]"
proof -
  have "unat (of_nat n :: u64) = unat (of_nat n :: u32)"
    using assms(1) by (simp add: unat_of_nat)
  then have l: "l = length (leb (unat (of_nat n :: u32)))"
    by (simp add: l_def varintLength_leb)
  then have b: "1 \<le> l" "l \<le> 5"
    using leb_unat_32 [of "of_nat n"] by (simp_all add: Suc_le_eq)
  show "rd format32_vec l = Inr (spaces l)" "1 \<le> l"
    using b by (auto intro: format_vec_spaces)
  have "unat (of_nat l :: u32) = l" using b by (simp add: unat_of_nat)
  then show "encodeVarint32 (of_nat l) = [of_nat l]"
    using b by (simp add: encodeVarint32_leb)
qed

text \<open>What the head of a file holds, blanks left over included.\<close>

definition head_fields :: "u64 \<Rightarrow> u32 \<Rightarrow> u32 \<Rightarrow> u32 \<Rightarrow> nat \<Rightarrow> u64 \<Rightarrow> u32 \<Rightarrow> bytes" where
  "head_fields now version level number count seed fsize =
     encodeVarint32 version @ encodeVarint64 now @ encodeVarint32 level @ encodeVarint32 number @
     [of_nat (varintLength (of_nat count))] @ encodeVarint64 seed @ encodeVarint32 fsize @
     spaces (varintLength (of_nat count) - 1)"

lemma comp_head_eq:
  assumes "now < 2 ^ 63" and "getBloomSeed mt < 2 ^ 63" and "bt_size B (memMap mt) < 2 ^ 32"
    and "length (bs_data (bf_filter (bloomFilter mt))) = unat (bs_data_size (bf_filter (bloomFilter mt)))"
  shows "comp_head now version B mt = Inr (head_fields now version (getCompactionN mt) (getMemNumber mt)
    (bt_size B (memMap mt)) (getBloomSeed mt) (bs_data_size (bf_filter (bloomFilter mt))) @
    bs_data (bf_filter (bloomFilter mt)))"
proof -
  define l where "l = varintLength (of_nat (bt_size B (memMap mt)))"
  note c = varint_count_room [OF assms(3), folded l_def]
  define fs where "fs = encodeVarint32 version @ encodeVarint64 now @ encodeVarint32 (getCompactionN mt) @
    encodeVarint32 (getMemNumber mt) @ [of_nat l] @ encodeVarint64 (getBloomSeed mt) @
    encodeVarint32 (bs_data_size (bf_filter (bloomFilter mt)))"
  define n where "n = length fs + (l - 1)"
  have fs: "length fs \<le> n" "n - length fs = l - 1" by (simp_all add: n_def)
  have blanks: "spaces (length (encodeVarint32 version)) @ spaces (length (encodeVarint64 now)) @
      spaces (length (encodeVarint32 (getCompactionN mt))) @ spaces (length (encodeVarint32 (getMemNumber mt))) @
      spaces l @ spaces (length (encodeVarint64 (getBloomSeed mt))) @
      spaces (length (encodeVarint32 (bs_data_size (bf_filter (bloomFilter mt))))) @ x = spaces n @ x" for x
    using c(2) by (simp add: n_def fs_def flip: replicate_add append_assoc)
  have put: "put_field (encodeVarint32 version @ encodeVarint64 now @ encodeVarint32 (getCompactionN mt) @
    encodeVarint32 (getMemNumber mt) @ of_nat l # encodeVarint64 (getBloomSeed mt) @
    encodeVarint32 (bs_data_size (bf_filter (bloomFilter mt)))) (spaces n @ x, 0) =
    Inr (fs @ spaces (l - 1) @ x, length fs)" for x
    using put_field_blanks [OF fs(1), of x] fs(2) by (simp add: fs_def)
  have "0 < n" using c(2) by (simp add: n_def fs_def)
  then show ?thesis
    using assms(4) c
    by (simp add: comp_head_def varint_u32_room varint_u64_room [OF assms(1)] varint_u64_room [OF assms(2)]
        l_def [symmetric] getMemTableRef_def put_field_chain Let_def blanks put)
      (simp add: head_fields_def fs_def l_def)
qed

text \<open>A record of the file.\<close>

definition sst_rec :: "SSTableKeyValueStyle \<Rightarrow> bytes" where
  "sst_rec kv = (if kv_isExist kv then kv_rec (kv_key kv, kv_value kv) else rec_head (kv_key kv))"

lemma size_room: "short k \<Longrightarrow> rd format32_vec (varintLength (size64 k)) = Inr (spaces (length (encodeVarint32 (size32 k))))"
  using varint_u32_room [of "size32 k"] by (simp add: ucast_size32)

lemma comp_entry_eq:
  assumes "formatMemTableToSSTableStr e = Inr kv" and "short (kv_key kv)" and "short (kv_value kv)"
  shows "comp_entry str e = Inr (str @ sst_rec kv)"
proof -
  let ?k = "kv_key kv" and ?v = "kv_value kv"
  let ?fk = "encodeVarint32 (size32 ?k)" and ?fv = "encodeVarint32 (size32 ?v)"
  have k: "put_field ?fk (str @ spaces (length ?fk) @ post, length str) = Inr (str @ ?fk @ post, length str + length ?fk)" for post
    by (rule put_field_at) simp
  have v: "put_field ?fv (str @ ?fk @ ?k @ spaces (length ?fv) @ ?v, length str + length ?fk + length ?k) =
      Inr (str @ ?fk @ ?k @ ?fv @ ?v, length str + length ?fk + length ?k + length ?fv)"
    using put_field_at [of "spaces (length ?fv)" ?fv "str @ ?fk @ ?k" ?v] by (simp add: add.assoc)
  show ?thesis
    using assms by (simp add: comp_entry_def size_room k v Let_def sst_rec_def kv_rec_def rec_head_def)
qed

lemma comp_entries_eq:
  assumes "list_all2 (\<lambda>e kv. formatMemTableToSSTableStr e = Inr kv \<and> short (kv_key kv) \<and> short (kv_value kv)) es rs"
  shows "comp_entries str es = Inr (str @ concat (map sst_rec rs))"
  using assms by (induction es rs arbitrary: str rule: list_all2_induct) (simp_all add: comp_entry_eq)

text \<open>The entries \<open>Set\<close> stores decode to their key and value.\<close>

lemma format_set_rec:
  assumes "aligned c"
  shows "formatMemTableToSSTableStr (set_rec c) =
    Inr \<lparr>kv_key = set_key c, kv_value = set_value c, kv_isExist = True\<rparr>"
proof -
  let ?h = "rec_head (set_key c)" and ?n = "encodeVarint64 (set_number c)"
  let ?v = "encodeVarint32 (size32 (set_value c))"
  have short: "short (set_key c)" "short (set_value c)" using assms by (simp_all add: aligned_def)
  define m where "m = c_str (set_rec c)"
  have m: "m = ?h @ ?n @ [1] @ ?v @ set_value c @ [0]" by (simp add: m_def c_str_def set_rec_def)
  have d1: "getVarint32Ptr m 0 5 = Inr (Some (size32 (set_key c), length (encodeVarint32 (size32 (set_key c)))))"
    unfolding m by (rule head_decode [OF short(1)])
  have h: "length (encodeVarint32 (size32 (set_key c))) + length (set_key c) = length ?h"
    by (simp add: rec_head_def)
  have key: "view m (length (encodeVarint32 (size32 (set_key c)))) (length (set_key c)) = Inr (set_key c)"
    unfolding m by (rule head_view [OF short(1)])
  have n: "length ?n \<le> 9"
    using assms varint_size_bounds [OF short(2)] by (simp add: length_encodeVarint64 aligned_def)
  have d2: "getVarint64Ptr m (length ?h) (length ?h + 9) = Inr (Some (set_number c, length ?h + length ?n))"
    unfolding m using n by (intro getVarint64Ptr_encode) auto
  have d3: "formatDecodeFixed8 m (length ?h + length ?n) = Inr 1"
    by (simp add: formatDecodeFixed8_def m nth_append)
  have d4: "getVarint32Ptr m (length ?h + length ?n + 1) (length ?h + length ?n + 6)
      = Inr (Some (size32 (set_value c), length ?h + length ?n + 1 + length ?v))"
    using getVarint32Ptr_encode [of "length ?h + length ?n + 1" "?h @ ?n @ [1]"
        "length ?h + length ?n + 6" "size32 (set_value c)" "set_value c @ [0]"] by (simp add: m)
  have d5: "view m (length ?h + length ?n + 1 + length ?v) (length (set_value c)) = Inr (set_value c)"
    by (simp add: m view_def)
  have more: "length ?h \<noteq> length (set_rec c)" by (simp add: set_rec_def)
  show ?thesis
    unfolding formatMemTableToSSTableStr_def Let_def m_def [symmetric] format_value_part_def
    using more by (simp add: d1 h key d2 d3 d4 [simplified] d5 [simplified] short)
qed

text \<open>Round robin: the tables of a sequence of calls are dealt out to the workers in turn.\<close>

fun AddReadOnlyTables :: "'t Memtable list \<Rightarrow> 't Compactor \<Rightarrow> 't Compactor res" where
  "AddReadOnlyTables [] c = Inr c"
| "AddReadOnlyTables (t # ts) c = rbind (AddReadOnlyTable t c) (AddReadOnlyTables ts)"

lemma AddReadOnlyTable_step:
  assumes "unat (current_comp_index c) < length (bg_comp_workers c)" and "length (bg_comp_workers c) < 2 ^ 32"
  shows "\<exists>c'. AddReadOnlyTable t c = Inr c' \<and> length (bg_comp_workers c') = length (bg_comp_workers c) \<and>
    unat (current_comp_index c') = Suc (unat (current_comp_index c)) mod length (bg_comp_workers c) \<and>
    bg_comp_workers c' = (bg_comp_workers c)[unat (current_comp_index c) :=
      AddSStable t (bg_comp_workers c ! unat (current_comp_index c))]"
proof -
  have "unat (current_comp_index c + 1) = Suc (unat (current_comp_index c))"
    using assms by (simp add: unat_word_ariths)
  moreover have "Suc (unat (current_comp_index c)) mod length (bg_comp_workers c) < 2 ^ 32"
    using assms by (metis gr_implies_not_zero less_trans mod_less_divisor neq0_conv)
  ultimately show ?thesis
    using assms(1) by (simp add: AddReadOnlyTable_def Let_def unat_of_nat)
qed

lemma filter_turns:
  "filter (\<lambda>j. (i + j) mod n = w) [0..<Suc k] =
    (if i mod n = w then [0] else []) @ map Suc (filter (\<lambda>j. (Suc i mod n + j) mod n = w) [0..<k])"
proof -
  have "[0..<Suc k] = 0 # map Suc [0..<k]" by (simp add: upt_conv_Cons map_Suc_upt del: upt_Suc)
  moreover have "(Suc i mod n + j) mod n = (i + Suc j) mod n" for j
    by (simp add: mod_add_left_eq)
  ultimately show ?thesis by (simp add: filter_map comp_def del: upt_Suc)
qed

lemma AddReadOnlyTables_turns:
  assumes "unat (current_comp_index c) < length (bg_comp_workers c)" and "length (bg_comp_workers c) < 2 ^ 32"
    and "w < length (bg_comp_workers c)"
  shows "\<exists>c'. AddReadOnlyTables ts c = Inr c' \<and>
    bg_wait_to_sync_sstable (bg_comp_workers c' ! w) = bg_wait_to_sync_sstable (bg_comp_workers c ! w) @
      map ((!) ts) (filter (\<lambda>j. (unat (current_comp_index c) + j) mod length (bg_comp_workers c) = w) [0..<length ts])"
  using assms
proof (induction ts arbitrary: c)
  case (Cons t ts)
  let ?i = "unat (current_comp_index c)" and ?n = "length (bg_comp_workers c)"
  obtain c1 where c1: "AddReadOnlyTable t c = Inr c1" "length (bg_comp_workers c1) = ?n"
    "unat (current_comp_index c1) = Suc ?i mod ?n"
    "bg_comp_workers c1 = (bg_comp_workers c)[?i := AddSStable t (bg_comp_workers c ! ?i)]"
    using AddReadOnlyTable_step [OF Cons.prems(1,2)] by blast
  have "unat (current_comp_index c1) < length (bg_comp_workers c1)"
    using Cons.prems(1) c1(2,3) by (simp add: mod_less_divisor [OF gr_zeroI])
  from Cons.IH [OF this] Cons.prems(2,3) c1(2,3) obtain c' where c': "AddReadOnlyTables ts c1 = Inr c'"
    "bg_wait_to_sync_sstable (bg_comp_workers c' ! w) = bg_wait_to_sync_sstable (bg_comp_workers c1 ! w) @
      map ((!) ts) (filter (\<lambda>j. (Suc ?i mod ?n + j) mod ?n = w) [0..<length ts])"
    by auto
  have "bg_wait_to_sync_sstable (bg_comp_workers c1 ! w) =
      bg_wait_to_sync_sstable (bg_comp_workers c ! w) @ (if ?i = w then [t] else [])"
    using Cons.prems(1,3) by (simp add: c1(4) AddSStable_def)
  then show ?case
    using c1(1) c' filter_turns [of ?i ?n w "length ts"] Cons.prems(1)
    by (simp add: comp_def del: upt_Suc)
qed simp

section \<open>Properties\<close>

text \<open>Property C10. The file a memtable is flushed to: when every entry decodes, it is the version,
  the time, the level, the table number, the length of the varint of the key count (not the
  count), the filter seed and size, one blank for every byte the count would have needed
  beyond the first, the filter and the records in the order of the table.\<close>

theorem compaction_layout:
  assumes "now < 2 ^ 63" and "getBloomSeed mt < 2 ^ 63" and "bt_size B (memMap mt) < 2 ^ 32"
    and "length (bs_data (bf_filter (bloomFilter mt))) = unat (bs_data_size (bf_filter (bloomFilter mt)))"
    and "list_all2 (\<lambda>e kv. formatMemTableToSSTableStr e = Inr kv \<and> short (kv_key kv) \<and> short (kv_value kv))
      (bt_elems B (memMap mt)) rs"
  shows "comp_format now version B mt = Inr (
    encodeVarint32 version @ encodeVarint64 now @ encodeVarint32 (getCompactionN mt) @
    encodeVarint32 (getMemNumber mt) @ [of_nat (varintLength (of_nat (length rs)))] @
    encodeVarint64 (getBloomSeed mt) @ encodeVarint32 (bs_data_size (bf_filter (bloomFilter mt))) @
    spaces (varintLength (of_nat (length rs)) - 1) @
    bs_data (bf_filter (bloomFilter mt)) @ concat (map sst_rec rs))"
  using comp_head_eq [OF assms(1-4)] comp_entries_eq [OF assms(5)] list_all2_lengthD [OF assms(5)]
  by (simp add: comp_format_def getMemTableRef_def bt_size_def head_fields_def)

theorem compaction_layout_witness:
  "comp_format 5 1 sorted_list_set
     ((Memtable_ctor sorted_list_set 3)\<lparr>memMap := [set_rec (example_set [97] [7, 8])]\<rparr>) =
   Inr ([1, 5, 0, 3, 1, 12] @ encodeVarint32 262144 @ replicate 262144 0 @ [1, 97, 2, 7, 8])"
proof -
  let ?mt = "(Memtable_ctor sorted_list_set 3)\<lparr>memMap := [set_rec (example_set [97] [7, 8])]\<rparr>"
  have a: "aligned (example_set [97] [7, 8])"
    by (simp add: aligned_def example_set_def short_def varintLength_leb)
  show ?thesis
    using compaction_layout [of 5 ?mt sorted_list_set
        "[\<lparr>kv_key = [97], kv_value = [7, 8], kv_isExist = True\<rparr>]" 1] format_set_rec [OF a]
    by (simp add: Memtable_ctor_def BloomFilter_ctor_def BitSet_ctor_def kBloomFilterDefaultSize_def
        getBloomSeed_def bt_size_def sorted_list_set_def getCompactionN_def getMemNumber_def
        sst_rec_def kv_rec_def rec_head_def short_def example_set_def varintLength_leb
        encodeVarint32_leb encodeVarint64_leb)
qed

end
