(* ===== verification/Klru_Cache.thy ===== *)
theory Klru_Cache
  imports Prelude "HOL-Library.Multiset"
begin

text \<open>
  The two-segment record cache of a table worker: \<open>src/util/klrucache.hpp\<close> and
  \<open>src/util/klrucache.cpp\<close>. A node of a \<open>std::list\<close> has an identity, which is what an
  iterator holds. A handle's \<open>key\<close> points into an entry of \<open>cache_map_\<close>: the pointer
  is the key with the generation of the entry, and it dangles once that entry was erased.
  A \<open>std::string\<close> that was moved from is empty, as the library of the build leaves it.
\<close>

section \<open>Data\<close>

record CacheHandle =
  ch_key :: "(bytes \<times> nat) option"
  ch_value :: bytes
  isHot :: bool
  isExist :: bool

type_synonym cache_node = "nat \<times> CacheHandle"

record kLRUCache =
  max_probation_mem_size :: u32
  max_protected_mem_size :: u32
  probation_memory_usage :: u32
  protected_memory_usage :: u32
  protected_list :: "cache_node list"
  probation_list :: "cache_node list"
  cache_map :: "bytes \<rightharpoonup> nat \<times> nat"
  next_node :: nat
  next_entry :: nat

definition CacheHandle_value :: "bytes \<Rightarrow> CacheHandle" where
  "CacheHandle_value v = \<lparr>ch_key = None, ch_value = v, isHot = False, isExist = True\<rparr>"

definition CacheHandle_move :: "CacheHandle \<Rightarrow> bool \<Rightarrow> CacheHandle" where
  "CacheHandle_move iter hot =
     \<lparr>ch_key = ch_key iter, ch_value = ch_value iter, isHot = hot, isExist = isExist iter\<rparr>"

section \<open>Operations\<close>

definition deref_key :: "kLRUCache \<Rightarrow> CacheHandle \<Rightarrow> bytes res" where
  "deref_key c h = (case ch_key h of
       None \<Rightarrow> Inl NullDeref
     | Some (k, g) \<Rightarrow> (case cache_map c k of
           None \<Rightarrow> Inl UseAfterFree
         | Some (g', i) \<Rightarrow> if g = g' then Inr k else Inl UseAfterFree))"

definition deref_iter :: "kLRUCache \<Rightarrow> nat \<Rightarrow> CacheHandle res" where
  "deref_iter c i = (case map_of (probation_list c @ protected_list c) i of
       None \<Rightarrow> Inl UseAfterFree
     | Some h \<Rightarrow> Inr h)"

text \<open>\<open>cache_map_[k] = it\<close>: an absent key gets a new entry.\<close>

definition map_assign :: "bytes \<Rightarrow> nat \<Rightarrow> kLRUCache \<Rightarrow> kLRUCache" where
  "map_assign k it c = (case cache_map c k of
       Some (g, i) \<Rightarrow> c\<lparr>cache_map := (cache_map c)(k \<mapsto> (g, it))\<rparr>
     | None \<Rightarrow> c\<lparr>cache_map := (cache_map c)(k \<mapsto> (next_entry c, it)), next_entry := Suc (next_entry c)\<rparr>)"

text \<open>\<open>&(cache_map_.find(k)->first)\<close>.\<close>

definition key_addr :: "bytes \<Rightarrow> kLRUCache \<Rightarrow> (bytes \<times> nat) res" where
  "key_addr k c = (case cache_map c k of None \<Rightarrow> Inl OutOfBounds | Some (g, i) \<Rightarrow> Inr (k, g))"

definition push_probation :: "CacheHandle \<Rightarrow> kLRUCache \<Rightarrow> kLRUCache" where
  "push_probation h c =
     c\<lparr>probation_list := (next_node c, h) # probation_list c, next_node := Suc (next_node c)\<rparr>"

definition push_protected :: "CacheHandle \<Rightarrow> kLRUCache \<Rightarrow> kLRUCache" where
  "push_protected h c =
     c\<lparr>protected_list := (next_node c, h) # protected_list c, next_node := Suc (next_node c)\<rparr>"

text \<open>A list with an assignment through the iterator \<open>i\<close>.\<close>

definition update_node :: "nat \<Rightarrow> (CacheHandle \<Rightarrow> CacheHandle) \<Rightarrow> cache_node list \<Rightarrow> cache_node list" where
  "update_node i f ns = map (\<lambda>(j, h). if j = i then (j, f h) else (j, h)) ns"

text \<open>\<open>probation_list_.begin()->key = &(cache_map_.find(key)->first)\<close>.\<close>

definition set_front_key :: "bytes \<Rightarrow> kLRUCache \<Rightarrow> kLRUCache res" where
  "set_front_key key c =
     rbind (key_addr key c) (\<lambda>p. case probation_list c of
         [] \<Rightarrow> Inl OutOfBounds
       | (i, h) # ns \<Rightarrow> Inr (c\<lparr>probation_list := (i, h\<lparr>ch_key := Some p\<rparr>) # ns\<rparr>))"

text \<open>The loop that pops cold records; \<open>rbegin()\<close> of an empty list cannot be read.\<close>

function evict_probation :: "kLRUCache \<Rightarrow> kLRUCache res" where
  "evict_probation c =
     (if probation_memory_usage c \<ge> max_probation_mem_size c then
        if probation_list c = [] then Inl OutOfBounds
        else let rese_iter = snd (last (probation_list c)) in
          rbind (deref_key c rese_iter) (\<lambda>k.
            let rese_kv_size = of_nat (length k + length (ch_value rese_iter)) in
            evict_probation (c\<lparr>cache_map := (cache_map c)(k := None),
              probation_list := butlast (probation_list c),
              probation_memory_usage := probation_memory_usage c - rese_kv_size\<rparr>))
      else Inr c)"
  by pat_completeness auto
termination
  by (relation "measure (\<lambda>c. length (probation_list c))") auto

declare evict_probation.simps [simp del]

text \<open>The loop of the cold branch of \<open>get\<close> that moves hot records back.\<close>

function demote_counted :: "kLRUCache \<Rightarrow> kLRUCache res" where
  "demote_counted c =
     (if protected_memory_usage c \<ge> max_protected_mem_size c then
        if protected_list c = [] then Inl AssertFail
        else let rese_iter = snd (last (protected_list c)) in
          if ch_key rese_iter = None then Inl AssertFail
          else rbind (deref_key c rese_iter) (\<lambda>k.
            let rese_kv_size = of_nat (length k + length (ch_value rese_iter));
                it = next_node c;
                c = push_probation (CacheHandle_move rese_iter False) c;
                c = map_assign k it c in
            demote_counted (c\<lparr>protected_list := butlast (protected_list c),
              protected_memory_usage := protected_memory_usage c - rese_kv_size,
              probation_memory_usage := probation_memory_usage c + rese_kv_size\<rparr>))
      else Inr c)"
  by pat_completeness auto
termination
  by (relation "measure (\<lambda>c. length (protected_list c))")
    (auto simp: push_probation_def map_assign_def split: option.splits)

declare demote_counted.simps [simp del]

text \<open>The loop of the hot branch, which does not count the moved records as cold.\<close>

function demote_uncounted :: "kLRUCache \<Rightarrow> kLRUCache res" where
  "demote_uncounted c =
     (if protected_memory_usage c \<ge> max_protected_mem_size c then
        if protected_list c = [] then Inl OutOfBounds
        else let rese_iter = snd (last (protected_list c)) in
          rbind (deref_key c rese_iter) (\<lambda>k.
            let rese_kv_size = of_nat (length k + length (ch_value rese_iter));
                it = next_node c;
                c = push_probation (CacheHandle_move rese_iter False) c;
                c = map_assign k it c in
            demote_uncounted (c\<lparr>protected_list := butlast (protected_list c),
              protected_memory_usage := protected_memory_usage c - rese_kv_size\<rparr>))
      else Inr c)"
  by pat_completeness auto
termination
  by (relation "measure (\<lambda>c. length (protected_list c))")
    (auto simp: push_probation_def map_assign_def split: option.splits)

declare demote_uncounted.simps [simp del]

definition get_cold :: "bytes \<Rightarrow> nat \<Rightarrow> CacheHandle \<Rightarrow> kLRUCache \<Rightarrow> kLRUCache res" where
  "get_cold key it h c =
     (let cur_kv_size = of_nat (length key + length (ch_value h)) :: u32;
          cache = CacheHandle_move h True in
      rbind (guard (it \<in> set (map fst (probation_list c))) UseAfterFree) (\<lambda>_.
      let c = c\<lparr>probation_list := filter (\<lambda>n. fst n \<noteq> it) (probation_list c)\<rparr>;
          front = next_node c;
          c = push_protected cache c in
      rbind (deref_key c cache) (\<lambda>k.
      let c = map_assign k front c;
          c = c\<lparr>probation_memory_usage := probation_memory_usage c - cur_kv_size,
                protected_memory_usage := protected_memory_usage c + cur_kv_size\<rparr> in
      rbind (demote_counted c) evict_probation)))"

definition get_hot :: "bytes \<Rightarrow> nat \<Rightarrow> CacheHandle \<Rightarrow> kLRUCache \<Rightarrow> kLRUCache res" where
  "get_hot key it h c =
     (let cache = CacheHandle_move h True in
      rbind (key_addr key c) (\<lambda>p.
      let moved = (\<lambda>n. n\<lparr>ch_value := [], ch_key := Some p\<rparr>);
          c = c\<lparr>probation_list := update_node it moved (probation_list c),
                protected_list := update_node it moved (protected_list c)\<rparr>;
          front = next_node c;
          c = push_protected cache c in
      rbind (deref_key c cache) (\<lambda>k.
      demote_uncounted (map_assign k front c))))"

text \<open>\<open>get\<close> with the strings its two out-parameters hold before the call.\<close>

definition lru_get ::
  "bytes \<Rightarrow> bytes \<Rightarrow> bool \<Rightarrow> kLRUCache \<Rightarrow> (bool \<times> bytes \<times> bool \<times> kLRUCache) res" where
  "lru_get key val isErase c = (case cache_map c key of
       None \<Rightarrow> Inr (False, val, isErase, c)
     | Some (g, it) \<Rightarrow>
         rbind (deref_iter c it) (\<lambda>h.
           let (val, isErase) = (if \<not> isExist h then (val, True) else (ch_value h, False)) in
           rbind (if \<not> isHot h then get_cold key it h c else get_hot key it h c) (\<lambda>c.
             Inr (True, val, isErase, c))))"

definition lru_set :: "bytes \<Rightarrow> bytes \<Rightarrow> kLRUCache \<Rightarrow> kLRUCache res" where
  "lru_set key val c =
     (let front = next_node c;
          c = push_probation (CacheHandle_value val) c;
          c = map_assign key front c in
      rbind (set_front_key key c) (\<lambda>c.
        evict_probation (c\<lparr>probation_memory_usage :=
          probation_memory_usage c + of_nat (length key + length val)\<rparr>)))"

definition setEraseRecord :: "bytes \<Rightarrow> kLRUCache \<Rightarrow> kLRUCache res" where
  "setEraseRecord key c =
     (let front = next_node c;
          c = push_probation \<lparr>ch_key = None, ch_value = [], isHot = False, isExist = False\<rparr> c;
          c = map_assign key front c in
      rbind (set_front_key key c) (\<lambda>c.
        evict_probation (c\<lparr>probation_memory_usage :=
          probation_memory_usage c + of_nat (length key)\<rparr>)))"

definition getMemsize :: "kLRUCache \<Rightarrow> u32" where
  "getMemsize c = probation_memory_usage c + protected_memory_usage c"

definition getMaxMemsize :: "kLRUCache \<Rightarrow> u32" where
  "getMaxMemsize c = max_probation_mem_size c + max_protected_mem_size c"

definition kLRUCache_ctor :: "u32 \<Rightarrow> u32 \<Rightarrow> kLRUCache" where
  "kLRUCache_ctor cold_memory_usage hot_memory_usage =
     \<lparr>max_probation_mem_size = cold_memory_usage, max_protected_mem_size = hot_memory_usage,
      probation_memory_usage = 0, protected_memory_usage = 0, protected_list = [],
      probation_list = [], cache_map = Map.empty, next_node = 0, next_entry = 0\<rparr>"

text \<open>The default constructor leaves the four sizes as the memory holds them; \<open>Init\<close> sets two of them.\<close>

definition kLRUCache_default :: "u32 \<Rightarrow> u32 \<Rightarrow> u32 \<Rightarrow> u32 \<Rightarrow> kLRUCache" where
  "kLRUCache_default g1 g2 g3 g4 =
     (kLRUCache_ctor g1 g2)\<lparr>probation_memory_usage := g3, protected_memory_usage := g4\<rparr>"

definition kLRUCache_Init :: "u32 \<Rightarrow> u32 \<Rightarrow> kLRUCache \<Rightarrow> kLRUCache" where
  "kLRUCache_Init cold_memory_usage hot_memory_usage c =
     c\<lparr>max_probation_mem_size := cold_memory_usage, max_protected_mem_size := hot_memory_usage\<rparr>"


section \<open>Well-formed caches\<close>

definition kname :: "cache_node \<Rightarrow> bytes" where
  "kname n = fst (the (ch_key (snd n)))"

definition node_size :: "cache_node \<Rightarrow> nat" where
  "node_size n = length (kname n) + length (ch_value (snd n))"

text \<open>Nodes and map entries are in one-to-one correspondence.\<close>

definition nodes_ok :: "cache_node list \<Rightarrow> (bytes \<rightharpoonup> nat \<times> nat) \<Rightarrow> nat \<Rightarrow> bool" where
  "nodes_ok N m nn \<longleftrightarrow> distinct (map fst N) \<and> (\<forall>n\<in>set N. fst n < nn) \<and>
     (\<forall>n\<in>set N. \<exists>k g. ch_key (snd n) = Some (k, g) \<and> m k = Some (g, fst n)) \<and>
     (\<forall>k g i. m k = Some (g, i) \<longrightarrow> (\<exists>h. (i, h) \<in> set N \<and> ch_key h = Some (k, g)))"

definition cache_ok :: "kLRUCache \<Rightarrow> bool" where
  "cache_ok c \<longleftrightarrow> nodes_ok (probation_list c @ protected_list c) (cache_map c) (next_node c) \<and>
     (\<forall>n\<in>set (probation_list c). \<not> isHot (snd n)) \<and> (\<forall>n\<in>set (protected_list c). isHot (snd n)) \<and>
     unat (probation_memory_usage c) = sum_list (map node_size (probation_list c)) \<and>
     unat (protected_memory_usage c) = sum_list (map node_size (protected_list c))"

text \<open>What a cache holds for a key: whether the record exists, and its value.\<close>

definition lru_lookup :: "kLRUCache \<Rightarrow> bytes \<rightharpoonup> bool \<times> bytes" where
  "lru_lookup c k = (case cache_map c k of None \<Rightarrow> None
     | Some (g, i) \<Rightarrow> map_option (\<lambda>h. (isExist h, ch_value h)) (map_of (probation_list c @ protected_list c) i))"

definition below_limits :: "kLRUCache \<Rightarrow> bool" where
  "below_limits c \<longleftrightarrow> probation_memory_usage c < max_probation_mem_size c \<and>
     protected_memory_usage c < max_protected_mem_size c"

definition limits_fit :: "kLRUCache \<Rightarrow> bool" where
  "limits_fit c \<longleftrightarrow> unat (max_probation_mem_size c) + unat (max_protected_mem_size c) \<le> 2 ^ 32"

definition same_limits :: "kLRUCache \<Rightarrow> kLRUCache \<Rightarrow> bool" where
  "same_limits c c' \<longleftrightarrow> max_probation_mem_size c' = max_probation_mem_size c \<and>
     max_protected_mem_size c' = max_protected_mem_size c"

lemma nodes_ok_perm:
  assumes "mset N = mset N'"
  shows "nodes_ok N m nn \<longleftrightarrow> nodes_ok N' m nn"
proof -
  have "mset (map fst N) = mset (map fst N')" using assms by simp
  then have "distinct (map fst N) \<longleftrightarrow> distinct (map fst N')"
    by (rule mset_eq_imp_distinct_iff)
  moreover have "set N = set N'"
    using assms by (rule mset_eq_setD)
  ultimately show ?thesis unfolding nodes_ok_def by simp
qed

lemma nodes_okE:
  assumes "nodes_ok N m nn" and "n \<in> set N"
  obtains g where "ch_key (snd n) = Some (kname n, g)" "m (kname n) = Some (g, fst n)"
  using assms by (auto simp: nodes_ok_def kname_def)

lemma nodes_ok_entry:
  assumes "nodes_ok N m nn" and "m k = Some (g, i)"
  obtains h where "(i, h) \<in> set N" "ch_key h = Some (k, g)"
  using assms unfolding nodes_ok_def by blast

lemma nodes_ok_remove:
  assumes "nodes_ok (n # N) m nn"
  shows "nodes_ok N (m(kname n := None)) nn"
proof -
  have d: "distinct (map fst (n # N))" "\<forall>n\<in>set N. fst n < nn"
    using assms by (auto simp: nodes_ok_def)
  obtain g where g: "ch_key (snd n) = Some (kname n, g)" "m (kname n) = Some (g, fst n)"
    using assms by (rule nodes_okE) (rule list.set_intros)
  have "\<exists>k g. ch_key (snd x) = Some (k, g) \<and> (m(kname n := None)) k = Some (g, fst x)"
    if x: "x \<in> set N" for x
  proof -
    obtain g' where g': "ch_key (snd x) = Some (kname x, g')" "m (kname x) = Some (g', fst x)"
      using assms list.set_intros(2) [OF x] by (rule nodes_okE)
    have "kname x \<noteq> kname n"
      using g g' d(1) x by auto
    then show ?thesis using g' by auto
  qed
  moreover have "\<exists>h. (i, h) \<in> set N \<and> ch_key h = Some (k, g')"
    if m: "(m(kname n := None)) k = Some (g', i)" for k g' i
  proof -
    have "k \<noteq> kname n" "m k = Some (g', i)" using m by (auto split: if_splits)
    with nodes_ok_entry [OF assms this(2)] g(1) show ?thesis by fastforce
  qed
  ultimately show ?thesis using d by (simp add: nodes_ok_def)
qed

lemma nodes_ok_add:
  assumes "nodes_ok N m nn" and "m k = None" and "ch_key h = Some (k, g)"
  shows "nodes_ok ((nn, h) # N) (m(k \<mapsto> (g, nn))) (Suc nn)"
proof -
  have d: "distinct (map fst N)" "\<forall>n\<in>set N. fst n < nn"
    using assms by (auto simp: nodes_ok_def)
  have "\<exists>k' g'. ch_key (snd x) = Some (k', g') \<and> (m(k \<mapsto> (g, nn))) k' = Some (g', fst x)"
    if x: "x \<in> set N" for x
  proof -
    obtain g' where "ch_key (snd x) = Some (kname x, g')" "m (kname x) = Some (g', fst x)"
      using assms(1) x by (rule nodes_okE)
    then show ?thesis using assms(2) by (intro exI [of _ "kname x"] exI [of _ g']) auto
  qed
  moreover have "\<exists>h'. (i, h') \<in> set ((nn, h) # N) \<and> ch_key h' = Some (k', g')"
    if m: "(m(k \<mapsto> (g, nn))) k' = Some (g', i)" for k' g' i
  proof (cases "k' = k")
    case True
    then show ?thesis using m assms(3) by auto
  next
    case False
    then have "m k' = Some (g', i)" using m by simp
    then obtain h' where "(i, h') \<in> set N" "ch_key h' = Some (k', g')"
      by (rule nodes_ok_entry [OF assms(1)])
    then show ?thesis by auto
  qed
  ultimately show ?thesis using d assms(3) by (auto simp: nodes_ok_def less_Suc_eq)
qed

lemma nodes_ok_move:
  assumes "nodes_ok ((i, h) # N) m nn" and "ch_key h' = ch_key h" and "ch_key h = Some (k, g)"
  shows "nodes_ok ((nn, h') # N) (m(k \<mapsto> (g, nn))) (Suc nn)"
proof -
  have "nodes_ok N (m(k := None)) nn"
    using nodes_ok_remove [OF assms(1)] assms(3) by (simp add: kname_def)
  from nodes_ok_add [OF this, of k h' g] assms(2,3) show ?thesis by simp
qed

lemma nodes_ok_lookup:
  assumes "nodes_ok N m nn"
  shows "(case m k of None \<Rightarrow> None | Some (g, i) \<Rightarrow> map_option f (map_of N i)) = Some x \<longleftrightarrow>
    (\<exists>n\<in>set N. kname n = k \<and> f (snd n) = x)"
proof
  assume L: "(case m k of None \<Rightarrow> None | Some (g, i) \<Rightarrow> map_option f (map_of N i)) = Some x"
  then obtain g i h where h: "m k = Some (g, i)" "map_of N i = Some h" "f h = x"
    by (auto split: option.splits)
  obtain h' where "(i, h') \<in> set N" "ch_key h' = Some (k, g)"
    using assms h(1) by (rule nodes_ok_entry)
  moreover have "h' = h"
    using calculation(1) h(2) assms by (simp add: nodes_ok_def)
  ultimately show "\<exists>n\<in>set N. kname n = k \<and> f (snd n) = x"
    using h(3) by (force simp: kname_def)
next
  assume "\<exists>n\<in>set N. kname n = k \<and> f (snd n) = x"
  then obtain n where n: "n \<in> set N" "kname n = k" "f (snd n) = x" by blast
  then obtain g where "m k = Some (g, fst n)"
    using assms by (auto simp: nodes_ok_def kname_def)
  moreover have "map_of N (fst n) = Some (snd n)"
    using n(1) assms by (simp add: nodes_ok_def)
  ultimately show "(case m k of None \<Rightarrow> None | Some (g, i) \<Rightarrow> map_option f (map_of N i)) = Some x"
    using n(3) by simp
qed

lemma lru_lookup_iff:
  assumes "cache_ok c"
  shows "lru_lookup c k = Some x \<longleftrightarrow> (\<exists>n\<in>set (probation_list c @ protected_list c).
    kname n = k \<and> (isExist (snd n), ch_value (snd n)) = x)"
  using assms unfolding cache_ok_def lru_lookup_def by (intro nodes_ok_lookup) blast

lemma map_le_SomeI: "(\<And>k x. f k = Some x \<Longrightarrow> g k = Some x) \<Longrightarrow> f \<subseteq>\<^sub>m g"
  by (force simp: map_le_def dom_def)

lemma lru_lookup_mono:
  assumes "cache_ok c" "cache_ok c'"
    and "\<And>n. n \<in> set (probation_list c @ protected_list c) \<Longrightarrow> \<exists>n'\<in>set (probation_list c' @ protected_list c').
      kname n' = kname n \<and> isExist (snd n') = isExist (snd n) \<and> ch_value (snd n') = ch_value (snd n)"
  shows "lru_lookup c \<subseteq>\<^sub>m lru_lookup c'"
proof -
  have "lru_lookup c' k = Some x" if L: "lru_lookup c k = Some x" for k x
  proof -
    obtain n where n: "n \<in> set (probation_list c @ protected_list c)" "kname n = k"
      "(isExist (snd n), ch_value (snd n)) = x"
      using L unfolding lru_lookup_iff [OF assms(1)] by blast
    from assms(3) [OF n(1)] n(2,3) show ?thesis
      unfolding lru_lookup_iff [OF assms(2)] by auto
  qed
  then show ?thesis by (rule map_le_SomeI)
qed

text \<open>Exact subtraction and addition of record sizes.\<close>

lemma unat_minus_size: "unat (u :: u32) = s + x \<Longrightarrow> unat (u - of_nat x) = s"
  using unat_u32_less [of u] by (simp add: unat_sub_if' unat_of_nat)

lemma unat_plus_size: "unat (u :: u32) + x < 2 ^ 32 \<Longrightarrow> unat (u + of_nat x) = unat u + x"
  by (simp add: unat_word_ariths unat_of_nat mod_simps)

lemma deref_key_node:
  assumes "ch_key h = Some (k, g)" "cache_map c k = Some (g, i)"
  shows "deref_key c h = Inr k"
  using assms by (simp add: deref_key_def)

text \<open>Popping cold records keeps a prefix of the newest ones.\<close>

definition evicted :: "kLRUCache \<Rightarrow> kLRUCache \<Rightarrow> bool" where
  "evicted c c' \<longleftrightarrow> cache_ok c' \<and> (\<exists>j. probation_list c' = take j (probation_list c)) \<and>
    protected_list c' = protected_list c \<and> next_node c' = next_node c \<and>
    max_probation_mem_size c' = max_probation_mem_size c \<and>
    max_protected_mem_size c' = max_protected_mem_size c \<and>
    protected_memory_usage c' = protected_memory_usage c \<and> lru_lookup c' \<subseteq>\<^sub>m lru_lookup c"

lemma evicted_refl: "cache_ok c \<Longrightarrow> evicted c c"
  by (auto simp: evicted_def intro: exI [of _ "length (probation_list c)"])

lemma evicted_trans: "evicted a b \<Longrightarrow> evicted b c \<Longrightarrow> evicted a c"
  by (auto simp: evicted_def intro: map_le_trans)

lemma evict_step:
  assumes "cache_ok c" and "0 < max_probation_mem_size c" and "max_probation_mem_size c \<le> probation_memory_usage c"
  obtains c1 where "evict_probation c = evict_probation c1" "evicted c c1"
    "length (probation_list c1) < length (probation_list c)"
proof -
  have ne: "probation_list c \<noteq> []"
    using assms by (auto simp: cache_ok_def word_le_nat_alt word_less_nat_alt)
  define n P where "n = last (probation_list c)" and "P = butlast (probation_list c)"
  have P: "probation_list c = P @ [n]" using ne by (simp add: n_def P_def)
  have ok: "nodes_ok (n # P @ protected_list c) (cache_map c) (next_node c)"
    using assms(1) nodes_ok_perm [of "n # P @ protected_list c" "probation_list c @ protected_list c"]
    by (simp add: cache_ok_def P)
  then obtain g where g: "ch_key (snd n) = Some (kname n, g)" "cache_map c (kname n) = Some (g, fst n)"
    by (rule nodes_okE) (rule list.set_intros)
  define c1 where "c1 = c\<lparr>cache_map := (cache_map c)(kname n := None), probation_list := P,
    probation_memory_usage := probation_memory_usage c - of_nat (length (kname n) + length (ch_value (snd n)))\<rparr>"
  have step: "evict_probation c = evict_probation c1"
    using assms(3) ne g by (subst evict_probation.simps)
      (simp add: deref_key_node n_def [symmetric] P_def [symmetric] c1_def Let_def)
  have ok1: "cache_ok c1"
    using assms(1) nodes_ok_remove [OF ok]
    by (simp add: cache_ok_def c1_def P unat_minus_size node_size_def del: of_nat_add)
  have "lru_lookup c1 \<subseteq>\<^sub>m lru_lookup c"
    by (rule lru_lookup_mono [OF ok1 assms(1)]) (auto simp: c1_def P)
  moreover have "\<exists>j. P = take j (probation_list c)"
    by (rule exI [of _ "length P"]) (simp add: P)
  ultimately have "evicted c c1"
    using ok1 by (simp add: evicted_def c1_def)
  then show ?thesis
    by (rule that [OF step]) (simp add: c1_def P)
qed

lemma evict_noop: "probation_memory_usage c < max_probation_mem_size c \<Longrightarrow> evict_probation c = Inr c"
  by (subst evict_probation.simps) auto

lemma evict_probation_ok:
  assumes "cache_ok c" and "0 < max_probation_mem_size c"
  shows "\<exists>c'. evict_probation c = Inr c' \<and> evicted c c' \<and> probation_memory_usage c' < max_probation_mem_size c"
  using assms
proof (induction "length (probation_list c)" arbitrary: c rule: less_induct)
  case less
  show ?case
  proof (cases "probation_memory_usage c < max_probation_mem_size c")
    case True
    then show ?thesis using less.prems evicted_refl by (simp add: evict_noop)
  next
    case False
    then obtain c1 where c1: "evict_probation c = evict_probation c1" "evicted c c1"
      "length (probation_list c1) < length (probation_list c)"
      using evict_step less.prems by (metis not_le)
    then show ?thesis
      using less.hyps [OF c1(3)] less.prems(2) evicted_trans [OF c1(2)] by (auto simp: evicted_def)
  qed
qed

text \<open>Moving records between the two lists loses nothing.\<close>

definition moved :: "kLRUCache \<Rightarrow> kLRUCache \<Rightarrow> bool" where
  "moved c c' \<longleftrightarrow> cache_ok c' \<and> max_probation_mem_size c' = max_probation_mem_size c \<and>
    max_protected_mem_size c' = max_protected_mem_size c \<and>
    unat (probation_memory_usage c') + unat (protected_memory_usage c') =
      unat (probation_memory_usage c) + unat (protected_memory_usage c) \<and>
    lru_lookup c \<subseteq>\<^sub>m lru_lookup c' \<and> lru_lookup c' \<subseteq>\<^sub>m lru_lookup c"

lemma moved_refl: "cache_ok c \<Longrightarrow> moved c c"
  by (simp add: moved_def)

lemma moved_trans: "moved a b \<Longrightarrow> moved b c \<Longrightarrow> moved a c"
  by (auto simp: moved_def intro: map_le_trans)

lemma CacheHandle_move_node [simp]:
  "ch_key (CacheHandle_move h b) = ch_key h" "isHot (CacheHandle_move h b) = b"
  "isExist (CacheHandle_move h b) = isExist h" "ch_value (CacheHandle_move h b) = ch_value h"
  by (simp_all add: CacheHandle_move_def)

lemma moved_node:
  "node_size (i, CacheHandle_move h b) = node_size (j, h)" "kname (i, CacheHandle_move h b) = kname (j, h)"
  by (simp_all add: node_size_def kname_def)

lemma demote_step:
  assumes "cache_ok c" and "0 < max_protected_mem_size c" and "max_protected_mem_size c \<le> protected_memory_usage c"
    and "unat (probation_memory_usage c) + unat (protected_memory_usage c) < 2 ^ 32"
  obtains c1 where "demote_counted c = demote_counted c1" "moved c c1"
    "length (protected_list c1) < length (protected_list c)"
proof -
  have ne: "protected_list c \<noteq> []"
    using assms(1-3) by (auto simp: cache_ok_def word_le_nat_alt word_less_nat_alt)
  obtain i h where n: "last (protected_list c) = (i, h)" by fastforce
  define P where "P = butlast (protected_list c)"
  have P: "protected_list c = P @ [(i, h)]" using ne n by (metis P_def append_butlast_last_id)
  have ok: "nodes_ok ((i, h) # probation_list c @ P) (cache_map c) (next_node c)"
    using assms(1) nodes_ok_perm [of "(i, h) # probation_list c @ P" "probation_list c @ protected_list c"]
    by (simp add: cache_ok_def P)
  then obtain g where "ch_key (snd (i, h)) = Some (kname (i, h), g)"
    "cache_map c (kname (i, h)) = Some (g, fst (i, h))"
    by (rule nodes_okE) (rule list.set_intros)
  then have g: "ch_key h = Some (kname (i, h), g)" "cache_map c (kname (i, h)) = Some (g, i)" by simp_all
  define sz where "sz = node_size (i, h)"
  have sz: "length (kname (i, h)) + length (ch_value h) = sz" by (simp add: sz_def node_size_def)
  define c1 where "c1 = c\<lparr>probation_list := (next_node c, CacheHandle_move h False) # probation_list c,
    next_node := Suc (next_node c), cache_map := (cache_map c)(kname (i, h) \<mapsto> (g, next_node c)),
    protected_list := P, protected_memory_usage := protected_memory_usage c - of_nat sz,
    probation_memory_usage := probation_memory_usage c + of_nat sz\<rparr>"
  have step: "demote_counted c = demote_counted c1"
    using assms(3) ne g sz [symmetric]
    by (subst demote_counted.simps)
      (simp add: deref_key_node n P_def [symmetric] c1_def Let_def push_probation_def map_assign_def)
  have hot: "unat (protected_memory_usage c) = sum_list (map node_size P) + sz"
    using assms(1) by (simp add: cache_ok_def P sz_def)
  have use: "unat (protected_memory_usage c - of_nat sz) = sum_list (map node_size P)"
    "unat (probation_memory_usage c + of_nat sz) = unat (probation_memory_usage c) + sz"
    using assms(4) hot unat_minus_size [OF hot] by (simp_all add: unat_plus_size)
  have ok1: "cache_ok c1"
    using assms(1) nodes_ok_move [OF ok _ g(1), of "CacheHandle_move h False"] use
    by (simp add: cache_ok_def c1_def P sz_def moved_node [of _ _ _ i])
  have "lru_lookup c1 \<subseteq>\<^sub>m lru_lookup c" "lru_lookup c \<subseteq>\<^sub>m lru_lookup c1"
    by (rule lru_lookup_mono [OF ok1 assms(1)], force simp: c1_def P moved_node [of _ _ _ i])
      (rule lru_lookup_mono [OF assms(1) ok1], force simp: c1_def P moved_node [of _ _ _ i])
  then have "moved c c1"
    using ok1 hot use by (simp add: moved_def c1_def)
  then show ?thesis
    by (rule that [OF step]) (simp add: c1_def P)
qed

lemma demote_counted_ok:
  assumes "cache_ok c" and "0 < max_protected_mem_size c"
    and "unat (probation_memory_usage c) + unat (protected_memory_usage c) < 2 ^ 32"
  shows "\<exists>c'. demote_counted c = Inr c' \<and> moved c c' \<and> protected_memory_usage c' < max_protected_mem_size c"
  using assms
proof (induction "length (protected_list c)" arbitrary: c rule: less_induct)
  case less
  show ?case
  proof (cases "protected_memory_usage c < max_protected_mem_size c")
    case True
    then show ?thesis
      using less.prems(1) by (subst demote_counted.simps) (auto intro: moved_refl)
  next
    case False
    then obtain c1 where c1: "demote_counted c = demote_counted c1" "moved c c1"
      "length (protected_list c1) < length (protected_list c)"
      using demote_step less.prems by (metis not_le)
    then show ?thesis
      using less.hyps [OF c1(3)] less.prems(2,3) moved_trans [OF c1(2)] by (auto simp: moved_def)
  qed
qed

lemma below_limits_sum:
  assumes "below_limits c" and "limits_fit c"
  shows "unat (probation_memory_usage c) + unat (protected_memory_usage c) < 2 ^ 32"
  using assms by (simp add: below_limits_def limits_fit_def word_less_nat_alt)

lemma below_limits_pos:
  assumes "below_limits c"
  shows "0 < max_probation_mem_size c" "0 < max_protected_mem_size c"
  using assms by (simp_all add: below_limits_def word_less_nat_alt)

lemma lru_lookup_add:
  assumes "cache_ok c" "cache_ok c1" and "cache_map c key = None" and "ch_key h = Some (key, g)"
    and "set (probation_list c1 @ protected_list c1) = insert (i, h) (set (probation_list c @ protected_list c))"
  shows "lru_lookup c1 \<subseteq>\<^sub>m (lru_lookup c)(key \<mapsto> (isExist h, ch_value h))"
proof (rule map_le_SomeI)
  fix k x
  assume "lru_lookup c1 k = Some x"
  then obtain n where n: "n = (i, h) \<or> n \<in> set (probation_list c @ protected_list c)" "kname n = k"
    "(isExist (snd n), ch_value (snd n)) = x"
    unfolding lru_lookup_iff [OF assms(2)] assms(5) by blast
  show "((lru_lookup c)(key \<mapsto> (isExist h, ch_value h))) k = Some x"
  proof (cases "n = (i, h)")
    case True
    then show ?thesis using n(2,3) assms(4) by (auto simp: kname_def)
  next
    case False
    then have mem: "n \<in> set (probation_list c @ protected_list c)" using n(1) by simp
    then have "lru_lookup c k = Some x"
      using n(2,3) lru_lookup_iff [OF assms(1)] by blast
    moreover have "k \<noteq> key"
      using nodes_okE [OF _ mem] assms(1,3) n(2) by (metis cache_ok_def option.distinct(1))
    ultimately show ?thesis by simp
  qed
qed

text \<open>A record of a key that is not cached.\<close>

lemma insert_fresh:
  assumes "cache_ok c" and "below_limits c" and "limits_fit c" and "cache_map c key = None" and "\<not> isHot h"
    and "ch_key h = Some (key, next_entry c)"
    and "unat (max_probation_mem_size c) + length key + length (ch_value h) \<le> 2 ^ 32"
  defines "c1 \<equiv> c\<lparr>next_node := Suc (next_node c),
      cache_map := (cache_map c)(key \<mapsto> (next_entry c, next_node c)), next_entry := Suc (next_entry c),
      probation_list := (next_node c, h) # probation_list c,
      probation_memory_usage := probation_memory_usage c + of_nat (length key + length (ch_value h))\<rparr>"
  shows "\<exists>c'. evict_probation c1 = Inr c' \<and> cache_ok c' \<and> below_limits c' \<and> limits_fit c' \<and> same_limits c c' \<and>
    lru_lookup c' \<subseteq>\<^sub>m (lru_lookup c)(key \<mapsto> (isExist h, ch_value h)) \<and>
    (\<exists>j. map kname (probation_list c') = take j (key # map kname (probation_list c))) \<and>
    protected_list c' = protected_list c"
proof -
  have sz: "node_size (i, h) = length key + length (ch_value h)" "kname (i, h) = key" for i
    using assms(6) by (simp_all add: node_size_def kname_def)
  have "unat (probation_memory_usage c) + (length key + length (ch_value h)) < 2 ^ 32"
    using assms(2,7) by (simp add: below_limits_def word_less_nat_alt)
  note use = unat_plus_size [OF this]
  have ok1: "cache_ok c1"
    using assms(1,5) nodes_ok_add [of _ "cache_map c" "next_node c" key, OF _ assms(4,6)]
    by (simp add: cache_ok_def c1_def use sz del: of_nat_add)
  have "0 < max_probation_mem_size c1"
    using below_limits_pos [OF assms(2)] by (simp add: c1_def)
  then obtain c' where c': "evict_probation c1 = Inr c'" "evicted c1 c'"
    "probation_memory_usage c' < max_probation_mem_size c1"
    using evict_probation_ok [OF ok1] by blast
  have "lru_lookup c1 \<subseteq>\<^sub>m (lru_lookup c)(key \<mapsto> (isExist h, ch_value h))"
    using assms(1) ok1 assms(4,6) by (rule lru_lookup_add) (simp add: c1_def)
  then have "lru_lookup c' \<subseteq>\<^sub>m (lru_lookup c)(key \<mapsto> (isExist h, ch_value h))"
    using c'(2) map_le_trans by (auto simp: evicted_def)
  moreover obtain j where "probation_list c' = take j ((next_node c, h) # probation_list c)"
    using c'(2) by (auto simp: evicted_def c1_def)
  then have "map kname (probation_list c') = take j (key # map kname (probation_list c))"
    by (simp add: take_map [symmetric] sz(2))
  moreover have "evict_probation c1 = Inr c' \<and> cache_ok c' \<and> below_limits c' \<and> limits_fit c' \<and>
      same_limits c c' \<and> protected_list c' = protected_list c"
    using c' assms(2,3)
    by (simp add: evicted_def below_limits_def limits_fit_def same_limits_def c1_def del: of_nat_add)
  ultimately show ?thesis by blast
qed

lemma lru_set_fresh:
  assumes "cache_ok c" and "below_limits c" and "limits_fit c" and "cache_map c key = None"
    and "unat (max_probation_mem_size c) + length key + length val \<le> 2 ^ 32"
  shows "\<exists>c'. lru_set key val c = Inr c' \<and> cache_ok c' \<and> below_limits c' \<and> limits_fit c' \<and> same_limits c c' \<and>
    lru_lookup c' \<subseteq>\<^sub>m (lru_lookup c)(key \<mapsto> (True, val)) \<and>
    (\<exists>j. map kname (probation_list c') = take j (key # map kname (probation_list c))) \<and>
    protected_list c' = protected_list c"
  using insert_fresh [OF assms(1-4), of "(CacheHandle_value val)\<lparr>ch_key := Some (key, next_entry c)\<rparr>"] assms(4,5)
  by (simp add: lru_set_def CacheHandle_value_def push_probation_def map_assign_def set_front_key_def key_addr_def Let_def)

lemma setEraseRecord_fresh:
  assumes "cache_ok c" and "below_limits c" and "limits_fit c" and "cache_map c key = None"
    and "unat (max_probation_mem_size c) + length key \<le> 2 ^ 32"
  shows "\<exists>c'. setEraseRecord key c = Inr c' \<and> cache_ok c' \<and> below_limits c' \<and> limits_fit c' \<and> same_limits c c' \<and>
    lru_lookup c' \<subseteq>\<^sub>m (lru_lookup c)(key \<mapsto> (False, [])) \<and>
    (\<exists>j. map kname (probation_list c') = take j (key # map kname (probation_list c))) \<and>
    protected_list c' = protected_list c"
  using insert_fresh [OF assms(1-4),
      of "\<lparr>ch_key = Some (key, next_entry c), ch_value = [], isHot = False, isExist = False\<rparr>"] assms(4,5)
  by (simp add: setEraseRecord_def push_probation_def map_assign_def set_front_key_def key_addr_def Let_def)

lemma lru_entry:
  assumes "cache_ok c" and "cache_map c key = Some (g, it)"
  obtains h where "(it, h) \<in> set (probation_list c @ protected_list c)" "ch_key h = Some (key, g)"
    "deref_iter c it = Inr h" "lru_lookup c key = Some (isExist h, ch_value h)"
proof -
  have ok: "nodes_ok (probation_list c @ protected_list c) (cache_map c) (next_node c)"
    using assms(1) by (simp add: cache_ok_def)
  obtain h where h: "(it, h) \<in> set (probation_list c @ protected_list c)" "ch_key h = Some (key, g)"
    using ok assms(2) by (rule nodes_ok_entry)
  have "map_of (probation_list c @ protected_list c) it = Some h"
    using h(1) ok by (intro map_of_is_SomeI) (simp_all add: nodes_ok_def)
  then show ?thesis
    using that h assms(2) by (simp add: deref_iter_def lru_lookup_def del: map_of_append)
qed

lemma filter_node:
  assumes "distinct (map fst (A @ (i, h) # B))"
  shows "filter (\<lambda>n. fst n \<noteq> i) (A @ (i, h) # B) = A @ B"
proof -
  have "fst n \<noteq> i" if "n \<in> set (A @ B)" for n
    using assms that by (auto simp: image_iff)
  then show ?thesis by (simp add: filter_True)
qed

lemma get_cold_promotes:
  assumes "cache_ok c" and "unat (probation_memory_usage c) + unat (protected_memory_usage c) < 2 ^ 32"
    and "(it, h) \<in> set (probation_list c)" and "ch_key h = Some (key, g)" and "cache_map c key = Some (g, it)"
  obtains c1 where "get_cold key it h c = rbind (demote_counted c1) evict_probation" "moved c c1"
proof -
  obtain A B where P: "probation_list c = A @ (it, h) # B"
    using assms(3) by (meson split_list)
  define sz where "sz = node_size (it, h)"
  have sz: "length key + length (ch_value h) = sz" "kname (it, h) = key"
    using assms(4) by (simp_all add: sz_def node_size_def kname_def)
  define c1 where "c1 = c\<lparr>probation_list := A @ B,
    protected_list := (next_node c, CacheHandle_move h True) # protected_list c,
    next_node := Suc (next_node c), cache_map := (cache_map c)(key \<mapsto> (g, next_node c)),
    probation_memory_usage := probation_memory_usage c - of_nat sz,
    protected_memory_usage := protected_memory_usage c + of_nat sz\<rparr>"
  have nok: "nodes_ok (probation_list c @ protected_list c) (cache_map c) (next_node c)"
    using assms(1) by (simp add: cache_ok_def)
  then have "distinct (map fst (A @ (it, h) # B))"
    by (auto simp: nodes_ok_def P)
  from filter_node [OF this]
  have code: "get_cold key it h c = rbind (demote_counted c1) evict_probation"
    using assms(4,5) sz(1) [symmetric]
    by (simp add: get_cold_def push_protected_def map_assign_def deref_key_def Let_def P c1_def del: filter_append)
  have cold: "unat (probation_memory_usage c) = sum_list (map node_size (A @ B)) + sz"
    using assms(1) by (simp add: cache_ok_def P sz_def)
  have use: "unat (probation_memory_usage c - of_nat sz) = sum_list (map node_size (A @ B))"
    "unat (protected_memory_usage c + of_nat sz) = unat (protected_memory_usage c) + sz"
    using assms(2) cold unat_minus_size [OF cold] by (simp_all add: unat_plus_size)
  have "nodes_ok ((it, h) # A @ B @ protected_list c) (cache_map c) (next_node c)"
    using nok nodes_ok_perm [of "(it, h) # A @ B @ protected_list c" "probation_list c @ protected_list c"]
    by (simp add: P)
  from nodes_ok_move [OF this _ assms(4), of "CacheHandle_move h True"]
  have "nodes_ok ((A @ B) @ (next_node c, CacheHandle_move h True) # protected_list c)
      ((cache_map c)(key \<mapsto> (g, next_node c))) (Suc (next_node c))"
    by (subst nodes_ok_perm [of _ "(next_node c, CacheHandle_move h True) # A @ B @ protected_list c"]) simp_all
  then have ok1: "cache_ok c1"
    using assms(1) use by (simp add: cache_ok_def c1_def P sz_def moved_node [of _ _ _ it])
  have "lru_lookup c1 \<subseteq>\<^sub>m lru_lookup c" "lru_lookup c \<subseteq>\<^sub>m lru_lookup c1"
    by (rule lru_lookup_mono [OF ok1 assms(1)], force simp: c1_def P moved_node [of _ _ _ it])
      (rule lru_lookup_mono [OF assms(1) ok1], force simp: c1_def P moved_node [of _ _ _ it])
  then have "moved c c1"
    using ok1 cold use by (simp add: moved_def c1_def)
  with code show ?thesis by (rule that)
qed

lemma get_cold_ok:
  assumes "cache_ok c" and "below_limits c" and "limits_fit c"
    and "(it, h) \<in> set (probation_list c)" and "ch_key h = Some (key, g)" and "cache_map c key = Some (g, it)"
  shows "\<exists>c'. get_cold key it h c = Inr c' \<and> cache_ok c' \<and> below_limits c' \<and> limits_fit c' \<and> same_limits c c' \<and>
    lru_lookup c' \<subseteq>\<^sub>m lru_lookup c"
proof -
  obtain c1 where c1: "get_cold key it h c = rbind (demote_counted c1) evict_probation" "moved c c1"
    using get_cold_promotes [OF assms(1) below_limits_sum [OF assms(2,3)] assms(4-6)] .
  moreover obtain c2 where c2: "demote_counted c1 = Inr c2" "moved c1 c2"
    "protected_memory_usage c2 < max_protected_mem_size c1"
    using demote_counted_ok [of c1] c1(2) below_limits_sum [OF assms(2,3)] below_limits_pos [OF assms(2)]
    by (auto simp: moved_def)
  moreover obtain c3 where c3: "evict_probation c2 = Inr c3" "evicted c2 c3"
    "probation_memory_usage c3 < max_probation_mem_size c2"
    using evict_probation_ok [of c2] c1(2) c2(2) below_limits_pos [OF assms(2)] by (auto simp: moved_def)
  moreover have "lru_lookup c3 \<subseteq>\<^sub>m lru_lookup c"
    using moved_trans [OF c1(2) c2(2)] c3(2) map_le_trans by (auto simp: moved_def evicted_def)
  ultimately show ?thesis
    using assms(3) by (simp add: moved_def evicted_def below_limits_def limits_fit_def same_limits_def)
qed

lemma demote_uncounted_noop:
  "protected_memory_usage c < max_protected_mem_size c \<Longrightarrow> demote_uncounted c = Inr c"
  by (subst demote_uncounted.simps) (simp add: not_le [symmetric] del: not_le)

lemma get_hot_ok:
  assumes "below_limits c" and "ch_key h = Some (key, g)" and "cache_map c key = Some (g, it)"
  shows "\<exists>c'. get_hot key it h c = Inr c'"
  using assms
  by (simp add: get_hot_def key_addr_def push_protected_def map_assign_def deref_key_def CacheHandle_move_def
      Let_def demote_uncounted_noop below_limits_def)

lemma lru_get_ok:
  assumes "cache_ok c" and "below_limits c" and "limits_fit c"
  shows "\<exists>c'. lru_get key val e c = Inr (case lru_lookup c key of
      None \<Rightarrow> (False, val, e, c')
    | Some (ex, v) \<Rightarrow> (True, if ex then v else val, \<not> ex, c')) \<and>
    (key \<notin> kname ` set (protected_list c) \<longrightarrow>
      cache_ok c' \<and> below_limits c' \<and> limits_fit c' \<and> same_limits c c' \<and> lru_lookup c' \<subseteq>\<^sub>m lru_lookup c)"
proof (cases "cache_map c key")
  case None
  then show ?thesis
    using assms by (simp add: lru_get_def lru_lookup_def same_limits_def)
next
  case (Some p)
  then obtain g it where p: "cache_map c key = Some (g, it)" by (cases p) auto
  obtain h where h: "(it, h) \<in> set (probation_list c @ protected_list c)" "ch_key h = Some (key, g)"
    "deref_iter c it = Inr h" "lru_lookup c key = Some (isExist h, ch_value h)"
    using assms(1) p by (rule lru_entry)
  show ?thesis
  proof (cases "isHot h")
    case False
    then have "(it, h) \<in> set (probation_list c)"
      using h(1) assms(1) by (auto simp: cache_ok_def)
    from get_cold_ok [OF assms this h(2) p] show ?thesis
      using h(3,4) p False by (auto simp: lru_get_def)
  next
    case True
    then have "(it, h) \<in> set (protected_list c)"
      using h(1) assms(1) by (auto simp: cache_ok_def)
    then have "key \<in> kname ` set (protected_list c)"
      using h(2) by (auto simp: image_iff kname_def intro!: bexI [of _ "(it, h)"])
    then show ?thesis
      using get_hot_ok [OF assms(2) h(2) p] h(3,4) p True by (auto simp: lru_get_def)
  qed
qed

section \<open>Safe use\<close>

text \<open>
  The states reached when a record is set only for a key the cache does not hold and no
  record is read again while it is hot.
\<close>

inductive lru_reach :: "u32 \<Rightarrow> u32 \<Rightarrow> kLRUCache \<Rightarrow> bool" for cold hot where
  reach_ctor: "0 < cold \<Longrightarrow> 0 < hot \<Longrightarrow> unat cold + unat hot \<le> 2 ^ 32 \<Longrightarrow>
    lru_reach cold hot (kLRUCache_ctor cold hot)"
| reach_set: "lru_reach cold hot c \<Longrightarrow> cache_map c key = None \<Longrightarrow>
    unat cold + length key + length val \<le> 2 ^ 32 \<Longrightarrow> lru_set key val c = Inr c' \<Longrightarrow> lru_reach cold hot c'"
| reach_erase: "lru_reach cold hot c \<Longrightarrow> cache_map c key = None \<Longrightarrow>
    unat cold + length key \<le> 2 ^ 32 \<Longrightarrow> setEraseRecord key c = Inr c' \<Longrightarrow> lru_reach cold hot c'"
| reach_get: "lru_reach cold hot c \<Longrightarrow> key \<notin> kname ` set (protected_list c) \<Longrightarrow>
    lru_get key val e c = Inr (b, val', e', c') \<Longrightarrow> lru_reach cold hot c'"

lemmas lru_eval = lru_set_def kLRUCache_ctor_def CacheHandle_value_def push_probation_def map_assign_def
  set_front_key_def key_addr_def Let_def evict_probation.simps deref_key_def lru_get_def deref_iter_def
  get_cold_def get_hot_def demote_counted.simps demote_uncounted.simps push_protected_def CacheHandle_move_def
  update_node_def

lemma lru_reach_ok:
  assumes "lru_reach cold hot c"
  shows "cache_ok c \<and> below_limits c \<and> limits_fit c \<and> max_probation_mem_size c = cold \<and>
    max_protected_mem_size c = hot"
  using assms
proof (induction rule: lru_reach.induct)
  case reach_ctor
  then show ?case
    by (simp add: kLRUCache_ctor_def cache_ok_def nodes_ok_def below_limits_def limits_fit_def)
next
  case (reach_set c key val c')
  then show ?case using lru_set_fresh [of c key val] by (fastforce simp: same_limits_def)
next
  case (reach_erase c key c')
  then show ?case using setEraseRecord_fresh [of c key] by (fastforce simp: same_limits_def)
next
  case (reach_get c key val e b val' e' c')
  then show ?case using lru_get_ok [of c key val e]
    by (fastforce simp: same_limits_def split: option.splits)
qed

section \<open>Properties\<close>

text \<open>Property C17. As long as records are set only for keys the cache does not hold and no record
  is read again while it is hot, the cache is right: both segments stay below their limits,
  a get never fails and answers what is held (a miss leaves both out-parameters), and setting
  a new record never fails, keeps the hot segment, pops the oldest cold records only and
  answers nothing but the new record and what was held.\<close>

theorem lru_safe_use:
  assumes "lru_reach cold hot c"
  shows "probation_memory_usage c < cold \<and> protected_memory_usage c < hot \<and>
    (\<forall>key val e. \<exists>c'. lru_get key val e c = Inr (case lru_lookup c key of
        None \<Rightarrow> (False, val, e, c')
      | Some (ex, v) \<Rightarrow> (True, if ex then v else val, \<not> ex, c'))) \<and>
    (\<forall>key val. cache_map c key = None \<and> unat cold + length key + length val \<le> 2 ^ 32 \<longrightarrow>
      (\<exists>c'. lru_set key val c = Inr c' \<and> lru_reach cold hot c' \<and> protected_list c' = protected_list c \<and>
        lru_lookup c' \<subseteq>\<^sub>m (lru_lookup c)(key \<mapsto> (True, val)) \<and>
        (\<exists>j. map kname (probation_list c') = take j (key # map kname (probation_list c)))))"
proof (intro conjI allI impI)
  note ok = lru_reach_ok [OF assms]
  show "probation_memory_usage c < cold" "protected_memory_usage c < hot"
    using ok by (auto simp: below_limits_def)
  show "\<exists>c'. lru_get key val e c = Inr (case lru_lookup c key of None \<Rightarrow> (False, val, e, c')
      | Some (ex, v) \<Rightarrow> (True, if ex then v else val, \<not> ex, c'))" for key val e
    using lru_get_ok [of c key val e] ok by blast
  fix key val :: bytes
  assume new: "cache_map c key = None \<and> unat cold + length key + length val \<le> 2 ^ 32"
  from lru_set_fresh [of c key val] ok new obtain c' where c': "lru_set key val c = Inr c'"
    "lru_lookup c' \<subseteq>\<^sub>m (lru_lookup c)(key \<mapsto> (True, val))"
    "\<exists>j. map kname (probation_list c') = take j (key # map kname (probation_list c))"
    "protected_list c' = protected_list c"
    by auto
  then show "\<exists>c'. lru_set key val c = Inr c' \<and> lru_reach cold hot c' \<and> protected_list c' = protected_list c \<and>
      lru_lookup c' \<subseteq>\<^sub>m (lru_lookup c)(key \<mapsto> (True, val)) \<and>
      (\<exists>j. map kname (probation_list c') = take j (key # map kname (probation_list c)))"
    using reach_set [OF assms] new by blast
qed

theorem lru_safe_use_witness:
  "\<exists>c. lru_set [97] [1, 2, 3] (kLRUCache_ctor 10 10) = Inr c \<and>
    (\<exists>c'. lru_get [97] [] True c = Inr (True, [1, 2, 3], False, c'))"
proof -
  have start: "lru_reach 10 10 (kLRUCache_ctor 10 10)"
    by (rule reach_ctor) simp_all
  have "\<exists>c. lru_set [97] [1, 2, 3] (kLRUCache_ctor 10 10) = Inr c \<and> lru_lookup c [97] = Some (True, [1, 2, 3])"
    by (simp add: lru_eval lru_lookup_def)
  then obtain c where c: "lru_set [97] [1, 2, 3] (kLRUCache_ctor 10 10) = Inr c"
    "lru_lookup c [97] = Some (True, [1, 2, 3])"
    by blast
  have "lru_reach 10 10 c"
    by (rule reach_set [OF start _ _ c(1)]) (simp_all add: kLRUCache_ctor_def)
  then have "\<exists>c'. lru_get [97] [] True c = Inr (case lru_lookup c [97] of None \<Rightarrow> (False, [], True, c')
      | Some (ex, v) \<Rightarrow> (True, if ex then v else [], \<not> ex, c'))"
    using lru_safe_use by blast
  then show ?thesis using c by simp
qed

text \<open>Outside that use the cache breaks. Setting a key again leaves its old node in the
  cold list; popping that node erases the map entry of the new one, so the newest record is
  lost, and the next pop follows the dangling key pointer. Reading a hot record twice leaves
  an emptied copy behind, which later replaces the record: a get answers an empty value.\<close>

lemma lru_stale_nodes:
  "(\<exists>c. rbind (lru_set [97] [1, 2, 3] (kLRUCache_ctor 10 10)) (\<lambda>c.
      rbind (lru_set [97] [4, 5, 6] c) (lru_set [98] [7, 8, 9])) = Inr c \<and>
    map (ch_value \<circ> snd) (probation_list c) = [[7, 8, 9], [4, 5, 6]] \<and>
    lru_get [97] [] False c = Inr (False, [], False, c) \<and>
    lru_set [99] [0, 0, 0] c = Inl UseAfterFree) \<and>
  (\<exists>c c'. rbind (lru_set [97] [1, 2, 3] (kLRUCache_ctor 10 8)) (\<lambda>c.
      rbind (lru_get [97] [] False c) (\<lambda>(_, _, _, c).
      rbind (lru_get [97] [] False c) (\<lambda>(_, _, _, c).
      rbind (lru_set [98] [4, 5, 6] c) (\<lambda>c.
      rbind (lru_get [98] [] False c) (\<lambda>(_, _, _, c). Inr c))))) = Inr c \<and>
    lru_get [97] [9] False c = Inr (True, [], False, c'))"
  by (rule conjI; simp add: lru_eval; simp add: word_le_nat_alt)

end
