(* ===== verification/Shared_Memtable.thy ===== *)
theory Shared_Memtable
  imports Compactor Klru_Cache
begin

text \<open>
  The workers in front of the memtables: \<open>src/db/shared_memtable.hpp\<close> and
  \<open>src/db/shared_memtable.cpp\<close>. A worker is run one round at a time: a round swaps the task
  queues, handles every task, drops flushed tables and replaces a full memtable. The view
  manager and the compactor are shared, so a round passes them through. A context is a
  shared object: what happens to it is recorded as events, a callback with the state of the
  context at the time of the call, and the final state of a get. Log calls are left out
  except for their arguments that can fail.
\<close>

section \<open>Data\<close>

datatype Memtask =
    SetTask SetContext
  | GetTask GetContext
  | DeleteTask DeleteContext
  | SnapShotTask SnapShot

datatype db_event =
    GetCallback GetContext
  | GetDone GetContext
  | DelCallback DeleteContext

record 't TaskWorker =
  remove_N :: u64
  preRemove_N :: u64
  tw_memtable :: "'t Memtable"
  handle_vec :: "Memtask list"
  bg_handle_vec :: "Memtask list"
  tw_isRunning :: bool
  maxMemTableSize :: u32
  tw_compactor :: bool
  tw_memview :: bool
  readonly_memtable_vec :: "'t Memtable list"
  klrucache :: kLRUCache

record 't SharedMemtable =
  singleMemTableSize :: u32
  sh_memtable_N :: u32
  taskworkers :: "'t TaskWorker list"
  comp_actor :: bool

section \<open>The task worker\<close>

definition addTask :: "Memtask \<Rightarrow> 't TaskWorker \<Rightarrow> 't TaskWorker" where
  "addTask hand w = w\<lparr>bg_handle_vec := bg_handle_vec w @ [hand]\<rparr>"

definition getWorkerBusyN :: "'t TaskWorker \<Rightarrow> u32" where
  "getWorkerBusyN w = of_nat (length (handle_vec w) + length (bg_handle_vec w))"

definition TaskWorker_Stop :: "'t TaskWorker \<Rightarrow> 't TaskWorker" where
  "TaskWorker_Stop w = w\<lparr>tw_isRunning := False\<rparr>"

definition found :: "GetContext \<Rightarrow> bool" where
  "found g \<longleftrightarrow> getCode (get_code g) = kOk \<or> getCode (get_code g) = kDelete"

definition callback :: "GetContext \<Rightarrow> db_event list" where
  "callback g = (if get_callback g then [GetCallback g] else [])"

text \<open>The read-only tables, newest first, until one answers.\<close>

fun readonly_get ::
  "'t btree_api \<Rightarrow> hashers \<Rightarrow> 't Memtable list \<Rightarrow> GetContext \<Rightarrow> (GetContext \<times> db_event list) res" where
  "readonly_get B H [] g = Inr (g, [])"
| "readonly_get B H (t # ts) g =
     rbind (Memtable_Get B H g t) (\<lambda>g.
       if found g then Inr (g, callback g) else readonly_get B H ts g)"

definition handle_get ::
  "'t btree_api \<Rightarrow> hashers \<Rightarrow> GetContext \<Rightarrow> 't TaskWorker \<Rightarrow> 't MemTableViewManager \<Rightarrow>
   ('t TaskWorker \<times> 't MemTableViewManager \<times> db_event list) res" where
  "handle_get B H g w mgr =
     rbind (Memtable_Get B H g (tw_memtable w)) (\<lambda>g.
     let ev1 = (if found g then callback g else []) in
     rbind (lru_get (get_key g) (get_value g) False (klrucache w)) (\<lambda>(ue, value, isErase, lru).
     let g = g\<lparr>get_value := value\<rparr>;
         g = (if ue then g\<lparr>get_code := setCode (if isErase then kDelete else kOk) (get_code g)\<rparr> else g);
         ev2 = (if ue then callback g else []) in
     rbind (if getCode (get_code g) = kNotFound then readonly_get B H (rev (readonly_memtable_vec w)) g
            else Inr (g, [])) (\<lambda>(g, ev3).
     rbind (if getCode (get_code g) = kNotFound then
              if \<not> tw_memview w then Inl NullDeref
              else rbind (getRequest B H (getMemNumber (tw_memtable w)) g mgr) (\<lambda>(g, mgr). Inr (g, mgr, callback g))
            else Inr (g, mgr, [])) (\<lambda>(g, mgr, ev4).
     rbind (if getCode (get_code g) = kNotFound \<or> getCode (get_code g) = kDelete
            then setEraseRecord (get_key g) lru
            else if getCode (get_code g) = kOk then lru_set (get_key g) (get_value g) lru
            else Inr lru) (\<lambda>lru.
       Inr (w\<lparr>klrucache := lru\<rparr>, mgr, ev1 @ ev2 @ ev3 @ ev4 @ [GetDone g]))))))"

fun handle_task ::
  "'t btree_api \<Rightarrow> hashers \<Rightarrow> Memtask \<Rightarrow> 't TaskWorker \<Rightarrow> 't MemTableViewManager \<Rightarrow>
   ('t TaskWorker \<times> 't MemTableViewManager \<times> db_event list) res" where
  "handle_task B H (SetTask c) w mgr =
     rbind (Memtable_Set B H c (tw_memtable w)) (\<lambda>mt. Inr (w\<lparr>tw_memtable := mt\<rparr>, mgr, []))"
| "handle_task B H (GetTask g) w mgr = handle_get B H g w mgr"
| "handle_task B H (DeleteTask d) w mgr =
     rbind (Memtable_Delete B H d (tw_memtable w)) (\<lambda>mt.
       Inr (w\<lparr>tw_memtable := mt\<rparr>, mgr, if del_callback d then [DelCallback d] else []))"
| "handle_task B H (SnapShotTask s) w mgr = Inr (w, mgr, [])"

fun handle_tasks ::
  "'t btree_api \<Rightarrow> hashers \<Rightarrow> Memtask list \<Rightarrow> 't TaskWorker \<Rightarrow> 't MemTableViewManager \<Rightarrow>
   ('t TaskWorker \<times> 't MemTableViewManager \<times> db_event list) res" where
  "handle_tasks B H [] w mgr = Inr (w, mgr, [])"
| "handle_tasks B H (t # ts) w mgr =
     rbind (handle_task B H t w mgr) (\<lambda>(w, mgr, ev).
     rbind (handle_tasks B H ts w mgr) (\<lambda>(w, mgr, ev'). Inr (w, mgr, ev @ ev')))"

text \<open>\<open>erase(begin())\<close>, \<open>n\<close> times.\<close>

fun erase_begin :: "nat \<Rightarrow> 'a list \<Rightarrow> 'a list res" where
  "erase_begin 0 xs = Inr xs"
| "erase_begin (Suc n) [] = Inl OutOfBounds"
| "erase_begin (Suc n) (x # xs) = erase_begin n xs"

definition drop_flushed :: "'t TaskWorker \<Rightarrow> 't TaskWorker res" where
  "drop_flushed w =
     (if remove_N w > preRemove_N w then
        rbind (erase_begin (unat (remove_N w - preRemove_N w)) (readonly_memtable_vec w)) (\<lambda>ts.
          Inr (w\<lparr>readonly_memtable_vec := ts, preRemove_N := remove_N w\<rparr>))
      else Inr w)"

text \<open>
  A full memtable is queued for the compactor, kept for reading and replaced. \<open>uses\<close> is the number of references found
  by the assertion: three, unless the compactor's thread has copied or dropped its own by then.
\<close>

definition rotate_memtable ::
  "'t btree_api \<Rightarrow> u64 \<Rightarrow> nat \<Rightarrow> 't TaskWorker \<Rightarrow> 't Compactor \<Rightarrow> ('t TaskWorker \<times> 't Compactor) res" where
  "rotate_memtable B garbage uses w cact =
     (if getMemSize (tw_memtable w) \<ge> maxMemTableSize w then
        let mt = setReadOnly (tw_memtable w);
            origin_memtable_number = getMemNumber mt;
            origin_compaction_n = getCompactionN mt in
        rbind (guard (tw_compactor w) AssertFail) (\<lambda>_.
        rbind (AddReadOnlyTable mt cact) (\<lambda>cact.
        rbind (guard (uses = 3) AssertFail) (\<lambda>_.
          let fresh = setCompactionN (origin_compaction_n + 1)
                (setNumber origin_memtable_number (Memtable_ctor B garbage)) in
          Inr (w\<lparr>readonly_memtable_vec := readonly_memtable_vec w @ [mt], tw_memtable := fresh\<rparr>, cact))))
      else Inr (w, cact))"

definition TaskWorker_round ::
  "'t btree_api \<Rightarrow> hashers \<Rightarrow> u64 \<Rightarrow> nat \<Rightarrow> 't TaskWorker \<Rightarrow> 't MemTableViewManager \<Rightarrow> 't Compactor \<Rightarrow>
   ('t TaskWorker \<times> 't MemTableViewManager \<times> 't Compactor \<times> db_event list) res" where
  "TaskWorker_round B H garbage uses w mgr cact =
     (let w = w\<lparr>handle_vec := bg_handle_vec w, bg_handle_vec := handle_vec w\<rparr> in
      rbind (handle_tasks B H (handle_vec w) w mgr) (\<lambda>(w, mgr, ev).
      rbind (if \<not> tw_memview w then Inl NullDeref
             else getMemViewVecSize (getMemNumber (tw_memtable w)) mgr) (\<lambda>_.
      rbind (drop_flushed w) (\<lambda>w.
      rbind (rotate_memtable B garbage uses (w\<lparr>handle_vec := []\<rparr>) cact) (\<lambda>(w, cact).
        Inr (w, mgr, cact, ev))))))"

section \<open>The shared memtable\<close>

text \<open>
  The members a worker's constructor does not set are those of \<open>garbage\<close>; its cache is
  default-constructed, so its usage counters are those of \<open>garbage\<close> too.
\<close>

definition TaskWorker_make :: "'t btree_api \<Rightarrow> 't TaskWorker \<Rightarrow> DBConfig \<Rightarrow> bool \<Rightarrow> nat \<Rightarrow> 't TaskWorker" where
  "TaskWorker_make B garbage dbconfig cact i =
     garbage\<lparr>remove_N := 0, preRemove_N := 0,
             tw_memtable := setNumber (of_nat i) (Memtable_ctor B (memtable_number (tw_memtable garbage))),
             handle_vec := [], bg_handle_vec := [], tw_isRunning := False,
             maxMemTableSize := memtable_trigger_size dbconfig, tw_compactor := cact, tw_memview := False,
             readonly_memtable_vec := [],
             klrucache := kLRUCache_Init (lru_cache_size dbconfig div 5) ((lru_cache_size dbconfig div 5) * 4)
               (kLRUCache_default (max_probation_mem_size (klrucache garbage))
                 (max_protected_mem_size (klrucache garbage))
                 (probation_memory_usage (klrucache garbage))
                 (protected_memory_usage (klrucache garbage)))\<rparr>"

definition SharedMemtable_Init ::
  "'t btree_api \<Rightarrow> 't TaskWorker \<Rightarrow> DBConfig \<Rightarrow> 't SharedMemtable \<Rightarrow> 't SharedMemtable res" where
  "SharedMemtable_Init B garbage dbconfig s =
     rbind (guard (memtable_N dbconfig \<noteq> 0) AssertFail) (\<lambda>_.
       Inr (s\<lparr>sh_memtable_N := memtable_N dbconfig, singleMemTableSize := memtable_trigger_size dbconfig,
              taskworkers := map (TaskWorker_make B garbage dbconfig (comp_actor s))
                [0..<unat (memtable_N dbconfig)]\<rparr>))"

definition SharedMemtable_Run :: "'t SharedMemtable \<Rightarrow> 't SharedMemtable res" where
  "SharedMemtable_Run s =
     rbind (guard (sh_memtable_N s > 0) AssertFail) (\<lambda>_.
     rbind (guard (taskworkers s \<noteq> []) AssertFail) (\<lambda>_.
       Inr (s\<lparr>taskworkers := map (\<lambda>w. w\<lparr>tw_isRunning := True\<rparr>) (taskworkers s)\<rparr>)))"

text \<open>\<open>stdHash_(key) % memtable_N_\<close>; dividing by zero is not a value.\<close>

definition shard :: "hashers \<Rightarrow> bytes \<Rightarrow> 't SharedMemtable \<Rightarrow> nat res" where
  "shard H key s =
     (if sh_memtable_N s = 0 then Inl OutOfBounds
      else Inr (unat (std_hash H key) mod unat (sh_memtable_N s)))"

definition add_to :: "nat \<Rightarrow> Memtask \<Rightarrow> 't SharedMemtable \<Rightarrow> 't SharedMemtable res" where
  "add_to idx task s =
     rbind (rd (taskworkers s) idx) (\<lambda>w. Inr (s\<lparr>taskworkers := (taskworkers s)[idx := addTask task w]\<rparr>))"

definition SharedMemtable_Set :: "hashers \<Rightarrow> SetContext \<Rightarrow> 't SharedMemtable \<Rightarrow> 't SharedMemtable res" where
  "SharedMemtable_Set H c s = rbind (shard H (set_key c) s) (\<lambda>idx. add_to idx (SetTask c) s)"

definition SharedMemtable_Get :: "hashers \<Rightarrow> GetContext \<Rightarrow> 't SharedMemtable \<Rightarrow> 't SharedMemtable res" where
  "SharedMemtable_Get H g s = rbind (shard H (get_key g) s) (\<lambda>idx. add_to idx (GetTask g) s)"

definition SharedMemtable_Delete :: "hashers \<Rightarrow> DeleteContext \<Rightarrow> 't SharedMemtable \<Rightarrow> 't SharedMemtable res" where
  "SharedMemtable_Delete H d s = rbind (shard H (del_key d) s) (\<lambda>idx. add_to idx (DeleteTask d) s)"

definition SharedMemtable_SnapShot :: "SnapShot \<Rightarrow> 't SharedMemtable \<Rightarrow> 't SharedMemtable" where
  "SharedMemtable_SnapShot sn s = s\<lparr>taskworkers := map (addTask (SnapShotTask sn)) (taskworkers s)\<rparr>"

definition SharedMemtable_dtor :: "'t SharedMemtable \<Rightarrow> 't SharedMemtable" where
  "SharedMemtable_dtor s = s\<lparr>taskworkers := map TaskWorker_Stop (taskworkers s)\<rparr>"

definition sh_SetCompactorRef :: "bool \<Rightarrow> 't SharedMemtable \<Rightarrow> 't SharedMemtable" where
  "sh_SetCompactorRef compactor s =
     s\<lparr>comp_actor := compactor, taskworkers := map (\<lambda>w. w\<lparr>tw_compactor := compactor\<rparr>) (taskworkers s)\<rparr>"

definition SetMemTableViewRef :: "bool \<Rightarrow> 't SharedMemtable \<Rightarrow> 't SharedMemtable res" where
  "SetMemTableViewRef manager s =
     rbind (guard manager AssertFail) (\<lambda>_.
       Inr (s\<lparr>taskworkers := map (\<lambda>w. w\<lparr>tw_memview := manager\<rparr>) (taskworkers s)\<rparr>))"

definition getMemTaskWorkerLevel :: "u32 \<Rightarrow> 't SharedMemtable \<Rightarrow> u32 res" where
  "getMemTaskWorkerLevel n s =
     rbind (rd (taskworkers s) (unat n)) (\<lambda>w. Inr (getCompactionN (tw_memtable w)))"

definition getMemTaskWorkerNumber :: "u32 \<Rightarrow> 't SharedMemtable \<Rightarrow> u32 res" where
  "getMemTaskWorkerNumber n s =
     rbind (rd (taskworkers s) (unat n)) (\<lambda>w. Inr (getMemNumber (tw_memtable w)))"

definition PushRemoveReadonlyMemtableContext :: "u32 \<Rightarrow> 't SharedMemtable \<Rightarrow> 't SharedMemtable res" where
  "PushRemoveReadonlyMemtableContext n s =
     rbind (rd (taskworkers s) (unat n)) (\<lambda>w.
       Inr (s\<lparr>taskworkers := (taskworkers s)[unat n := w\<lparr>remove_N := remove_N w + 1\<rparr>]\<rparr>))"

section \<open>Lemmas\<close>

text \<open>An erase record put into an empty cache answers every later get of its key.\<close>

lemma erase_record_hit:
  assumes "length k < unat cold" and "length k < unat hot"
  shows "\<exists>c1 c2 c3. setEraseRecord k (kLRUCache_ctor cold hot) = Inr c1 \<and>
    lru_get k v e c1 = Inr (True, v, True, c2) \<and> setEraseRecord k c2 = Inr c3"
proof -
  have lt: "(of_nat (length k) :: u32) < cold" "(of_nat (length k) :: u32) < hot"
    using assms unat_u32_less [of cold] unat_u32_less [of hot]
    by (simp_all add: word_less_nat_alt unat_of_nat)
  then have pos: "0 < cold" "0 < hot" by (simp_all add: word_less_nat_alt)
  have evict: "evict_probation c = Inr c" if "probation_memory_usage c < max_probation_mem_size c" for c
    using that by (subst evict_probation.simps) (simp add: not_le [symmetric] del: not_le)
  have demote: "demote_counted c = Inr c" if "protected_memory_usage c < max_protected_mem_size c" for c
    using that by (subst demote_counted.simps) (simp add: not_le [symmetric] del: not_le)
  show ?thesis
    using lt pos
    by (simp add: setEraseRecord_def kLRUCache_ctor_def push_probation_def map_assign_def set_front_key_def
        key_addr_def Let_def evict demote lru_get_def deref_iter_def get_cold_def push_protected_def
        CacheHandle_move_def deref_key_def)
qed

lemma getRequest_no_views:
  assumes "unat number < length (mem_all_vec mgr)" and "mem_all_vec mgr ! unat number = vv"
    and "\<not> vv_mtx vv" and "memtable_vec vv = []"
  shows "getRequest B H number g mgr = Inr (g, mgr)"
  using assms by (simp add: getRequest_def vv_lock_def vv_unlock_def set_vec_def list_update_same_conv)

lemma ucast_u32_u64 [simp]: "ucast (ucast (v :: u32) :: u64) = v"
  by (rule bit_word_eqI) (simp add: bit_simps)

text \<open>Rotation keeps every table readable and passes number and level on.\<close>

lemma rotate_memtable_full:
  assumes "getMemSize (tw_memtable w) \<ge> maxMemTableSize w" and "tw_compactor w"
    and "AddReadOnlyTable (setReadOnly (tw_memtable w)) cact = Inr cact'"
  shows "\<exists>w'. rotate_memtable B garbage 3 w cact = Inr (w', cact') \<and>
    readonly_memtable_vec w' = readonly_memtable_vec w @ [setReadOnly (tw_memtable w)] \<and>
    getMemNumber (tw_memtable w') = getMemNumber (tw_memtable w) \<and>
    getCompactionN (tw_memtable w') = getCompactionN (tw_memtable w) + 1 \<and>
    memMap (tw_memtable w') = bt_empty B \<and> getMemSize (tw_memtable w') = 0"
  using assms
  by (simp add: rotate_memtable_def Let_def setReadOnly_def getMemNumber_def getCompactionN_def setCompactionN_def
      setNumber_def Memtable_ctor_def getMemSize_def)

lemma erase_begin_drop: "erase_begin n xs = (if n \<le> length xs then Inr (drop n xs) else Inl OutOfBounds)"
  by (induction n xs rule: erase_begin.induct) auto

section \<open>Properties\<close>

text \<open>Property C31. A worker that missed a key once reports it as deleted from then on. In a fresh worker, without read-only
  tables and views, for a key that fits into both segments of the cache and a set whose number takes as many bytes as
  the length of its value: a get that finds nothing caches an erase record, the following set goes to the memtable only, and the
  next get finds the new value, calls back with it, then consults the cache, calls back a
  second time and ends with \<open>kDelete\<close>.\<close>

theorem miss_then_set_reports_deleted:
  assumes "btree_set B" and "aligned c" and "get_key g = set_key c" and "tw_memview w"
    and "tw_memtable w = Memtable_ctor B n" and "klrucache w = kLRUCache_ctor cold hot"
    and "readonly_memtable_vec w = []"
    and "unat (getMemNumber (tw_memtable w)) < length (mem_all_vec mgr)"
    and "mem_all_vec mgr ! unat (getMemNumber (tw_memtable w)) = \<lparr>memtable_vec = [], vv_mtx = False, isCompaction = b\<rparr>"
    and "length (set_key c) < unat cold" and "length (set_key c) < unat hot"
  defines "none \<equiv> g\<lparr>get_code := setCode kNotFound (get_code g)\<rparr>"
    and "ok \<equiv> g\<lparr>get_value := set_value c, get_code := setCode kOk (get_code g)\<rparr>"
    and "deleted \<equiv> g\<lparr>get_value := set_value c, get_code := setCode kDelete (get_code g)\<rparr>"
  shows "\<exists>w'. handle_tasks B H [GetTask g, SetTask c, GetTask g] w mgr = Inr (w', mgr,
    callback none @ [GetDone none] @ callback ok @ callback deleted @ [GetDone deleted])"
proof -
  have short: "short (get_key g)" using assms(2,3) by (simp add: aligned_def)
  note ctor = btree_set.mt_ok_ctor [OF assms(1), of H n]
  have get1: "Memtable_Get B H g (Memtable_ctor B n) = Inr none"
    using btree_set.Memtable_Get_entry_of [OF assms(1) conjunct1 [OF ctor] short] ctor by (simp add: none_def)
  obtain mt where mt: "Memtable_Set B H c (Memtable_ctor B n) = Inr mt" "btree_set.mt_ok B H mt"
    "btree_set.entry_of B mt (set_key c) = Some (stored_rec c)"
    using btree_set.Memtable_Sets_first [OF assms(1), of "[c]" H n] aligned_storable(1) [OF assms(2)]
    by (auto simp: rbind_eq_Inr_iff)
  have get2: "Memtable_Get B H g mt = Inr ok"
    using btree_set.Get_first [OF assms(1) mt(2) short, of "[c]" c] aligned_storable [OF assms(2)] mt(3) assms(3)
    by (simp add: ok_def)
  obtain c1 c2 c3 where lru: "setEraseRecord (set_key c) (kLRUCache_ctor cold hot) = Inr c1"
    "lru_get (set_key c) (set_value c) False c1 = Inr (True, set_value c, True, c2)"
    "setEraseRecord (set_key c) c2 = Inr c3"
    using erase_record_hit [OF assms(10,11)] by blast
  have miss: "lru_get k v e (kLRUCache_ctor cold hot) = Inr (False, v, e, kLRUCache_ctor cold hot)" for k v e
    by (simp add: lru_get_def kLRUCache_ctor_def)
  have views: "getRequest B H (getMemNumber (Memtable_ctor B n)) x mgr = Inr (x, mgr)" for x
    using getRequest_no_views [OF assms(8,9)] assms(5) by simp
  have 1: "handle_get B H g w mgr = Inr (w\<lparr>klrucache := c1\<rparr>, mgr, callback none @ [GetDone none])"
    using assms(3-7) get1 lru(1) by (simp add: handle_get_def miss views none_def found_def Let_def)
  have "handle_get B H g (w\<lparr>klrucache := c1, tw_memtable := mt\<rparr>) mgr =
      Inr (w\<lparr>klrucache := c3, tw_memtable := mt\<rparr>, mgr, callback ok @ callback deleted @ [GetDone deleted])"
    using assms(3) get2 lru(2,3) by (simp add: handle_get_def ok_def deleted_def found_def Let_def)
  then show ?thesis
    using 1 mt(1) assms(5) by simp
qed

theorem miss_then_set_reports_deleted_witness:
  "\<exists>w' g. handle_tasks sorted_list_set example_hashers
      [GetTask (GetContext_ctor 0 [97]), SetTask (example_set [97] [1]), GetTask (GetContext_ctor 0 [97])]
      \<lparr>remove_N = 0, preRemove_N = 0, tw_memtable = Memtable_ctor sorted_list_set 0, handle_vec = [],
       bg_handle_vec = [], tw_isRunning = True, maxMemTableSize = 100, tw_compactor = True, tw_memview = True,
       readonly_memtable_vec = [], klrucache = kLRUCache_ctor 10 40\<rparr>
      (MemTableViewManager_Init 1 \<lparr>mgr_memtable_n = 0, mem_all_vec = []\<rparr>) =
    Inr (w', MemTableViewManager_Init 1 \<lparr>mgr_memtable_n = 0, mem_all_vec = []\<rparr>,
      [GetDone ((GetContext_ctor 0 [97])\<lparr>get_code := setCode kNotFound Status_ctor\<rparr>), GetDone g]) \<and>
    getCode (get_code g) = kDelete \<and> get_value g = [1]"
proof -
  let ?w = "\<lparr>remove_N = 0, preRemove_N = 0, tw_memtable = Memtable_ctor sorted_list_set 0, handle_vec = [],
    bg_handle_vec = [], tw_isRunning = True, maxMemTableSize = 100, tw_compactor = True, tw_memview = True,
    readonly_memtable_vec = [], klrucache = kLRUCache_ctor 10 40\<rparr>"
  let ?mgr = "MemTableViewManager_Init 1 \<lparr>mgr_memtable_n = 0, mem_all_vec = []\<rparr>"
  have a: "aligned (example_set [97] [1])" by (rule example_aligned) simp_all
  have h: "get_key (GetContext_ctor 0 [97]) = set_key (example_set [97] [1])" "tw_memview ?w"
    "tw_memtable ?w = Memtable_ctor sorted_list_set 0" "klrucache ?w = kLRUCache_ctor 10 40"
    "readonly_memtable_vec ?w = []"
    "unat (getMemNumber (tw_memtable ?w)) < length (mem_all_vec ?mgr)"
    "mem_all_vec ?mgr ! unat (getMemNumber (tw_memtable ?w)) = \<lparr>memtable_vec = [], vv_mtx = False, isCompaction = False\<rparr>"
    "length (set_key (example_set [97] [1])) < unat (10 :: u32)"
    "length (set_key (example_set [97] [1])) < unat (40 :: u32)"
    by (simp_all add: example_set_def GetContext_ctor_def MemTableViewManager_Init_def getMemNumber_def
        Memtable_ctor_def)
  let ?g = "(GetContext_ctor 0 [97])\<lparr>get_value := [1], get_code := setCode kDelete Status_ctor\<rparr>"
  obtain w' where "handle_tasks sorted_list_set example_hashers
      [GetTask (GetContext_ctor 0 [97]), SetTask (example_set [97] [1]), GetTask (GetContext_ctor 0 [97])] ?w ?mgr =
    Inr (w', ?mgr, [GetDone ((GetContext_ctor 0 [97])\<lparr>get_code := setCode kNotFound Status_ctor\<rparr>), GetDone ?g])"
    using miss_then_set_reports_deleted [OF sorted_list.btree_set_axioms a h, of example_hashers]
    by (auto simp: example_set_def GetContext_ctor_def callback_def simp del: handle_tasks.simps)
  moreover have "getCode (get_code ?g) = kDelete" "get_value ?g = [1]" by simp_all
  ultimately show ?thesis by blast
qed

end
