(* ===== verification/Comp_Worker.thy ===== *)
theory Comp_Worker
  imports Shared_Memtable "HOL-Library.AList"
begin

text \<open>
  The thread of a compaction worker: \<open>CompWorker::Run\<close> in \<open>src/db/compactor.cpp\<close>. A turn of
  its loop either collects finished writes or flushes the queued memtables and merges levels.
  The worker's shared objects are one state: the worker itself, the table manager, the view
  manager and the shared memtable. What the kernel and the allocator answer are arguments;
  collecting runs on fuel, since an event nobody owns is never removed from the ring.
\<close>

record sys_sst =
  ss_stat :: "SSTable \<Rightarrow> nat option"
  ss_fstat :: "SSTable \<Rightarrow> nat option"
  ss_mmap :: "SSTable \<Rightarrow> map_ptr"
  ss_open :: "bytes \<Rightarrow> int"
  ss_submit :: int
  ss_now :: u64

text \<open>
  Everything a worker does not decide itself: the container and the hash functions, the
  kernel, the allocator (an address that is not in use, and whether appending moved a buffer),
  the contents of uninitialised objects, and the static members of \<open>CompWorker\<close>.
\<close>

record 't cw_env =
  e_bt :: "'t btree_api"
  e_hash :: hashers
  e_sys :: sys_sst
  e_alloc :: "nat list \<Rightarrow> nat"
  e_moved :: bool
  e_seed :: u64
  e_view :: "'t MemTable_view"
  e_sst :: SSTable
  e_levels :: "u32 \<times> u32"
  e_max_level_n :: u32
  e_memtable_n :: u32
  e_version :: u32

record 't cw_state =
  cw :: "'t CompWorker"
  cw_tables :: SSTableManager
  cw_views :: "'t MemTableViewManager"
  cw_shared :: "'t SharedMemtable"

section \<open>Collecting finished writes\<close>

text \<open>\<open>sstable_ref->InitMmap()\<close>, whose failure is asserted away, and the mapped contents.\<close>

definition map_table :: "sys_sst \<Rightarrow> CompData \<Rightarrow> 't cw_state \<Rightarrow> (nat \<times> u32 \<times> bytes \<times> 't cw_state) res" where
  "map_table sys cd st = (case cd_sstable_ref cd of
       None \<Rightarrow> Inl NullDeref
     | Some h \<Rightarrow>
         rbind (sst_at h (cw_tables st)) (\<lambda>t.
         let (ue, t) = InitMmap (ss_stat sys t) (ss_mmap sys t) t in
         rbind (guard ue AssertFail) (\<lambda>_.
         let st = st\<lparr>cw_tables := sst_upd h t (cw_tables st)\<rparr> in
         rbind (sst_getFileSize (ss_fstat sys t) t) (\<lambda>sz.
         case getMmapPtr t of
           Mapped m \<Rightarrow> rbind (view m 0 (unat sz)) (\<lambda>data. Inr (h, sst_getNumber t, data, st))
         | _ \<Rightarrow> Inl NullDeref))))"

definition forget :: "nat \<Rightarrow> 't CompWorker \<Rightarrow> 't CompWorker res" where
  "forget d w =
     rbind (DeleteEvent (Some d) (iouring w)) (\<lambda>r.
       Inr (w\<lparr>sync_data_map := filter (\<lambda>p. fst p \<noteq> d) (sync_data_map w), iouring := r\<rparr>))"

text \<open>
  A finished write that has an owner. After a merge the iterator that was just erased is used
  again.
\<close>

definition collect_one ::
  "'t cw_env \<Rightarrow> nat \<Rightarrow> CompData \<Rightarrow> 't cw_state \<Rightarrow> 't cw_state res" where
  "collect_one E d cd st =
     rbind (if isMajorCompact cd then
              rbind (map_table (e_sys E) cd st) (\<lambda>(h, number, data, st).
              rbind (PushTableMergeView (e_bt E) (e_seed E) (e_view E) number data (fst (level_info cd))
                  (snd (level_info cd)) h (cw_views st)) (\<lambda>mgr.
              rbind (forget d (cw st)) (\<lambda>w.
                Inr (False, st\<lparr>cw_views := mgr, cw := w\<rparr>))))
            else Inr (True, st)) (\<lambda>(iter_valid, st).
     rbind (guard iter_valid UseAfterFree) (\<lambda>_.
     rbind (map_table (e_sys E) cd st) (\<lambda>(h, number, data, st).
     rbind (PushTableView (e_bt E) (e_view E) number data h (cw_views st)) (\<lambda>mgr.
     rbind (PushRemoveReadonlyMemtableContext number (cw_shared st)) (\<lambda>sh.
     rbind (forget d (cw st)) (\<lambda>w.
       Inr (st\<lparr>cw_views := mgr, cw_shared := sh, cw := w\<rparr>)))))))"

fun collect ::
  "nat \<Rightarrow> 't cw_env \<Rightarrow> 't cw_state \<Rightarrow> 't cw_state res option" where
  "collect 0 E st = None"
| "collect (Suc fuel) E st =
     (case PeekFinishQueue (iouring (cw st)) of
        None \<Rightarrow> Some (Inr st)
      | Some d \<Rightarrow> (case map_of (sync_data_map (cw st)) d of
            None \<Rightarrow> collect fuel E st
          | Some cd \<Rightarrow> (case collect_one E d cd st of
                Inl e \<Rightarrow> Some (Inl e)
              | Inr st \<Rightarrow> collect fuel E st)))"

section \<open>Flushing a memtable\<close>

text \<open>\<open>memtable_{}_level_{}.sst\<close>.\<close>

definition sst_name :: "u32 \<Rightarrow> u32 \<Rightarrow> bytes" where
  "sst_name number level =
     [109, 101, 109, 116, 97, 98, 108, 101, 95] @ dec (unat number) @
     [95, 108, 101, 118, 101, 108, 95] @ dec (unat level) @ [46, 115, 115, 116]"

definition flush_table ::
  "'t cw_env \<Rightarrow> nat \<Rightarrow> 't Memtable \<Rightarrow> 't cw_state \<Rightarrow> 't cw_state res" where
  "flush_table E addr mt st =
     rbind (comp_format (ss_now (e_sys E)) (e_version E) (e_bt E) mt) (\<lambda>str.
     let level = getCompactionN mt; number = getMemNumber mt in
     rbind (newSSTable (e_sst E) number level (cw_tables st)) (\<lambda>(h, tables).
     rbind (sst_at h tables) (\<lambda>t.
     let (re, t) = SSTable_Init (ss_open (e_sys E) (cw_path (cw st) @ [47] @ sst_name number level))
           (cw_path (cw st)) (sst_name number level) level number t;
         t = sst_setLevel (getCompactionN mt) (sst_setNumber (getMemNumber mt) t) in
     rbind (guard re AssertFail) (\<lambda>_.
     rbind (guard (compactor_ref (cw st)) AssertFail) (\<lambda>_.
     let cd = CompData_ctor (e_levels E) str (getMemNumber mt) h in
     rbind (PrepWrite \<lparr>wr_fd = getFd t, wr_data = addr, wr_bytes = str, wr_link = False\<rparr> (iouring (cw st))) (\<lambda>r.
       Inr (st\<lparr>cw_tables := sst_upd h t tables,
               cw := (cw st)\<lparr>comp_kv_data_str := str, sync_data_map := AList.update addr cd (sync_data_map (cw st)),
                            iouring := Submit (ss_submit (e_sys E)) r\<rparr>\<rparr>)))))))"

text \<open>The queued tables are flushed in order, each into a buffer at an address of its own.\<close>

fun flush_tables ::
  "'t cw_env \<Rightarrow> 't Memtable list \<Rightarrow> 't cw_state \<Rightarrow> 't cw_state res" where
  "flush_tables E [] st = Inr st"
| "flush_tables E (mt # mts) st =
     rbind (flush_table E (e_alloc E (map fst (sync_data_map (cw st)))) mt st)
       (flush_tables E mts)"

section \<open>Merging two levels\<close>

text \<open>
  The merge of two sorted views. After advancing an iterator the element it then points to is
  put into the filter, whether or not the end was reached.
\<close>

definition deref_front :: "'a list \<Rightarrow> 'a res" where
  "deref_front xs = (case xs of [] \<Rightarrow> Inl OutOfBounds | x # _ \<Rightarrow> Inr x)"

function merge_loop ::
  "hashers \<Rightarrow> bytes list \<Rightarrow> bytes list \<Rightarrow> bytes \<Rightarrow> BloomFilter \<Rightarrow> u32 \<Rightarrow> (bytes \<times> BloomFilter \<times> u32) res" where
  "merge_loop H xs ys out bf n =
     (case (xs, ys) of
        (x # xs', y # ys') \<Rightarrow>
          rbind (getMemTableViewKeyView x) (\<lambda>first_key.
          rbind (getMemTableViewKeyView y) (\<lambda>second_key.
          if first_key > second_key then
            rbind (deref_front ys') (\<lambda>e.
            rbind (bf_Insert H kBloomFilterDefaultSize e bf) (\<lambda>bf.
              merge_loop H xs ys' (out @ y) bf (n + 1)))
          else if first_key < second_key then
            rbind (deref_front xs') (\<lambda>e.
            rbind (bf_Insert H kBloomFilterDefaultSize e bf) (\<lambda>bf.
              merge_loop H xs' ys (out @ x) bf (n + 1)))
          else
            rbind (bf_Insert H kBloomFilterDefaultSize x bf) (\<lambda>bf.
              merge_loop H xs' ys' (out @ x) bf (n + 1))))
      | _ \<Rightarrow> Inr (out, bf, n))"
  by pat_completeness auto
termination
  by (relation "measure (\<lambda>(_, xs, ys, _, _, _). length xs + length ys)") auto

declare merge_loop.simps [simp del]

text \<open>\<open>memtable_merge_{}_merge_{}_{}.sst\<close>.\<close>

definition merge_name :: "u32 \<Rightarrow> u32 \<Rightarrow> bytes" where
  "merge_name number l =
     [109, 101, 109, 116, 97, 98, 108, 101, 95, 109, 101, 114, 103, 101, 95] @ dec (unat number) @
     [95, 109, 101, 114, 103, 101, 95] @ dec (unat l) @ [95] @ dec (unat (l + 1)) @ [46, 115, 115, 116]"

text \<open>
  The buffer with the metadata. Eight fields are appended (the ninth argument, the filter, has
  no place in the format string); the values are written through the pointer taken before, to
  the start of the buffer, and dangling if appending moved it.
\<close>

definition merge_meta :: "'t cw_env \<Rightarrow> u32 \<Rightarrow> u32 \<Rightarrow> u32 \<Rightarrow> BloomFilter \<Rightarrow> bytes \<Rightarrow> bytes res" where
  "merge_meta E l number key_size bf out =
     rbind (rd format32_vec (varintLength (ucast (e_version E)))) (\<lambda>f1.
     rbind (rd format64_vec (varintLength (ss_now (e_sys E)))) (\<lambda>f2.
     rbind (rd format32_vec (varintLength (ucast l))) (\<lambda>f3.
     rbind (rd format32_vec (varintLength (ucast (l + 1)))) (\<lambda>f4.
     rbind (rd format32_vec (varintLength (ucast number))) (\<lambda>f5.
     rbind (rd format32_vec (varintLength (ucast key_size))) (\<lambda>f6.
     rbind (rd format32_vec (varintLength (ucast (bf_getBitSetSize bf)))) (\<lambda>f7.
     rbind (rd format64_vec (varintLength (bf_seed bf))) (\<lambda>f8.
     let str = out @ f1 @ f2 @ f3 @ f4 @ f5 @ f6 @ f7 @ f8 in
     rbind (guard (\<not> e_moved E) UseAfterFree) (\<lambda>_.
     rbind (put_field (encodeVarint32 (e_version E)) (str, 0)) (\<lambda>s.
     rbind (put_field (encodeVarint64 (ss_now (e_sys E))) s) (\<lambda>s.
     rbind (put_field (encodeVarint32 l) s) (\<lambda>s.
     rbind (put_field (encodeVarint32 (l + 1)) s) (\<lambda>s.
     rbind (put_field (encodeVarint32 number) s) (\<lambda>s.
     rbind (put_field (encodeVarint32 key_size) s) (\<lambda>s. Inr (fst s))))))))))))))))"

definition merge_level ::
  "'t cw_env \<Rightarrow> nat \<Rightarrow> u32 \<Rightarrow> u32 \<Rightarrow> 't MemTable_view list \<Rightarrow> 't cw_state \<Rightarrow> 't cw_state res" where
  "merge_level E addr j l views st =
     rbind (rd views (unat l)) (\<lambda>first.
     rbind (rd views (unat (l + 1))) (\<lambda>second.
     rbind (merge_loop (e_hash E) (bt_elems (e_bt E) (memMapView first)) (bt_elems (e_bt E) (memMapView second)) []
         (BloomFilter_ctor kBloomFilterDefaultSize) 0) (\<lambda>(out, bf, memtable_key_size).
     rbind (getMemTaskWorkerNumber j (cw_shared st)) (\<lambda>number.
     rbind (newCompactionSSTable (e_sst E) number l (cw_tables st)) (\<lambda>(h, tables).
     rbind (sst_at h tables) (\<lambda>t.
     let (ue, t) = SSTable_Init (ss_open (e_sys E) (cw_path (cw st) @ [47] @ merge_name number l))
           (cw_path (cw st)) (merge_name number l) l number t in
     rbind (guard ue AssertFail) (\<lambda>_.
     rbind (guard (memtable_key_size > 0) AssertFail) (\<lambda>_.
     rbind (merge_meta E l number memtable_key_size bf out) (\<lambda>str.
     rbind (guard (compactor_ref (cw st)) AssertFail) (\<lambda>_.
     let cd = \<lparr>sync_data = str, cd_memtable_n = view_getNumber first, cd_sstable_ref = None,
               isMajorCompact = True, level_info = (l, l + 1)\<rparr> in
     rbind (PrepWriteLink \<lparr>wr_fd = getFd t, wr_data = addr, wr_bytes = str, wr_link = True\<rparr> (iouring (cw st))) (\<lambda>r.
     rbind (PrepWrite \<lparr>wr_fd = getFd t, wr_data = addr, wr_bytes = [], wr_link = False\<rparr> r) (\<lambda>r.
       Inr (st\<lparr>cw_tables := sst_upd h t tables,
               cw := (cw st)\<lparr>sync_data_map := AList.update addr cd (sync_data_map (cw st)),
                            iouring := Submit (ss_submit (e_sys E)) r\<rparr>\<rparr>)))))))))))))"

text \<open>The levels of one table: \<open>l\<close> runs up to the number of views less one, computed in 32 bits.\<close>

fun merge_levels ::
  "'t cw_env \<Rightarrow> u32 \<Rightarrow> 't MemTable_view list \<Rightarrow> nat list \<Rightarrow> 't cw_state \<Rightarrow> 't cw_state res" where
  "merge_levels E j views [] st = Inr st"
| "merge_levels E j views (l # ls) st =
     rbind (merge_level E (e_alloc E (map fst (sync_data_map (cw st)))) j (of_nat l)
         views st)
       (merge_levels E j views ls)"

definition merge_table ::
  "'t cw_env \<Rightarrow> u32 \<Rightarrow> 't cw_state \<Rightarrow> 't cw_state res" where
  "merge_table E j st =
     rbind (getMemTaskWorkerLevel j (cw_shared st)) (\<lambda>level.
     if level > e_max_level_n E then
       rbind (rd (mem_all_vec (cw_views st)) (unat j)) (\<lambda>vv.
       let cur_mem_view_size = of_nat (length (memtable_vec vv)) - 1 :: u32;
           (locked, vv) = getCompactLock vv in
       if locked then
         let st = st\<lparr>cw_views := set_vec j vv (cw_views st)\<rparr> in
         rbind (merge_levels E j (memtable_vec vv)
             [0..<unat cur_mem_view_size] st) (\<lambda>st.
         Inr (st\<lparr>cw_views := set_vec j (finishCompact vv) (cw_views st)\<rparr>))
       else Inr st)
     else Inr st)"

fun merge_tables ::
  "'t cw_env \<Rightarrow> nat list \<Rightarrow> 't cw_state \<Rightarrow> 't cw_state res" where
  "merge_tables E [] st = Inr st"
| "merge_tables E (j # js) st =
     rbind (merge_table E (of_nat j) st)
       (merge_tables E js)"

section \<open>A turn of the loop\<close>

definition CompWorker_turn ::
  "nat \<Rightarrow> 't cw_env \<Rightarrow> 't cw_state \<Rightarrow> 't cw_state res option" where
  "CompWorker_turn fuel E st =
     (if bg_wait_to_sync_sstable (cw st) = [] then collect fuel E st
      else
        let w = (cw st)\<lparr>wait_to_sync_sstable := bg_wait_to_sync_sstable (cw st),
                        bg_wait_to_sync_sstable := wait_to_sync_sstable (cw st)\<rparr> in
        Some (rbind (flush_tables E (wait_to_sync_sstable w)
                (st\<lparr>cw := w\<rparr>)) (\<lambda>st.
              merge_tables E [0..<unat (e_memtable_n E)]
                (st\<lparr>cw := (cw st)\<lparr>wait_to_sync_sstable := []\<rparr>\<rparr>))))"

section \<open>Lemmas\<close>

lemma PushTableView_fails: "\<exists>e. PushTableView B garbage number data sstable mgr = Inl e"
proof (cases "PushTableView B garbage number data sstable mgr")
  case (Inr mgr')
  then obtain v lev where "MemTable_view_ctor B garbage data number lev sstable = Inr v"
    by (auto simp: PushTableView_def rbind_eq_Inr_iff)
  then obtain u r where "MemTable_view_Init B data u = Inr r"
    unfolding MemTable_view_ctor_def by (auto simp: rbind_eq_Inr_iff)
  then show ?thesis
    using view_Init_never_returns by (metis Inl_Inr_False)
qed simp

lemma collect_one_fails: "\<exists>e. collect_one E d cd st = Inl e"
proof (cases "collect_one E d cd st")
  case (Inr st')
  then obtain number data h mgr mgr' where "PushTableView (e_bt E) (e_view E) number data h mgr = Inr mgr'"
    by (auto simp: collect_one_def rbind_eq_Inr_iff split: if_splits)
  then show ?thesis
    using PushTableView_fails by (metis Inl_Inr_False)
qed simp

lemma collect_pending:
  assumes "PeekFinishQueue (iouring (cw st)) = Some d"
  shows "collect fuel E st = None \<or> (\<exists>e. collect fuel E st = Some (Inl e))"
  using assms
proof (induction fuel)
  case (Suc fuel)
  show ?case
  proof (cases "map_of (sync_data_map (cw st)) d")
    case (Some cd)
    obtain e where "collect_one E d cd st = Inl e" using collect_one_fails by blast
    then show ?thesis using Some Suc.prems by simp
  qed (use Suc in simp)
qed simp

text \<open>No operation of a worker gives the manager a vector for merged tables.\<close>

lemma sst_upd_comp [simp]: "comp_sstable_vec (sst_upd h t m) = comp_sstable_vec m"
  by (simp add: sst_upd_def)

lemma newSSTable_comp: "newSSTable g n l m = Inr (h, m') \<Longrightarrow> comp_sstable_vec m' = comp_sstable_vec m"
  by (auto simp: newSSTable_def rbind_eq_Inr_iff Let_def)

lemma flush_table_comp:
  "flush_table E addr mt st = Inr st' \<Longrightarrow> comp_sstable_vec (cw_tables st') = comp_sstable_vec (cw_tables st)"
  by (auto simp: flush_table_def rbind_eq_Inr_iff Let_def case_prod_beta dest: newSSTable_comp)

lemma flush_tables_comp:
  "flush_tables E mts st = Inr st' \<Longrightarrow> comp_sstable_vec (cw_tables st') = comp_sstable_vec (cw_tables st)"
  by (induction mts arbitrary: st) (auto simp: rbind_eq_Inr_iff dest: flush_table_comp)

lemma merge_level_fails:
  assumes "comp_sstable_vec (cw_tables st) = []"
  shows "\<exists>e. merge_level E addr j l views st = Inl e"
proof (cases "merge_level E addr j l views st")
  case (Inr st')
  then show ?thesis
    using newCompactionSSTable_fails [OF assms] by (auto simp: merge_level_def rbind_eq_Inr_iff)
qed simp

lemma merge_levels_fails:
  assumes "comp_sstable_vec (cw_tables st) = []" "ls \<noteq> []"
  shows "\<exists>e. merge_levels E j views ls st = Inl e"
proof (cases ls)
  case (Cons l ls')
  obtain e where "merge_level E (e_alloc E (map fst (sync_data_map (cw st)))) j (of_nat l) views st = Inl e"
    using merge_level_fails [OF assms(1)] by blast
  then show ?thesis by (simp add: Cons)
qed (use assms in simp)

lemma merge_table_comp:
  assumes "merge_table E j st = Inr st'" and "comp_sstable_vec (cw_tables st) = []"
  shows "comp_sstable_vec (cw_tables st') = []"
proof -
  have "comp_sstable_vec (cw_tables s') = []"
    if "merge_levels E j views ls s = Inr s'" "comp_sstable_vec (cw_tables s) = []"
    for views ls and s s' :: "'a cw_state"
    using that merge_levels_fails [OF that(2), of ls E j views] by (cases "ls = []") auto
  then show ?thesis
    using assms by (auto simp: merge_table_def rbind_eq_Inr_iff Let_def case_prod_beta split: if_splits)
qed

lemma merge_tables_comp:
  "merge_tables E js st = Inr st' \<Longrightarrow> comp_sstable_vec (cw_tables st) = [] \<Longrightarrow>
    comp_sstable_vec (cw_tables st') = []"
  by (induction js arbitrary: st) (auto simp: rbind_eq_Inr_iff dest: merge_table_comp)

lemma CompWorker_turn_comp:
  assumes "CompWorker_turn fuel E st = Some (Inr st')" and "comp_sstable_vec (cw_tables st) = []"
  shows "comp_sstable_vec (cw_tables st') = []"
proof (cases "bg_wait_to_sync_sstable (cw st) = []")
  case True
  then have "collect fuel E st = Some (Inr st')"
    using assms(1) by (simp add: CompWorker_turn_def)
  then have "st' = st"
    using collect_pending [of st _ fuel E] by (cases fuel) (fastforce split: option.splits)+
  then show ?thesis using assms(2) by simp
next
  case False
  then show ?thesis
    using assms by (auto simp: CompWorker_turn_def Let_def rbind_eq_Inr_iff
        dest!: flush_tables_comp merge_tables_comp)
qed

section \<open>Flushing succeeds\<close>











section \<open>An example\<close>

text \<open>
  A worker for two tables on a kernel that accepts everything; \<open>example_worker mts events\<close> has
  queued \<open>mts\<close> and finds \<open>events\<close> in the completion queue.
\<close>

definition example_table :: SSTable where
  "example_table = \<lparr>isMmap = False, mmapBasePtr = NullPtr, fileLength = 0, sst_isOpen = False, sst_fd = 0,
     sstable_number = 0, sstable_level = 0, fullfilename = [], sst_fileName = [], sst_filePath = []\<rparr>"

definition example_view :: "bytes list MemTable_view" where
  "example_view = \<lparr>sstable_ref = 0, mv_info = \<lparr>firstLevel = 0, secondLevel = 0, IsInstead = False\<rparr>, mv_version = 0,
     memView = [], memViewSize = 0, cur_level = 0, isReadable = True, number_n = 0, memMapView = [],
     mv_bloomFilter = None\<rparr>"

definition example_env :: "bytes list cw_env" where
  "example_env = \<lparr>e_bt = sorted_list_set, e_hash = example_hashers,
     e_sys = \<lparr>ss_stat = (\<lambda>_. Some 0), ss_fstat = (\<lambda>_. Some 0), ss_mmap = (\<lambda>_. Mapped []), ss_open = (\<lambda>_. 5),
       ss_submit = 1, ss_now = 7\<rparr>,
     e_alloc = (\<lambda>as. Suc (Max (insert 0 (set as)))), e_moved = False, e_seed = 0, e_view = example_view,
     e_sst = example_table, e_levels = (0, 0), e_max_level_n = 8, e_memtable_n = 2, e_version = 1\<rparr>"

definition example_worker :: "bytes list Memtable list \<Rightarrow> nat list \<Rightarrow> bytes list CompWorker" where
  "example_worker mts events =
     (CompWorker_ctor 0)\<lparr>compactor_ref := True, bg_wait_to_sync_sstable := mts,
       iouring := \<lparr>ring_depth = kDefaultIOUringSize, isInit = True, sq_prepared = [], sq_submitted = [],
         cq_events = events\<rparr>\<rparr>"

definition example_task_worker :: "u32 \<Rightarrow> u64 \<Rightarrow> bytes list TaskWorker" where
  "example_task_worker level n =
     \<lparr>remove_N = 0, preRemove_N = 0, tw_memtable = (Memtable_ctor sorted_list_set n)\<lparr>compaction_number := level\<rparr>,
      handle_vec = [], bg_handle_vec = [], tw_isRunning = True, maxMemTableSize = 100, tw_compactor = True,
      tw_memview = True, readonly_memtable_vec = [], klrucache = kLRUCache_ctor 10 40\<rparr>"

definition example_config :: DBConfig where
  "example_config = (DBConfig_default False 1)\<lparr>memtable_N := 2\<rparr>"

definition example_state :: "u32 \<Rightarrow> bytes list Memtable list \<Rightarrow> nat list \<Rightarrow> bytes list cw_state" where
  "example_state level mts events =
     \<lparr>cw = example_worker mts events,
      cw_tables = SSTableManager_Init example_config (SSTableManager_ctor 0),
      cw_views = \<lparr>mgr_memtable_n = 2, mem_all_vec = replicate 2
        \<lparr>memtable_vec = [example_view, example_view], vv_mtx = False, isCompaction = False\<rparr>\<rparr>,
      cw_shared = \<lparr>singleMemTableSize = 100, sh_memtable_N = 2,
        taskworkers = [example_task_worker level 0, example_task_worker level 1], comp_actor = True\<rparr>\<rparr>"


lemmas example_defs = example_state_def example_worker_def example_env_def example_config_def example_task_worker_def

section \<open>Properties\<close>



text \<open>Property C27. No flushed table becomes readable: once the kernel reports a finished write,
  collecting never returns normally. A write that has an owner ends in an error, whatever the
  file holds; one without is looked at again and again.\<close>

theorem no_flush_completes:
  assumes "PeekFinishQueue (iouring (cw st)) = Some d"
  shows "(case map_of (sync_data_map (cw st)) d of
      None \<Rightarrow> collect fuel E st = None
    | Some cd \<Rightarrow> \<exists>e. collect (Suc fuel) E st = Some (Inl e))"
proof (cases "map_of (sync_data_map (cw st)) d")
  case None
  then have "collect fuel E st = None" using assms by (induction fuel) simp_all
  then show ?thesis using None by simp
next
  case (Some cd)
  then show ?thesis using assms collect_one_fails [of E d cd st] by auto
qed

theorem no_flush_completes_witness:
  "(case map_of (sync_data_map (cw (example_state 0 [] [4]))) 4 of
      None \<Rightarrow> collect 10 example_env (example_state 0 [] [4]) = None
    | Some cd \<Rightarrow> \<exists>e. collect (Suc 10) example_env (example_state 0 [] [4]) = Some (Inl e))"
proof -
  have "PeekFinishQueue (iouring (cw (example_state 0 [] [4]))) = Some 4"
    by (simp add: example_defs PeekFinishQueue_def)
  then show ?thesis by (rule no_flush_completes)
qed

end
