(* ===== verification/Export_Db.thy ===== *)
theory Export_Db
  imports Wal Comp_Worker
begin

text \<open>
  The database of \<open>src/db/exportdb.cpp\<close>: the write-ahead log in front of the sharded memtable,
  with the compactor and the view manager wired to it by \<open>Init\<close>. The owning pointers are options,
  so that a use before \<open>Init\<close> is a null dereference; the global \<open>g_dbconfig\<close> is a field.

  Seen from outside, a database that was opened on an empty log is a numbered list of writes and
  one queue of requests per shard: this is the abstract specification \<open>db_spec\<close>, which the
  operations implement as long as the log does not reach its size limit.
\<close>

section \<open>The database\<close>

definition kDefaultWalLogFileName :: bytes where
  "kDefaultWalLogFileName = [87, 65, 76, 95, 76, 79, 71, 46, 108, 111, 103]"

text \<open>\<open>ShaunDB_WAL.log\<close>, the name that is used.\<close>

definition wal_name :: bytes where
  "wal_name = [83, 104, 97, 117, 110, 68, 66, 95, 87, 65, 76, 46, 108, 111, 103]"

record WALSequenceNumber =
  number :: u64

definition wsn_incr :: "WALSequenceNumber \<Rightarrow> WALSequenceNumber" where
  "wsn_incr n = n\<lparr>number := number n + 1\<rparr>"

definition wsn_getValue :: "WALSequenceNumber \<Rightarrow> u64" where
  "wsn_getValue n = number n"

record 't DB =
  walLog :: "WalWriter option"
  global_number :: WALSequenceNumber
  request_number :: u64
  shared_memtable :: "'t SharedMemtable option"
  db_comp_actor :: "'t Compactor option"
  memviewtable_manager :: "'t MemTableViewManager option"
  g_dbconfig :: DBConfig

definition DB_ctor :: "u64 \<Rightarrow> DBConfig \<Rightarrow> 't DB" where
  "DB_ctor garbage g_config =
     \<lparr>walLog = None, global_number = \<lparr>number = 0\<rparr>, request_number = garbage, shared_memtable = None,
      db_comp_actor = None, memviewtable_manager = None, g_dbconfig = g_config\<rparr>"

text \<open>
  What the database does not decide: the container, the hash functions, the answers of the
  kernel, the address of the log string, the display width of a key and the contents of
  uninitialised objects.
\<close>

record 't db_env =
  d_bt :: "'t btree_api"
  d_hash :: hashers
  d_write :: sys_wr
  d_opened :: "int \<times> bytes"
  d_access :: int
  d_ring_init :: int
  d_base :: u64
  d_width :: "bytes \<Rightarrow> nat"
  d_wal :: WalLog
  d_worker :: "'t TaskWorker"
  d_comp :: "'t Compactor"
  d_u32 :: u32

definition isEmptyDir :: "int \<Rightarrow> bool" where
  "isEmptyDir isOk \<longleftrightarrow> isOk = -1"

text \<open>
  The parts are created and given references to each other. A log that cannot be opened is
  only reported.
\<close>

definition NewDBimp :: "'t db_env \<Rightarrow> DBConfig \<Rightarrow> 't DB \<Rightarrow> 't DB res" where
  "NewDBimp E db_config d =
     (let sh = \<lparr>singleMemTableSize = d_u32 E, sh_memtable_N = d_u32 E, taskworkers = [], comp_actor = False\<rparr> in
      case walLog d of
        None \<Rightarrow> Inl NullDeref
      | Some w \<Rightarrow>
          let (_, wal_log_init_status, w) = WalWriter_Init (d_opened E) (db_path db_config) wal_name Status_ctor w;
              manager = MemTableViewManager_Init (memtable_N db_config) \<lparr>mgr_memtable_n = d_u32 E, mem_all_vec = []\<rparr>;
              cact = Compactor_Init (d_u32 E) db_config (d_comp E) in
          rbind (SetCompWorkerCompactorRef True cact) (\<lambda>cact.
          rbind (SharedMemtable_Init (d_bt E) (d_worker E) db_config sh) (\<lambda>sh.
          let sh = sh_SetCompactorRef True sh in
          rbind (SetSharedMemTableRef True cact) (\<lambda>cact.
          rbind (SetSharedMemTableViewSSRef True cact) (\<lambda>cact.
          rbind (SetMemTableViewRef True sh) (\<lambda>sh.
          rbind (SharedMemtable_Run sh) (\<lambda>sh.
          rbind (Compactor_Run (d_ring_init E) cact) (\<lambda>cact.
            Inr (d\<lparr>walLog := Some w, shared_memtable := Some sh, db_comp_actor := Some cact,
                   memviewtable_manager := Some manager\<rparr>)))))))))"

text \<open>Both branches on \<open>isEmptyDir\<close> are empty: an existing log is not replayed.\<close>

definition DB_Init :: "'t db_env \<Rightarrow> DBConfig \<Rightarrow> 't DB \<Rightarrow> (bool \<times> 't DB) res" where
  "DB_Init E config d =
     (let d = d\<lparr>walLog := Some (WalWriter_ctor (d_wal E))\<rparr>;
          d = (if isEmptyDir (d_access E) then d else d) in
      rbind (NewDBimp E config d) (\<lambda>d. Inr (True, d\<lparr>g_dbconfig := config\<rparr>)))"

text \<open>A call through one of the owning pointers.\<close>

definition deref_ptr :: "'a option \<Rightarrow> 'a res" where
  "deref_ptr p = (case p of None \<Rightarrow> Inl NullDeref | Some x \<Rightarrow> Inr x)"

definition DB_Delete :: "'t db_env \<Rightarrow> DeleteContext \<Rightarrow> 't DB \<Rightarrow> 't DB res" where
  "DB_Delete E del_context d =
     rbind (DeleteContextWalLogFormat (d_width E) (d_base E) del_context (wsn_getValue (global_number d))) (\<lambda>simple_log.
     let d = d\<lparr>global_number := wsn_incr (global_number d)\<rparr> in
     rbind (deref_ptr (walLog d)) (\<lambda>w.
     rbind (WalWriter_AddRecord (d_write E) simple_log w) (\<lambda>(_, w).
     rbind (deref_ptr (shared_memtable d)) (\<lambda>sh.
     rbind (SharedMemtable_Delete (d_hash E) del_context sh) (\<lambda>sh.
       Inr (d\<lparr>walLog := Some w, shared_memtable := Some sh\<rparr>))))))"

definition DB_Get :: "'t db_env \<Rightarrow> GetContext \<Rightarrow> 't DB \<Rightarrow> 't DB res" where
  "DB_Get E get_context d =
     rbind (deref_ptr (shared_memtable d)) (\<lambda>sh.
     rbind (SharedMemtable_Get (d_hash E) get_context sh) (\<lambda>sh. Inr (d\<lparr>shared_memtable := Some sh\<rparr>)))"

definition DB_Set :: "'t db_env \<Rightarrow> SetContext \<Rightarrow> 't DB \<Rightarrow> 't DB res" where
  "DB_Set E set_context d =
     rbind (SetContextWalLogFormat (d_base E) set_context (wsn_getValue (global_number d))) (\<lambda>simple_log.
     let d = d\<lparr>global_number := wsn_incr (global_number d)\<rparr> in
     rbind (deref_ptr (walLog d)) (\<lambda>w.
     rbind (WalWriter_AddRecord (d_write E) simple_log w) (\<lambda>(_, w).
     rbind (deref_ptr (shared_memtable d)) (\<lambda>sh.
     rbind (SharedMemtable_Set (d_hash E) set_context sh) (\<lambda>sh.
       Inr (d\<lparr>walLog := Some w, shared_memtable := Some sh\<rparr>))))))"

definition DB_Snapshot :: "'t db_env \<Rightarrow> SnapShot \<Rightarrow> 't DB \<Rightarrow> 't DB res" where
  "DB_Snapshot E snapshot d =
     rbind (SnapShot_Init (wsn_getValue (global_number d)) (memtable_N (g_dbconfig d)) snapshot) (\<lambda>snapshot.
     rbind (deref_ptr (shared_memtable d)) (\<lambda>sh.
       Inr (d\<lparr>shared_memtable := Some (SharedMemtable_SnapShot snapshot sh)\<rparr>)))"

section \<open>The abstract specification\<close>

datatype db_op = OpSet SetContext | OpGet GetContext | OpDelete DeleteContext | OpSnapshot SnapShot

primrec DB_op :: "'t db_env \<Rightarrow> db_op \<Rightarrow> 't DB \<Rightarrow> 't DB res" where
  "DB_op E (OpSet c) d = DB_Set E c d"
| "DB_op E (OpGet g) d = DB_Get E g d"
| "DB_op E (OpDelete x) d = DB_Delete E x d"
| "DB_op E (OpSnapshot s) d = DB_Snapshot E s d"

fun DB_ops :: "'t db_env \<Rightarrow> db_op list \<Rightarrow> 't DB \<Rightarrow> 't DB res" where
  "DB_ops E [] d = Inr d"
| "DB_ops E (x # xs) d = rbind (DB_op E x d) (DB_ops E xs)"

text \<open>
  The state of the specification: how many writes there were, the records of the log, and the
  requests each shard has still to handle.
\<close>

record db_spec =
  sp_count :: nat
  sp_log :: "bytes list"
  sp_queues :: "Memtask list list"

definition enqueue :: "nat \<Rightarrow> Memtask \<Rightarrow> db_spec \<Rightarrow> db_spec" where
  "enqueue i t s = s\<lparr>sp_queues := (sp_queues s)[i := sp_queues s ! i @ [t]]\<rparr>"

definition home :: "hashers \<Rightarrow> bytes \<Rightarrow> db_spec \<Rightarrow> nat" where
  "home H key s = unat (std_hash H key) mod length (sp_queues s)"

definition log_write :: "bytes res \<Rightarrow> db_spec \<Rightarrow> db_spec" where
  "log_write r s = s\<lparr>sp_count := Suc (sp_count s), sp_log := sp_log s @ [projr r]\<rparr>"

primrec spec_op :: "'t db_env \<Rightarrow> db_op \<Rightarrow> db_spec \<Rightarrow> db_spec" where
  "spec_op E (OpSet c) s = enqueue (home (d_hash E) (set_key c) s) (SetTask c)
     (log_write (SetContextWalLogFormat (d_base E) c (of_nat (sp_count s))) s)"
| "spec_op E (OpDelete x) s = enqueue (home (d_hash E) (del_key x) s) (DeleteTask x)
     (log_write (DeleteContextWalLogFormat (d_width E) (d_base E) x (of_nat (sp_count s))) s)"
| "spec_op E (OpGet g) s = enqueue (home (d_hash E) (get_key g) s) (GetTask g) s"
| "spec_op E (OpSnapshot sn) s = s\<lparr>sp_queues := map (\<lambda>q. q @ [SnapShotTask
     (projr (SnapShot_Init (of_nat (sp_count s)) (of_nat (length (sp_queues s))) sn))]) (sp_queues s)\<rparr>"

fun spec_ops :: "'t db_env \<Rightarrow> db_op list \<Rightarrow> db_spec \<Rightarrow> db_spec" where
  "spec_ops E [] s = s"
| "spec_ops E (x # xs) s = spec_ops E xs (spec_op E x s)"

text \<open>The coupling: the database shows the specification's state, and the log has not wrapped.\<close>

definition implements :: "'t DB \<Rightarrow> db_spec \<Rightarrow> bool" where
  "implements d s \<longleftrightarrow> (\<exists>w sh. walLog d = Some w \<and> shared_memtable d = Some sh \<and>
     number (global_number d) = of_nat (sp_count s) \<and>
     wal_log_ok (wal_file w) \<and> wal_log_stream (wal_file w) = concat (sp_log s) \<and>
     unat (current_log_size w) = length (concat (sp_log s)) \<and> ww_wal_log_size w = kDefaultWalLogSize \<and>
     map bg_handle_vec (taskworkers sh) = sp_queues s \<and>
     length (sp_queues s) = unat (sh_memtable_N sh) \<and> 0 < length (sp_queues s) \<and>
     memtable_N (g_dbconfig d) = sh_memtable_N sh)"

section \<open>Refinement\<close>

lemma AddRecord_below:
  assumes "wal_log_ok (wal_file w)" "unat (current_log_size w) + length r < unat (ww_wal_log_size w)"
  shows "\<exists>w'. WalWriter_AddRecord write_all r w = Inr (True, w') \<and> wal_log_ok (wal_file w') \<and>
    wal_log_stream (wal_file w') = wal_log_stream (wal_file w) @ r \<and>
    unat (current_log_size w') = unat (current_log_size w) + length r \<and> ww_wal_log_size w' = ww_wal_log_size w"
proof -
  have size: "unat (current_log_size w + size32 r) = unat (current_log_size w) + length r"
    using assms(2) unat_u32_less [of "ww_wal_log_size w"] by (intro unat_add_of_nat_u32) simp
  then have "\<not> ww_wal_log_size w \<le> current_log_size w + size32 r"
    using assms(2) by (simp add: word_le_nat_alt)
  moreover obtain f where "WalLog_AddRecord write_all r (wal_file w) = Inr f" "wal_log_ok f"
    "wal_log_stream f = wal_log_stream (wal_file w) @ r"
    using wal_total.put_total [OF assms(1)] wal_sink.put_appends [OF assms(1)] by metis
  ultimately show ?thesis using size by (simp add: WalWriter_AddRecord_eq)
qed

lemma Delete_format_Inr: "\<exists>log. DeleteContextWalLogFormat width base x n = Inr log"
  unfolding DeleteContextWalLogFormat_def Let_def fixed_crc_head by blast

lemma add_to_queue:
  assumes "i < length (taskworkers sh)"
  shows "\<exists>sh'. add_to i t sh = Inr sh' \<and> sh_memtable_N sh' = sh_memtable_N sh \<and>
    map bg_handle_vec (taskworkers sh') = (map bg_handle_vec (taskworkers sh))[i := map bg_handle_vec (taskworkers sh) ! i @ [t]]"
  using assms by (simp add: add_to_def map_update addTask_def)

lemma add_to_home:
  assumes "map bg_handle_vec (taskworkers sh) = sp_queues s" "length (sp_queues s) = unat (sh_memtable_N sh)"
    "0 < length (sp_queues s)"
  shows "\<exists>sh'. rbind (shard H key sh) (\<lambda>idx. add_to idx t sh) = Inr sh' \<and> sh_memtable_N sh' = sh_memtable_N sh \<and>
    map bg_handle_vec (taskworkers sh') = sp_queues (enqueue (home H key s) t s)"
proof -
  have len: "length (taskworkers sh) = length (sp_queues s)" using assms(1) by (metis length_map)
  have "sh_memtable_N sh \<noteq> 0" using assms(2,3) by auto
  then have "shard H key sh = Inr (home H key s)" by (simp add: shard_def home_def assms(2))
  moreover have "home H key s < length (taskworkers sh)"
    using assms(3) by (simp add: home_def len)
  ultimately show ?thesis
    using add_to_queue [of "home H key s" sh t] by (simp add: enqueue_def assms(1))
qed

lemma DB_op_refines:
  assumes "implements d s" "d_write E = write_all"
    and "length (concat (sp_log (spec_op E x s))) < unat kDefaultWalLogSize"
  shows "\<exists>d'. DB_op E x d = Inr d' \<and> implements d' (spec_op E x s)"
proof -
  obtain w sh where d: "walLog d = Some w" "shared_memtable d = Some sh"
    "number (global_number d) = of_nat (sp_count s)" "wal_log_ok (wal_file w)"
    "wal_log_stream (wal_file w) = concat (sp_log s)" "unat (current_log_size w) = length (concat (sp_log s))"
    "ww_wal_log_size w = kDefaultWalLogSize" "memtable_N (g_dbconfig d) = sh_memtable_N sh"
    and q: "map bg_handle_vec (taskworkers sh) = sp_queues s"
    "length (sp_queues s) = unat (sh_memtable_N sh)" "0 < length (sp_queues s)"
    using assms(1) unfolding implements_def by blast
  note queue = add_to_home [OF q]
  have log: "\<exists>w'. WalWriter_AddRecord write_all r w = Inr (True, w') \<and> wal_log_ok (wal_file w') \<and>
      wal_log_stream (wal_file w') = concat (sp_log s) @ r \<and>
      unat (current_log_size w') = length (concat (sp_log s)) + length r \<and> ww_wal_log_size w' = kDefaultWalLogSize"
    if "length (concat (sp_log s)) + length r < unat kDefaultWalLogSize" for r
    using AddRecord_below [of w r] that d by simp
  show ?thesis
  proof (cases x)
    case (OpSet c)
    obtain r where r: "SetContextWalLogFormat (d_base E) c (of_nat (sp_count s)) = Inr r"
      using SetContextWalLogFormat_eq by blast
    show ?thesis
      using queue [of "d_hash E" "set_key c" "SetTask c"] log [of r] d q r assms(2,3) OpSet
      by (auto simp: DB_Set_def SharedMemtable_Set_def deref_ptr_def wsn_getValue_def wsn_incr_def
          implements_def log_write_def enqueue_def home_def)
  next
    case (OpDelete y)
    obtain r where r: "DeleteContextWalLogFormat (d_width E) (d_base E) y (of_nat (sp_count s)) = Inr r"
      using Delete_format_Inr by blast
    show ?thesis
      using queue [of "d_hash E" "del_key y" "DeleteTask y"] log [of r] d q r assms(2,3) OpDelete
      by (auto simp: DB_Delete_def SharedMemtable_Delete_def deref_ptr_def wsn_getValue_def wsn_incr_def
          implements_def log_write_def enqueue_def home_def)
  next
    case (OpGet g)
    show ?thesis
      using queue [of "d_hash E" "get_key g" "GetTask g"] d q OpGet
      by (auto simp: DB_Get_def SharedMemtable_Get_def deref_ptr_def implements_def enqueue_def)
  next
    case (OpSnapshot sn)
    obtain sn' where sn': "SnapShot_Init (of_nat (sp_count s)) (sh_memtable_N sh) sn = Inr sn'"
      using SnapShot_Init_ok by blast
    then show ?thesis
      using d q OpSnapshot
      by (auto simp: DB_Snapshot_def deref_ptr_def wsn_getValue_def implements_def SharedMemtable_SnapShot_def
          addTask_def comp_def simp flip: q(1))
  qed
qed

lemma spec_op_log_grows: "length (concat (sp_log s)) \<le> length (concat (sp_log (spec_op E x s)))"
  by (cases x) (simp_all add: enqueue_def log_write_def)

lemma spec_ops_log_grows: "length (concat (sp_log s)) \<le> length (concat (sp_log (spec_ops E xs s)))"
  by (induction xs arbitrary: s) (auto intro: le_trans [OF spec_op_log_grows])

lemma DB_ops_refines:
  assumes "implements d s" "d_write E = write_all"
    and "length (concat (sp_log (spec_ops E xs s))) < unat kDefaultWalLogSize"
  shows "\<exists>d'. DB_ops E xs d = Inr d' \<and> implements d' (spec_ops E xs s)"
  using assms
proof (induction xs arbitrary: d s)
  case (Cons x xs)
  have "length (concat (sp_log (spec_op E x s))) < unat kDefaultWalLogSize"
    using Cons.prems(3) spec_ops_log_grows [of "spec_op E x s" E xs] by simp
  then obtain d1 where "DB_op E x d = Inr d1" "implements d1 (spec_op E x s)"
    using DB_op_refines [OF Cons.prems(1,2)] by blast
  then show ?case using Cons.IH [of d1 "spec_op E x s"] Cons.prems by simp
qed simp

lemma Compactor_Run_ok: "\<exists>c'. Compactor_Run 0 (c :: 't Compactor) = Inr c'"
proof -
  have "\<exists>ws'. map_res (CompWorker_start 0) ws = Inr ws'" for ws :: "'t CompWorker list"
    by (induction ws) (auto simp: CompWorker_start_def IOUring_Init_def Let_def)
  then obtain ws' where "map_res (CompWorker_start 0) (bg_comp_workers c) = Inr ws'" by blast
  then show ?thesis by (simp add: Compactor_Run_def)
qed

text \<open>A database that was just opened on an empty log.\<close>

definition spec_init :: "u32 \<Rightarrow> db_spec" where
  "spec_init n = \<lparr>sp_count = 0, sp_log = [], sp_queues = replicate (unat n) []\<rparr>"

lemma DB_Init_implements:
  assumes "d_opened E = (fd, [])" "fd > 0" "d_ring_init E = 0" "memtable_N cfg \<noteq> 0"
  shows "\<exists>d. DB_Init E cfg (DB_ctor g gc) = Inr (True, d) \<and> implements d (spec_init (memtable_N cfg))"
proof -
  have queues: "map (\<lambda>i. bg_handle_vec (TaskWorker_make B w cfg b i)) xs = replicate (length xs) []" for B w b and xs :: "nat list"
    by (induction xs) (simp_all add: TaskWorker_make_def)
  have n: "0 < unat (memtable_N cfg)" using assms(4) by (simp add: unat_gt_0)
  then have pos: "0 < memtable_N cfg" by (simp add: word_less_nat_alt)
  define cact where "cact = Compactor_Init (d_u32 E) cfg (d_comp E)"
  obtain cact' where "Compactor_Run 0 (cact\<lparr>bg_comp_workers := map (\<lambda>x. SetCompactorRef True x
      \<lparr>shared_memtable_ref := True, memview_ref := True\<rparr>) (bg_comp_workers cact)\<rparr>) = Inr cact'"
    using Compactor_Run_ok by blast
  then show ?thesis
    using assms n pos
    by (simp add: DB_Init_def NewDBimp_def DB_ctor_def WalWriter_Init_opened SetCompWorkerCompactorRef_def
        SharedMemtable_Init_def SetSharedMemTableRef_def SetSharedMemTableViewSSRef_def SetMemTableViewRef_def
        SharedMemtable_Run_def sh_SetCompactorRef_def Let_def implements_def flip: cact_def)
      (simp add: spec_init_def
        WalLog_Init_file wal_log_ok_def wal_log_stream_def at_end_def queues comp_def)
qed

definition example_db_env :: "bytes list db_env" where
  "example_db_env = \<lparr>d_bt = sorted_list_set, d_hash = example_hashers, d_write = write_all, d_opened = (3, []),
     d_access = 0, d_ring_init = 0, d_base = 0, d_width = length,
     d_wal = \<lparr>wl_fd = 0, wl_file = \<lparr>of_content = [], of_pos = 0\<rparr>, wl_fullFilename = [], wl_fileName = [], wl_path = []\<rparr>,
     d_worker = example_task_worker 0 0,
     d_comp = \<lparr>cp_memtable_n = 0, task_workers_n = 0, cp_max_level_n = 0, cp_cur_version = 0, bg_comp_workers = [],
       sstable_manager = SSTableManager_ctor 0, current_comp_index = 0, cp_db_path = []\<rparr>,
     d_u32 = 0\<rparr>"

lemma length_set_log: "length (projr (SetContextWalLogFormat base c n)) = length (set_key c) + length (set_value c) + 25"
  by (simp add: SetContextWalLogFormat_eq set_record_def kFlagLogEnd_def)

section \<open>Properties\<close>

text \<open>Property C2. A database opened on an empty log implements the specification \<open>db_spec\<close>: as
  long as the records fit into the log and the kernel writes what it is given, every sequence of
  sets, gets, deletes and snapshots succeeds, the log holds the records of the writes in order
  and numbered from 0, and the queue of every shard holds exactly the requests for its keys,
  and every snapshot, in order.\<close>

theorem db_refines_spec:
  assumes "d_opened E = (fd, [])" "fd > 0" "d_ring_init E = 0" "memtable_N cfg \<noteq> 0" "d_write E = write_all"
    and "length (concat (sp_log (spec_ops E ops (spec_init (memtable_N cfg))))) < unat kDefaultWalLogSize"
  shows "\<exists>d0 d w sh. DB_Init E cfg (DB_ctor g gc) = Inr (True, d0) \<and> DB_ops E ops d0 = Inr d \<and>
    walLog d = Some w \<and> shared_memtable d = Some sh \<and>
    of_content (wl_file (wal_file w)) = concat (sp_log (spec_ops E ops (spec_init (memtable_N cfg)))) \<and>
    map bg_handle_vec (taskworkers sh) = sp_queues (spec_ops E ops (spec_init (memtable_N cfg))) \<and>
    wsn_getValue (global_number d) = of_nat (sp_count (spec_ops E ops (spec_init (memtable_N cfg))))"
proof -
  obtain d0 where d0: "DB_Init E cfg (DB_ctor g gc) = Inr (True, d0)" "implements d0 (spec_init (memtable_N cfg))"
    using DB_Init_implements [OF assms(1-4)] by blast
  then obtain d where "DB_ops E ops d0 = Inr d" "implements d (spec_ops E ops (spec_init (memtable_N cfg)))"
    using DB_ops_refines [OF _ assms(5,6)] by blast
  then show ?thesis
    using d0(1) by (auto simp: implements_def wal_log_stream_def wsn_getValue_def)
qed

theorem db_refines_spec_witness:
  "\<exists>d0 d w sh. DB_Init example_db_env example_config (DB_ctor 0 example_config) = Inr (True, d0) \<and>
    DB_ops example_db_env [OpSet (SetContext_ctor 0 [97] [1]), OpGet (GetContext_ctor 0 [97])] d0 = Inr d \<and>
    walLog d = Some w \<and> shared_memtable d = Some sh \<and>
    of_content (wl_file (wal_file w)) = projr (SetContextWalLogFormat 0 (SetContext_ctor 0 [97] [1]) 0) \<and>
    map bg_handle_vec (taskworkers sh) =
      [[], [SetTask (SetContext_ctor 0 [97] [1]), GetTask (GetContext_ctor 0 [97])]] \<and>
    wsn_getValue (global_number d) = 1"
proof -
  let ?ops = "[OpSet (SetContext_ctor 0 [97] [1]), OpGet (GetContext_ctor 0 [97])]"
  have "replicate 2 [] = [[], []]" by (simp add: numeral_2_eq_2)
  then have start: "spec_init (memtable_N example_config) = \<lparr>sp_count = 0, sp_log = [], sp_queues = [[], []]\<rparr>"
    by (simp add: spec_init_def example_config_def)
  have spec: "spec_ops example_db_env ?ops (spec_init (memtable_N example_config)) =
      \<lparr>sp_count = 1, sp_log = [projr (SetContextWalLogFormat 0 (SetContext_ctor 0 [97] [1]) 0)],
       sp_queues = [[], [SetTask (SetContext_ctor 0 [97] [1]), GetTask (GetContext_ctor 0 [97])]]\<rparr>"
    using start by (simp add: example_db_env_def enqueue_def log_write_def home_def example_hashers_def)
  have h: "d_opened example_db_env = (3, [])" "(3 :: int) > 0" "d_ring_init example_db_env = 0"
    "memtable_N example_config \<noteq> 0" "d_write example_db_env = write_all"
    by (simp_all add: example_db_env_def example_config_def)
  have len: "length (concat (sp_log (spec_ops example_db_env ?ops (spec_init (memtable_N example_config))))) <
      unat kDefaultWalLogSize"
    unfolding spec by (simp add: length_set_log SetContext_ctor_def kDefaultWalLogSize_def)
  show ?thesis
    using db_refines_spec [OF h len, of 0 example_config] unfolding spec by simp
qed

end
