(* ===== verification/Redis_Protocol.thy ===== *)
theory Redis_Protocol
  imports Prelude
begin

text \<open>
  The request parser of the server: \<open>src/server/redis_protocol.hpp\<close> and
  \<open>src/server/redis_protocol.cpp\<close>. A \<open>std::string_view\<close> of the result is either a literal
  or an offset and a length into the caller's buffer, whose contents are only read where the
  view is used. The loop counter is an \<open>int\<close>; the loop itself runs on fuel, so that a call
  that never returns is one for which no fuel is enough.
\<close>

section \<open>Data\<close>

definition kPingStr :: bytes where "kPingStr = [80, 73, 78, 71]"
definition kPongStr :: bytes where "kPongStr = [43, 80, 79, 78, 71]"
definition kOKStr :: bytes where "kOKStr = [43, 79, 75]"
definition kSetStr :: bytes where "kSetStr = [83, 69, 84]"
definition kGetStr :: bytes where "kGetStr = [71, 69, 84]"
definition kErrorStr :: bytes where "kErrorStr = [69, 114, 114, 111, 114]"
definition kOKReply :: bytes where "kOKReply = [43, 79, 75, 13, 10]"

text \<open>\<open>(error) ERR unknow command\<close> and a line feed; the DOCS requests of a client.\<close>

definition kErrorUnknowCommand :: bytes where
  "kErrorUnknowCommand = [40, 101, 114, 114, 111, 114, 41, 32, 69, 82, 82, 32, 117, 110, 107, 110,
     111, 119, 32, 99, 111, 109, 109, 97, 110, 100, 10]"

definition kCommandDocs :: bytes where
  "kCommandDocs = [42, 50, 13, 10, 36, 55, 13, 10, 67, 79, 77, 77, 65, 78, 68, 13, 10, 36, 52, 13,
     10, 68, 79, 67, 83, 13, 10]"

definition kCommandDocs_2 :: bytes where
  "kCommandDocs_2 = [42, 49, 13, 10, 36, 55, 13, 10, 67, 79, 77, 77, 65, 78, 68, 13, 10]"

datatype sview = Data nat nat | Lit bytes

fun sv_size :: "sview \<Rightarrow> nat" where
  "sv_size (Data p n) = n"
| "sv_size (Lit s) = length s"

fun sv_contents :: "bytes \<Rightarrow> sview \<Rightarrow> bytes res" where
  "sv_contents mem (Data p n) = view mem p n"
| "sv_contents mem (Lit s) = Inr s"

definition sv_eq :: "bytes \<Rightarrow> sview \<Rightarrow> bytes \<Rightarrow> bool res" where
  "sv_eq mem v lit =
     (if sv_size v \<noteq> length lit then Inr False
      else rbind (sv_contents mem v) (\<lambda>c. Inr (c = lit)))"

text \<open>\<open>v[0]\<close>.\<close>

fun sv_first :: "bytes \<Rightarrow> sview \<Rightarrow> u8 res" where
  "sv_first mem (Data p n) = rbind (guard (0 < n) OutOfBounds) (\<lambda>_. rd mem p)"
| "sv_first mem (Lit s) = rd s 0"

lemma sv_first_contents: "sv_contents mem v = Inr s \<Longrightarrow> sv_first mem v = rd s 0"
  by (cases v) (auto simp: view_def rd_def split: if_splits)

section \<open>The C++ library functions the parser uses\<close>

text \<open>\<open>std::from_chars\<close> to an \<open>int\<close>: the number is left alone when no digit follows or the
  value does not fit.\<close>

definition from_chars :: "bytes \<Rightarrow> int \<Rightarrow> int" where
  "from_chars s number =
     (let neg = (s \<noteq> [] \<and> hd s = 45);
          ds = takeWhile is_digit (if neg then tl s else s);
          v = (if neg then - int (dec_val ds) else int (dec_val ds))
      in if ds = [] \<or> v < - (2 ^ 31) \<or> 2 ^ 31 \<le> v then number else v)"

text \<open>\<open>arg_view.find(CRLF, i)\<close>.\<close>

definition find_crlf :: "bytes \<Rightarrow> nat \<Rightarrow> nat option" where
  "find_crlf s i = List.find (\<lambda>j. i \<le> j \<and> j + 1 < length s \<and> s ! j = 13 \<and> s ! (j + 1) = 10) [0..<length s]"

text \<open>Conversions to \<open>int\<close> and to \<open>size_t\<close>.\<close>

definition to_i32 :: "int \<Rightarrow> int" where
  "to_i32 x = (x + 2 ^ 31) mod 2 ^ 32 - 2 ^ 31"

definition to_size :: "int \<Rightarrow> nat" where
  "to_size x = nat (x mod 2 ^ 64)"

definition add_i32 :: "int \<Rightarrow> int \<Rightarrow> int res" where
  "add_i32 x y = (if - (2 ^ 31) \<le> x + y \<and> x + y < 2 ^ 31 then Inr (x + y) else Inl SignedOverflow)"

section \<open>The parser\<close>

datatype parse_out = Return "sview list" | Continue int "sview list"

definition simple_case :: "bytes \<Rightarrow> nat \<Rightarrow> sview list \<Rightarrow> parse_out res" where
  "simple_case s i result = (case find_crlf s i of
       None \<Rightarrow> Inr (Return (result @ [Lit kErrorStr]))
     | Some idx \<Rightarrow> Inr (Continue (to_i32 (int idx + 1)) (result @ [Data (i + 1) (to_size (int idx - int i))])))"

definition bulk_case :: "bytes \<Rightarrow> nat \<Rightarrow> sview list \<Rightarrow> parse_out res" where
  "bulk_case s i result = (case find_crlf s i of
       None \<Rightarrow> Inr (Return (result @ [Lit kErrorStr]))
     | Some idx \<Rightarrow>
         let number = from_chars (take (idx - i) (drop (i + 1) s)) 0;
             i = to_i32 (int idx);
             result = result @ [Data (nat (i + 2)) (to_size number)]
         in rbind (add_i32 i number) (\<lambda>i. Inr (Continue i result)))"

definition array_case :: "bytes \<Rightarrow> nat \<Rightarrow> sview list \<Rightarrow> parse_out res" where
  "array_case s i result = (case find_crlf s 0 of
       None \<Rightarrow> Inr (Return (result @ [Lit kErrorStr]))
     | Some idx \<Rightarrow> Inr (Continue (to_i32 (int idx + 1))
         (result @ [Data (i + 1) (to_size (int idx - int i - 1))])))"

definition parse_step :: "bytes \<Rightarrow> int \<Rightarrow> sview list \<Rightarrow> parse_out res" where
  "parse_step s i result =
     rbind (if i < 0 then Inl OutOfBounds else rd s (nat i)) (\<lambda>c.
       if c = 43 then simple_case s (nat i) result
       else if c = 45 then simple_case s (nat i) result
       else if c = 58 then simple_case s (nat i) result
       else if c = 36 then bulk_case s (nat i) result
       else if c = 42 then array_case s (nat i) result
       else Inr (Continue i result))"

fun parse_loop :: "nat \<Rightarrow> bytes \<Rightarrow> int \<Rightarrow> sview list \<Rightarrow> sview list res option" where
  "parse_loop 0 s i result = None"
| "parse_loop (Suc fuel) s i result =
     (if to_size i < length s then
        (case parse_step s i result of
           Inl e \<Rightarrow> Some (Inl e)
         | Inr (Return result) \<Rightarrow> Some (Inr result)
         | Inr (Continue i result) \<Rightarrow>
             (case add_i32 i 1 of Inl e \<Rightarrow> Some (Inl e) | Inr i \<Rightarrow> parse_loop fuel s i result))
      else Some (Inr result))"

definition parseRedisProtocol :: "nat \<Rightarrow> bytes \<Rightarrow> sview list res option" where
  "parseRedisProtocol fuel s =
     (if s = kPingStr then Some (Inr [Lit kPingStr]) else parse_loop fuel s 0 [])"

text \<open>\<open>check\<close> may drop the first view. The end of the view, \<open>data() + size()\<close>, is formed only when the view starts with a
  digit.\<close>

definition check :: "bytes \<Rightarrow> sview list \<Rightarrow> (bool \<times> sview list) res" where
  "check mem vec_view =
     (if vec_view = [] then Inr (False, vec_view)
      else let first_view = hd vec_view in
        rbind (sv_eq mem first_view kPingStr) (\<lambda>ping.
        if ping then Inr (True, vec_view)
        else rbind (sv_first mem first_view) (\<lambda>c.
          if 48 \<le> c \<and> c \<le> 57 then
            rbind (sv_contents mem first_view) (\<lambda>txt.
            let command_n = from_chars txt 0 in
            if to_size command_n \<noteq> length vec_view then Inr (False, vec_view)
            else Inr (True, tl vec_view))
          else Inr (True, vec_view))))"

section \<open>Lemmas on numbers and line ends\<close>

lemma not_digit_cr [simp]: "\<not> is_digit 13" by (simp add: is_digit_def)

lemma from_chars_dec:
  assumes "n < 2 ^ 31"
  shows "from_chars (dec n @ 13 # s) x = int n" "from_chars (dec n) x = int n"
proof -
  have "hd (dec n) \<noteq> 45"
    using dec_digits [of "hd (dec n)" n] by (auto simp: is_digit_def)
  moreover have "takeWhile is_digit (dec n @ 13 # s) = dec n" and all: "takeWhile is_digit (dec n) = dec n"
    using dec_digits [of _ n] by (simp_all add: takeWhile_append2 takeWhile_eq_all_conv)
  ultimately show "from_chars (dec n @ 13 # s) x = int n" "from_chars (dec n) x = int n"
    using assms by (simp_all add: from_chars_def Let_def all del: takeWhile_eq_all_conv)
qed

lemma find_crlf_append:
  assumes "i = length pre" and "13 \<notin> set mid"
  shows "find_crlf (pre @ mid @ 13 # 10 # post) i = Some (i + length mid)"
proof -
  let ?s = "pre @ mid @ 13 # 10 # post"
  have no: "\<not> (i \<le> j \<and> ?s ! j = 13)" if "j < length pre + length mid" for j
    using that assms by (auto simp: nth_append) (metis nth_mem)
  show ?thesis
    unfolding find_crlf_def find_Some_iff
  proof (intro exI [of _ "length pre + length mid"] conjI allI impI)
    fix j
    assume j: "j < length pre + length mid"
    then have eq: "[0..<length ?s] ! j = j" by (simp del: upt_Suc)
    show "\<not> (i \<le> [0..<length ?s] ! j \<and> [0..<length ?s] ! j + 1 < length ?s \<and>
        ?s ! ([0..<length ?s] ! j) = 13 \<and> ?s ! ([0..<length ?s] ! j + 1) = 10)"
      unfolding eq using no [OF j] by blast
  qed (use assms in \<open>auto simp: nth_append simp del: upt_Suc\<close>)
qed

lemma to_size_nat [simp]: "to_size (int n) = n mod 2 ^ 64"
  by (simp add: to_size_def nat_mod_distrib)

lemma to_i32_small: "- (2 ^ 31) \<le> x \<Longrightarrow> x < 2 ^ 31 \<Longrightarrow> to_i32 x = x"
  by (simp add: to_i32_def)

section \<open>RESP arrays of bulk strings\<close>

definition special :: "u8 \<Rightarrow> bool" where
  "special c \<longleftrightarrow> c \<in> {43, 45, 58, 36, 42}"

definition resp_bulk :: "bytes \<Rightarrow> bytes" where
  "resp_bulk a = 36 # dec (length a) @ 13 # 10 # a @ [13, 10]"

text \<open>An array announced with \<open>n\<close> elements; a well-formed one announces what it has.\<close>

definition resp_counted :: "nat \<Rightarrow> bytes list \<Rightarrow> bytes" where
  "resp_counted n args = 42 # dec n @ 13 # 10 # concat (map resp_bulk args)"

definition resp_array :: "bytes list \<Rightarrow> bytes" where
  "resp_array args = resp_counted (length args) args"

text \<open>The parser looks at the last character of a bulk string again.\<close>

definition plain_arg :: "bytes \<Rightarrow> bool" where
  "plain_arg a \<longleftrightarrow> a = [] \<or> \<not> special (last a)"

lemma parse_plain:
  assumes "n < length s" and "\<not> special (s ! n)" and "length s < 2 ^ 31"
  shows "parse_loop (Suc fuel) s (int n) r = parse_loop fuel s (int (Suc n)) r"
  using assms by (simp add: parse_step_def special_def add_i32_def add.commute)

text \<open>One bulk string takes three turns of the loop, and one more for its line feed.\<close>

definition bulk_cr :: "bytes \<Rightarrow> bytes" where
  "bulk_cr a = 36 # dec (length a) @ 13 # 10 # a @ [13]"

lemma resp_bulk_cr: "resp_bulk a = bulk_cr a @ [10]"
  by (simp add: resp_bulk_def bulk_cr_def)

lemma parse_bulk_cr:
  assumes s: "s = pre @ bulk_cr a @ post" and "length s < 2 ^ 31" and "plain_arg a"
  shows "parse_loop (fuel + 3) s (int (length pre)) r =
    parse_loop fuel s (int (length (pre @ bulk_cr a)))
      (r @ [Data (length pre + length (dec (length a)) + 3) (length a)])"
proof -
  define idx where "idx = Suc (length pre + length (dec (length a)))"
  have s': "s = pre @ (36 # dec (length a)) @ 13 # 10 # a @ 13 # post"
    using s by (simp add: bulk_cr_def)
  have len: "length s = idx + length a + 3 + length post" by (simp add: s' idx_def)
  have "13 \<notin> set (36 # dec (length a))" using dec_digits by fastforce
  then have find: "find_crlf s (length pre) = Some idx"
    unfolding s' by (subst find_crlf_append) (simp_all add: idx_def)
  have "take (idx - length pre) (drop (length pre + 1) s) = dec (length a) @ [13]"
    by (simp add: s' idx_def)
  then have num: "from_chars (take (idx - length pre) (drop (length pre + 1) s)) 0 = int (length a)"
    using assms(2) len by (simp add: from_chars_dec)
  have dollar: "s ! length pre = 36" "length pre < length s" by (simp_all add: s')
  have small: "length a < 2 ^ 31" "int idx + int (length a) + 1 < 2 ^ 31" using assms(2) len by simp_all
  have "parse_step s (int (length pre)) r =
      Inr (Continue (int idx + int (length a)) (r @ [Data (idx + 2) (length a)]))"
    using small num
    by (simp add: parse_step_def dollar bulk_case_def find Let_def add_i32_def to_i32_small nat_add_distrib)
  then have 1: "parse_loop (Suc (Suc (Suc fuel))) s (int (length pre)) r =
      parse_loop (Suc (Suc fuel)) s (int (idx + length a + 1)) (r @ [Data (idx + 2) (length a)])"
    using small assms(2) len by (simp add: add_i32_def idx_def)
  have at: "s ! (idx + length a + 2) = 13" by (simp add: s' idx_def nth_append)
  have "\<not> special (s ! (idx + length a + 1))"
  proof (cases a rule: rev_cases)
    case Nil
    then show ?thesis by (simp add: s' idx_def nth_append special_def)
  next
    case (snoc b c)
    then have "s ! (idx + length a + 1) = c" by (simp add: s' idx_def nth_append)
    then show ?thesis using assms(3) snoc by (simp add: plain_arg_def)
  qed
  note 2 = parse_plain [OF _ this assms(2)]
  have "\<not> special (s ! (idx + length a + 2))" unfolding at by (simp add: special_def)
  note 3 = parse_plain [OF _ this assms(2)]
  have end_pos: "length (pre @ bulk_cr a) = Suc (idx + length a + 2)" by (simp add: bulk_cr_def idx_def)
  have f3: "fuel + 3 = Suc (Suc (Suc fuel))" by simp
  have Data: "Data (length pre + length (dec (length a)) + 3) (length a) = Data (idx + 2) (length a)"
    by (simp add: idx_def)
  show ?thesis
    unfolding f3 end_pos Data 1 using 2 3 len by (simp add: numeral_eq_Suc del: parse_loop.simps)
qed

lemma parse_bulk:
  assumes s: "s = pre @ resp_bulk a @ post" and "length s < 2 ^ 31" and "plain_arg a"
  shows "parse_loop (fuel + 4) s (int (length pre)) r =
    parse_loop fuel s (int (length (pre @ resp_bulk a)))
      (r @ [Data (length pre + length (dec (length a)) + 3) (length a)])"
proof -
  have s': "s = pre @ bulk_cr a @ 10 # post" using s by (simp add: resp_bulk_cr)
  have f: "fuel + 4 = Suc fuel + 3" by simp
  have "parse_loop (Suc fuel) s (int (length (pre @ bulk_cr a))) r' =
      parse_loop fuel s (int (Suc (length (pre @ bulk_cr a)))) r'" for r'
    by (rule parse_plain) (use assms(2) in \<open>simp_all add: s' nth_append special_def\<close>)
  then show ?thesis
    unfolding f parse_bulk_cr [OF s' assms(2,3)] by (simp add: resp_bulk_cr del: parse_loop.simps)
qed

fun bulk_views :: "nat \<Rightarrow> bytes list \<Rightarrow> sview list" where
  "bulk_views p [] = []"
| "bulk_views p (a # as) =
     Data (p + length (dec (length a)) + 3) (length a) # bulk_views (p + length (resp_bulk a)) as"

lemma length_bulk_views [simp]: "length (bulk_views p as) = length as"
  by (induction p as rule: bulk_views.induct) simp_all

lemma bulk_views_contents:
  "map (sv_contents (pre @ concat (map resp_bulk as) @ post)) (bulk_views (length pre) as) = map Inr as"
proof (induction as arbitrary: pre)
  case (Cons a as)
  have "view (pre @ resp_bulk a @ concat (map resp_bulk as) @ post)
      (length pre + length (dec (length a)) + 3) (length a) = Inr a"
    by (simp add: view_def resp_bulk_def numeral_3_eq_3)
  then show ?case
    using Cons.IH [of "pre @ resp_bulk a"] by simp
qed simp

lemma parse_bulks:
  assumes "length (pre @ concat (map resp_bulk as) @ post) < 2 ^ 31" and "list_all plain_arg as"
  shows "parse_loop (fuel + 4 * length as) (pre @ concat (map resp_bulk as) @ post) (int (length pre)) r =
    parse_loop fuel (pre @ concat (map resp_bulk as) @ post)
      (int (length (pre @ concat (map resp_bulk as)))) (r @ bulk_views (length pre) as)"
  using assms
proof (induction as arbitrary: pre r)
  case (Cons a as)
  let ?s = "pre @ concat (map resp_bulk (a # as)) @ post"
  have fuel: "fuel + 4 * length (a # as) = (fuel + 4 * length as) + 4" by simp
  have 1: "?s = pre @ resp_bulk a @ (concat (map resp_bulk as) @ post)" by simp
  from parse_bulk [OF 1] Cons.prems
  have "parse_loop (fuel + 4 * length (a # as)) ?s (int (length pre)) r =
    parse_loop (fuel + 4 * length as) ?s (int (length (pre @ resp_bulk a)))
      (r @ [Data (length pre + length (dec (length a)) + 3) (length a)])"
    unfolding fuel by simp
  then show ?case
    using Cons.IH [of "pre @ resp_bulk a"] Cons.prems by simp
qed simp

lemma parse_header:
  assumes "s = resp_counted n as @ post" and "length s < 2 ^ 31"
  shows "parse_step s 0 r = Inr (Continue (int (length (dec n)) + 2) (r @ [Data 1 (length (dec n))]))"
    and "\<And>q r. q < length s \<Longrightarrow> s ! q = 42 \<Longrightarrow>
      \<exists>v. parse_step s (int q) r = Inr (Continue (int (length (dec n)) + 2) (r @ [v]))"
proof -
  have s: "s = [] @ (42 # dec n) @ 13 # 10 # concat (map resp_bulk as) @ post"
    using assms(1) by (simp add: resp_counted_def)
  have len: "length (dec n) + 3 < 2 ^ 31" using assms(2) by (simp add: s)
  have "13 \<notin> set (42 # dec n)" using dec_digits by fastforce
  then have find: "find_crlf s 0 = Some (Suc (length (dec n)))"
    unfolding s by (subst find_crlf_append) simp_all
  have i: "to_i32 (int (Suc (length (dec n))) + 1) = int (length (dec n)) + 2"
    using len by (simp add: to_i32_small)
  have n: "to_size (int (Suc (length (dec n))) - int 0 - 1) = length (dec n)"
    using len by simp
  have "s ! 0 = 42" "0 < length s" by (simp_all add: s)
  then show "parse_step s 0 r = Inr (Continue (int (length (dec n)) + 2) (r @ [Data 1 (length (dec n))]))"
    using find i n by (simp add: parse_step_def array_case_def)
  show "\<exists>v. parse_step s (int q) r = Inr (Continue (int (length (dec n)) + 2) (r @ [v]))"
    if "q < length s" "s ! q = 42" for q r
    using that find i by (simp add: parse_step_def array_case_def)
qed

lemma parse_array:
  assumes "s = resp_counted n as @ post" and "length s < 2 ^ 31" and "list_all plain_arg as"
  shows "parse_loop (fuel + 4 * length as) s (int (length (dec n) + 3)) r =
    parse_loop fuel s (int (length (resp_counted n as))) (r @ bulk_views (length (dec n) + 3) as)"
  using parse_bulks [of "42 # dec n @ [13, 10]" as post fuel r] assms
  by (simp add: resp_counted_def numeral_3_eq_3 add_ac)

lemma parse_start:
  assumes "s = resp_counted n as @ post" and "length s < 2 ^ 31"
  shows "parseRedisProtocol (Suc k) s = parse_loop k s (int (length (dec n) + 3)) [Data 1 (length (dec n))]"
proof -
  have "s \<noteq> kPingStr" "s \<noteq> []" by (simp_all add: assms(1) resp_counted_def kPingStr_def)
  moreover have "int (length (dec n)) + 3 < 2 ^ 31" using assms by (simp add: resp_counted_def)
  ultimately show ?thesis
    using parse_header(1) [OF assms, of "[]"]
    by (simp add: parseRedisProtocol_def add_i32_def to_size_def add.commute)
qed

lemma parse_counted:
  assumes "length (resp_counted n as) < 2 ^ 31" and "list_all plain_arg as" and "4 * length as + 2 \<le> fuel"
  shows "parseRedisProtocol fuel (resp_counted n as) =
    Some (Inr (Data 1 (length (dec n)) # bulk_views (length (dec n) + 3) as))"
proof -
  let ?s = "resp_counted n as"
  obtain f where fuel: "fuel = Suc (Suc f + 4 * length as)"
    using assms(3) by (metis add.commute add_2_eq_Suc le_Suc_ex plus_nat.simps(2))
  have "parseRedisProtocol fuel ?s = parse_loop (Suc f + 4 * length as) ?s (int (length (dec n) + 3)) [Data 1 (length (dec n))]"
    unfolding fuel by (rule parse_start [of _ _ as "[]"]) (use assms(1) in simp_all)
  also have "\<dots> = Some (Inr (Data 1 (length (dec n)) # bulk_views (length (dec n) + 3) as))"
    using parse_array [of ?s n as "[]" "Suc f"] assms(1,2) by simp
  finally show ?thesis .
qed

text \<open>The line feed at the end of a request does not matter.\<close>

lemma bulk_views_append:
  "bulk_views p (as @ bs) = bulk_views p as @ bulk_views (p + length (concat (map resp_bulk as))) bs"
  by (induction p as rule: bulk_views.induct) (simp_all add: add.assoc)

lemma parse_counted_cut:
  assumes "length (resp_counted n as) < 2 ^ 31" and "list_all plain_arg as" and "as \<noteq> []" and "4 * length as + 2 \<le> fuel"
  shows "parseRedisProtocol fuel (butlast (resp_counted n as)) =
    Some (Inr (Data 1 (length (dec n)) # bulk_views (length (dec n) + 3) as))"
proof -
  obtain bs b where as: "as = bs @ [b]" using assms(3) by (metis append_butlast_last_id)
  let ?pre = "42 # dec n @ 13 # 10 # concat (map resp_bulk bs)"
  let ?s = "resp_counted n bs @ bulk_cr b"
  have cut: "butlast (resp_counted n as) = ?s"
    by (simp add: as resp_counted_def resp_bulk_cr butlast_append)
  have len: "length ?s < 2 ^ 31" using assms(1) by (simp add: as resp_counted_def resp_bulk_cr)
  obtain f where fuel: "fuel = Suc ((Suc f + 3) + 4 * length bs)"
    using assms(4) by (auto simp: as le_iff_add)
  have "parseRedisProtocol fuel ?s =
      parse_loop ((Suc f + 3) + 4 * length bs) ?s (int (length (dec n) + 3)) [Data 1 (length (dec n))]"
    unfolding fuel by (rule parse_start [OF refl len])
  also have "\<dots> = parse_loop (Suc f + 3) ?s (int (length (resp_counted n bs)))
      (Data 1 (length (dec n)) # bulk_views (length (dec n) + 3) bs)"
    using parse_array [of ?s n bs "bulk_cr b" "Suc f + 3"] len assms(2) by (simp add: as del: parse_loop.simps)
  also have "\<dots> = Some (Inr (Data 1 (length (dec n)) # bulk_views (length (dec n) + 3) as))"
  proof -
    have b: "?s = resp_counted n bs @ bulk_cr b @ []" "plain_arg b" using assms(2) by (simp_all add: as)
    have pos: "length (resp_counted n bs) = length (dec n) + 3 + length (concat (map resp_bulk bs))"
      by (simp add: resp_counted_def)
    have "to_size (int (length ?s)) = length ?s" unfolding to_size_nat using len by simp
    then have "parse_loop (Suc f) ?s (int (length ?s)) r = Some (Inr r)" for r by simp
    then show ?thesis
      unfolding parse_bulk_cr [OF b(1) len b(2)] by (simp add: as bulk_views_append pos del: parse_loop.simps)
  qed
  finally show ?thesis by (simp add: cut)
qed

lemma counted_contents:
  "map (sv_contents (resp_counted n as @ post)) (Data 1 (length (dec n)) # bulk_views (length (dec n) + 3) as) =
    map Inr (dec n # as)"
  using bulk_views_contents [of "42 # dec n @ [13, 10]" as post]
  by (simp add: resp_counted_def view_def numeral_3_eq_3)

lemma length_args_le: "length args \<le> length (concat (map resp_bulk args))"
  by (induction args) (simp_all add: resp_bulk_def)

lemma check_counted:
  assumes "n < 2 ^ 31" and "vs = Data 1 (length (dec n)) # bulk_views (length (dec n) + 3) args"
    and "length args < 2 ^ 32"
  shows "check (resp_counted n args @ post) vs =
    Inr (if n = length args + 1 then (True, tl vs) else (False, vs))"
proof -
  have body: "sv_contents (resp_counted n args @ post) (Data 1 (length (dec n))) = Inr (dec n)"
    using counted_contents [of n args post] by simp
  have digit: "48 \<le> dec n ! 0" "dec n ! 0 \<le> 57"
    using dec_digits [of "dec n ! 0" n] by (simp_all add: is_digit_def)
  have "dec n \<noteq> kPingStr"
  proof
    assume "dec n = kPingStr"
    then have "is_digit 80" using dec_digits [of 80 n] by (simp add: kPingStr_def)
    then show False by (simp add: is_digit_def)
  qed
  then have "sv_eq (resp_counted n args @ post) (Data 1 (length (dec n))) kPingStr = Inr False"
    unfolding sv_eq_def body by simp
  then show ?thesis
    using digit assms(1,3) body sv_first_contents [OF body] unfolding check_def assms(2)
    by (simp add: from_chars_dec del: sv_contents.simps sv_first.simps)
qed

lemma parse_loop_mono: "parse_loop fuel s i r = Some x \<Longrightarrow> parse_loop (fuel + k) s i r = Some x"
  by (induction fuel s i r rule: parse_loop.induct) (auto split: if_splits sum.splits parse_out.splits)

text \<open>A loop that comes back to the same position after a fixed number of turns never returns.\<close>

lemma parse_cycle:
  assumes cycle: "\<And>fuel r. \<exists>r'. parse_loop (fuel + Suc k) s i r = parse_loop fuel s i r'"
  shows "parse_loop fuel s i r = None"
proof (induction fuel arbitrary: r rule: less_induct)
  case (less fuel)
  show ?case
  proof (cases "fuel \<le> k")
    case True
    obtain r' where "parse_loop (0 + Suc k) s i r = parse_loop 0 s i r'" using cycle by blast
    then have none: "parse_loop (fuel + (Suc k - fuel)) s i r = None"
      using True by (simp only: add_0 parse_loop.simps le_add_diff_inverse le_SucI)
    then show ?thesis
      using parse_loop_mono [of fuel s i r _ "Suc k - fuel"] by (metis not_Some_eq)
  next
    case False
    then have f: "fuel = (fuel - Suc k) + Suc k" "fuel - Suc k < fuel" by simp_all
    obtain r' where "parse_loop fuel s i r = parse_loop (fuel - Suc k) s i r'"
      using cycle [of "fuel - Suc k" r] f(1) by metis
    then show ?thesis using less [OF f(2)] by simp
  qed
qed

section \<open>Properties\<close>

text \<open>Property C22. A RESP array of bulk strings none of which ends in one of the five marker
  characters is parsed to its element count and its elements, with four turns of the loop
  per element.\<close>

theorem resp_round_trip:
  assumes "length (resp_array args) < 2 ^ 31" and "list_all plain_arg args"
    and "4 * length args + 2 \<le> fuel"
  shows "\<exists>vs. parseRedisProtocol fuel (resp_array args) = Some (Inr vs) \<and>
    map (sv_contents (resp_array args)) vs = map Inr (dec (length args) # args)"
  using parse_counted [of "length args" args fuel] counted_contents [of "length args" args "[]"] assms
  by (simp add: resp_array_def)

theorem resp_round_trip_witness:
  "\<exists>vs. parseRedisProtocol 10 (resp_array [kGetStr, [107]]) = Some (Inr vs) \<and>
    map (sv_contents (resp_array [kGetStr, [107]])) vs = map Inr [[50], kGetStr, [107]]"
proof -
  have "length (resp_array [kGetStr, [107]]) < 2 ^ 31" "list_all plain_arg [kGetStr, [107]]"
    by (simp_all add: resp_array_def resp_counted_def resp_bulk_def kGetStr_def plain_arg_def special_def
        dec.simps)
  moreover have "dec (length [kGetStr, [107]]) = [50]" by (simp add: dec.simps)
  ultimately show ?thesis using resp_round_trip [of "[kGetStr, [107]]" 10] by simp
qed

text \<open>\<open>check\<close> compares the announced count with the number of views, which includes
  the count itself: an array is accepted exactly when it announces one element more than it
  has, so every well-formed request is rejected.\<close>

lemma check_rejects_arrays:
  assumes "length (resp_counted n args) < 2 ^ 31" and "list_all plain_arg args" and "n < 2 ^ 31"
    and "parseRedisProtocol fuel (resp_counted n args) = Some (Inr vs)" and "4 * length args + 2 \<le> fuel"
  shows "check (resp_counted n args) vs =
    Inr (if n = length args + 1 then (True, tl vs) else (False, vs))"
proof -
  have vs: "vs = Data 1 (length (dec n)) # bulk_views (length (dec n) + 3) args"
    using parse_counted [OF assms(1,2,5)] assms(4) by simp
  have "length args < 2 ^ 32" using assms(1) length_args_le [of args] by (simp add: resp_counted_def)
  then show ?thesis using check_counted [OF assms(3) vs, of "[]"] by simp
qed

text \<open>Property C32. The line end of an array header is searched from the start of the buffer. When a
  second array follows a first one, whose arguments do not end in a marker character, in the same buffer of less than
  2 GiB, the parser goes back behind the first header and never returns, growing its result.\<close>

theorem pipelined_requests_never_return:
  assumes "length (resp_array args @ 42 # rest) < 2 ^ 31" and "list_all plain_arg args"
  shows "parseRedisProtocol fuel (resp_array args @ 42 # rest) = None"
proof -
  define n s p where "n = length args" and "s = resp_array args @ 42 # rest" and "p = length (dec n) + 3"
  have s: "s = resp_counted n args @ 42 # rest" and len: "length s < 2 ^ 31"
    using assms(1) by (simp_all add: s_def resp_array_def n_def)
  have p: "int p < 2 ^ 31 - 1" using len by (simp add: s p_def resp_counted_def)
  have turn: "\<exists>r'. parse_loop (fuel + Suc (4 * length args)) s (int p) r = parse_loop fuel s (int p) r'" for fuel r
  proof -
    let ?q = "length (resp_counted n args)"
    have "?q < length s" "s ! ?q = 42" by (simp_all add: s)
    from parse_header(2) [OF s len this] obtain v where
      "parse_step s (int ?q) (r @ bulk_views p args) =
        Inr (Continue (int (length (dec n)) + 2) ((r @ bulk_views p args) @ [v]))"
      by blast
    then have "parse_loop (Suc fuel) s (int ?q) (r @ bulk_views p args) =
        parse_loop fuel s (int p) ((r @ bulk_views p args) @ [v])"
      using p len by (simp add: add_i32_def p_def s add_ac)
    then show ?thesis
      using parse_array [OF s len assms(2), of "Suc fuel" r] by (auto simp: p_def)
  qed
  note loop = parse_cycle [OF turn]
  have "s \<noteq> kPingStr" by (simp add: s resp_counted_def kPingStr_def)
  moreover have "parse_loop (Suc f) s 0 [] = parse_loop f s (int p) [Data 1 (length (dec n))]" for f
    using parse_header(1) [OF s len, of "[]"] p
    by (simp add: add_i32_def p_def to_size_def s resp_counted_def add.commute)
  then have "parse_loop fuel s 0 [] = None"
    using loop by (cases fuel) simp_all
  ultimately show ?thesis by (simp add: parseRedisProtocol_def s_def)
qed

theorem pipelined_requests_never_return_witness:
  "\<forall>fuel. parseRedisProtocol fuel (resp_array [kGetStr, [107]] @ resp_array [kPingStr]) = None"
  using pipelined_requests_never_return [of "[kGetStr, [107]]" "tl (resp_array [kPingStr])"]
  by (simp add: resp_array_def resp_counted_def resp_bulk_def kGetStr_def kPingStr_def plain_arg_def
      special_def dec.simps)

end
