(* ===== verification/Server.thy ===== *)
theory Server
  imports Export_Db Redis_Protocol Logging
begin

text \<open>
  The network front end: \<open>src/server/server.cpp\<close>. The handler of readable connections takes
  what the connection's input buffer holds, parses it in place and answers. libevent's
  \<open>evbuffer_remove\<close> is a parameter, \<open>ev_documented\<close> states what its documentation promises; what a
  handler sends is the list of messages it returns. \<open>Server\<close> has a database but never calls
  its \<open>Init\<close>.
\<close>

section \<open>The server\<close>

record ServerConfig =
  sc_logpath :: bytes
  sc_logLev :: int
  sc_isSync :: bool
  sc_log_name :: bytes
  sc_log_buf_size :: u32
  sc_listen_port :: u32

record 't Server =
  srv_buf :: Buffer
  srv_db :: "'t DB"
  srv_listening :: bool

definition Server_ctor :: "u64 \<Rightarrow> DBConfig \<Rightarrow> 't Server" where
  "Server_ctor garbage g_config =
     \<lparr>srv_buf = Buffer_ctor 1024, srv_db = DB_ctor garbage g_config, srv_listening = False\<rparr>"

text \<open>
  The configuration: \<open>src/server/configparse.cpp\<close>. The document is what the YAML library reads;
  the size of the log buffer is a decimal number followed by a unit of two characters.
\<close>

record yaml_doc =
  y_log_path :: bytes
  y_log_lev :: bytes
  y_log_name :: bytes
  y_log_issync :: bool
  y_listen_port :: u32
  y_log_buf_size :: bytes

definition kLog_STD_OUT :: bytes where "kLog_STD_OUT = [83, 84, 68, 95, 79, 85, 84]"
definition kLog_Info :: bytes where "kLog_Info = [73, 110, 102, 111]"
definition kLog_Trace :: bytes where "kLog_Trace = [84, 114, 97, 99, 101]"
definition kLog_Debug :: bytes where "kLog_Debug = [68, 101, 98, 117, 103]"
definition kLog_Error :: bytes where "kLog_Error = [69, 114, 114, 111, 114]"

definition from_chars_u32 :: "bytes \<Rightarrow> u32 \<Rightarrow> u32" where
  "from_chars_u32 s old =
     (let ds = takeWhile is_digit s in if ds = [] \<or> dec_val ds \<ge> 2 ^ 32 then old else of_nat (dec_val ds))"

definition ConfigParse :: "yaml_doc \<Rightarrow> ServerConfig \<Rightarrow> (bool \<times> ServerConfig) res" where
  "ConfigParse y config =
     (let config = config\<lparr>sc_logpath := y_log_path y\<rparr>;
          rest = (\<lambda>config.
            let config = config\<lparr>sc_log_name := y_log_name y, sc_isSync := y_log_issync y, sc_listen_port := y_listen_port y\<rparr>;
                s = y_log_buf_size y in
            rbind (guard (2 \<le> length s) OutOfBounds) (\<lambda>_.
            let n = from_chars_u32 (take (length s - 2) s) (sc_log_buf_size config) in
            Inr (True, config\<lparr>sc_log_buf_size := n * 1024 * 1024\<rparr>))) in
      if y_log_lev y = kLog_Info then rest (config\<lparr>sc_logLev := level_int kInfo\<rparr>)
      else if y_log_lev y = kLog_Trace then rest (config\<lparr>sc_logLev := level_int kTrace\<rparr>)
      else if y_log_lev y = kLog_Debug then rest (config\<lparr>sc_logLev := level_int kDebug\<rparr>)
      else if y_log_lev y = kLog_Error then rest (config\<lparr>sc_logLev := level_int kError\<rparr>)
      else if y_log_lev y = kLog_STD_OUT then rest (config\<lparr>sc_logLev := -1\<rparr>)
      else Inr (False, config\<lparr>sc_logLev := level_int kInfo\<rparr>))"

text \<open>Only the log and the listener are initialised; whether the listener could be set up is the
  answer of the network library.\<close>

definition Server_Init ::
  "(u64 \<Rightarrow> tm) \<Rightarrow> int \<Rightarrow> bool \<Rightarrow> TimeStamp \<Rightarrow> bool \<Rightarrow> ServerConfig \<Rightarrow> LogThread \<Rightarrow> 't Server \<Rightarrow>
   (bool \<times> LogThread \<times> 't Server) res" where
  "Server_Init gmtime rand opens now net_ok conf logthread srv =
     rbind (if sc_logLev conf \<noteq> -1 then
              LogThread_Init gmtime rand opens now (sc_logpath conf) (sc_logLev conf) (sc_isSync conf) (sc_log_name conf)
                kDefaultMaxLogBufSize logthread
            else Inr logthread) (\<lambda>logthread.
       Inr (net_ok, logthread, srv\<lparr>srv_listening := net_ok\<rparr>))"

type_synonym ev_remove = "bytes \<Rightarrow> nat \<Rightarrow> int \<times> bytes \<times> bytes"

definition ev_documented :: "ev_remove \<Rightarrow> bool" where
  "ev_documented rem \<longleftrightarrow> (\<forall>pending n. rem pending n = (int (min n (length pending)), take n pending, drop n pending))"

text \<open>\<open>moveEvReadBuffer\<close> into the server's buffer: the data, its size and what is left.\<close>

definition moveEvReadBuffer :: "ev_remove \<Rightarrow> bytes \<Rightarrow> Buffer \<Rightarrow> (int \<times> Buffer \<times> bytes) res" where
  "moveEvReadBuffer rem pending b =
     (let (sz, data, rest) = rem pending (unat (buflen b)) in
      rbind (buf_memcpy b (unat (offset b)) data) (\<lambda>b. Inr (sz, b, rest)))"

text \<open>Up to parsing: the buffer, the text read, the size without a final line feed.\<close>

definition read_request :: "ev_remove \<Rightarrow> bytes \<Rightarrow> Buffer \<Rightarrow> (Buffer \<times> bytes \<times> int \<times> bytes) res" where
  "read_request rem pending b =
     rbind (moveEvReadBuffer rem pending b) (\<lambda>(sz, b, rest).
     let b = b\<lparr>offset := offset b + of_int sz\<rparr> in
     rbind (view (bufptr b) 0 (unat (offset b))) (\<lambda>read_str_view.
     rbind (if sz < 1 then Inl OutOfBounds else rd (bufptr b) (nat (sz - 1))) (\<lambda>c.
       Inr (b, read_str_view, if c = 10 then sz - 1 else sz, rest))))"

text \<open>\<open>(error) ERR unknow command '{}'\<close> and a line feed.\<close>

definition error_reply :: "bytes \<Rightarrow> bytes" where
  "error_reply cmd = [40, 101, 114, 114, 111, 114, 41, 32, 69, 82, 82, 32, 117, 110, 107, 110,
     111, 119, 32, 99, 111, 109, 109, 97, 110, 100, 32, 39] @ cmd @ [39, 10]"

definition get_reply :: "GetContext \<Rightarrow> bytes" where
  "get_reply g = [36] @ dec (length (get_key g)) @ [13, 10] @ get_key g @ [13, 10]"

text \<open>
  A request that passed \<open>check\<close>. The status of a queued request is read at once, so it is what
  the worker's thread made of the context until then: \<open>set_seen\<close> and \<open>get_seen\<close>.
\<close>

record 't srv_env =
  s_db :: "'t db_env"
  s_number :: u64
  set_seen :: "SetContext \<Rightarrow> SetContext"
  get_seen :: "GetContext \<Rightarrow> GetContext"

definition arg :: "bytes \<Rightarrow> sview list \<Rightarrow> nat \<Rightarrow> bytes res" where
  "arg mem result i = rbind (rd result i) (sv_contents mem)"

definition execute :: "'t srv_env \<Rightarrow> bytes \<Rightarrow> sview list \<Rightarrow> 't Server \<Rightarrow> ('t Server \<times> bytes list) res" where
  "execute E mem result srv =
     rbind (rd result 0) (\<lambda>first.
     rbind (sv_eq mem first kPingStr) (\<lambda>ping.
     if ping then Inr (srv, [kPongStr])
     else rbind (sv_eq mem first kSetStr) (\<lambda>is_set.
     if is_set then
       rbind (arg mem result 1) (\<lambda>key.
       rbind (arg mem result 2) (\<lambda>value.
       let set_context = SetContext_ctor (s_number E) key value in
       rbind (DB_Set (s_db E) set_context (srv_db srv)) (\<lambda>db.
         Inr (srv\<lparr>srv_db := db\<rparr>, if getCode (set_code (set_seen E set_context)) = kOk then [kOKReply] else []))))
     else rbind (sv_eq mem first kGetStr) (\<lambda>is_get.
     if is_get then
       rbind (arg mem result 1) (\<lambda>key.
       let get_context = GetContext_ctor (s_number E) key in
       rbind (DB_Get (s_db E) get_context (srv_db srv)) (\<lambda>db.
         let g = get_seen E get_context in
         Inr (srv\<lparr>srv_db := db\<rparr>, if getCode (get_code g) = kOk then [get_reply g] else [])))
     else Inr (srv, [])))))"

definition answer :: "'t srv_env \<Rightarrow> bytes \<Rightarrow> sview list \<Rightarrow> 't Server \<Rightarrow> ('t Server \<times> bytes list) res" where
  "answer E mem read_result srv =
     rbind (check mem read_result) (\<lambda>(ok, read_result).
     if \<not> ok then
       if length read_result \<ge> 2 then
         rbind (arg mem read_result 1) (\<lambda>cmd. Inr (srv, [error_reply cmd]))
       else Inr (srv, [kErrorUnknowCommand])
     else execute E mem read_result srv)"

text \<open>
  The whole handler. Every branch resets the offset and returns \<open>-1\<close>; the parser needs fuel.
\<close>

definition readHD ::
  "nat \<Rightarrow> 't srv_env \<Rightarrow> ev_remove \<Rightarrow> bytes \<Rightarrow> 't Server \<Rightarrow> (int \<times> 't Server \<times> bytes \<times> bytes list) res option" where
  "readHD fuel E rem pending srv =
     (case read_request rem pending (srv_buf srv) of
        Inl e \<Rightarrow> Some (Inl e)
      | Inr (b, read_str_view, sz, rest) \<Rightarrow>
          let done = (\<lambda>(srv, sent). Inr (-1, srv\<lparr>srv_buf := b\<lparr>offset := 0\<rparr>\<rparr>, rest, sent)) in
          if read_str_view = kCommandDocs \<or> read_str_view = kCommandDocs_2 then Some (done (srv, [kOKStr]))
          else (case parseRedisProtocol fuel (take (nat sz) (bufptr b)) of
              None \<Rightarrow> None
            | Some r \<Rightarrow> Some (rbind r (\<lambda>read_result. rbind (answer E (bufptr b) read_result srv) done))))"

definition writeHD :: int where "writeHD = 1"
definition closeHD :: int where "closeHD = 1"
definition timeoutHD :: int where "timeoutHD = 1"

definition Server_Stop :: "'t Server \<Rightarrow> 't Server" where
  "Server_Stop srv = srv"

section \<open>Lemmas\<close>

text \<open>Sizes from 4096 MB on wrap.\<close>

lemma ConfigParse_size:
  assumes "y_log_lev y = kLog_Info" "y_log_buf_size y = dec n @ [77, 66]" "n < 2 ^ 32"
  shows "\<exists>config'. ConfigParse y config = Inr (True, config') \<and> sc_logLev config' = 0 \<and>
    unat (sc_log_buf_size config') = n * 1048576 mod 2 ^ 32"
proof -
  have "takeWhile is_digit (dec n) = dec n" using dec_digits [of _ n] by (simp add: takeWhile_eq_all_conv)
  then have "from_chars_u32 (dec n) old = of_nat n" for old
    using assms(3) by (simp add: from_chars_u32_def del: takeWhile_eq_all_conv)
  moreover have "unat (of_nat n * 1024 * 1024 :: u32) = n * 1048576 mod 2 ^ 32"
    by (simp add: unat_word_ariths unat_of_nat mult.assoc mod_simps)
  ultimately show ?thesis using assms by (simp add: ConfigParse_def Let_def)
qed

text \<open>A server is created, initialised and handles requests.\<close>

inductive serving :: "'t srv_env \<Rightarrow> ev_remove \<Rightarrow> 't Server \<Rightarrow> bool" for E rem where
  serving_new: "serving E rem (Server_ctor g gc)"
| serving_init: "serving E rem srv \<Longrightarrow> Server_Init gm rand opens now net_ok conf t srv = Inr (b, t', srv') \<Longrightarrow>
    serving E rem srv'"
| serving_read: "serving E rem srv \<Longrightarrow> readHD fuel E rem pending srv = Some (Inr (r, srv', rest, sent)) \<Longrightarrow>
    serving E rem srv'"

text \<open>
  Between two requests the buffer is empty and still has its 1024 bytes, and nobody has
  initialised the database.
\<close>

definition idle :: "'t Server \<Rightarrow> bool" where
  "idle srv \<longleftrightarrow> offset (srv_buf srv) = 0 \<and> buflen (srv_buf srv) = 1024 \<and> length (bufptr (srv_buf srv)) = 1024 \<and>
     walLog (srv_db srv) = None \<and> shared_memtable (srv_db srv) = None"

lemma DB_Set_uninit: "walLog d = None \<Longrightarrow> DB_Set E c d = Inl NullDeref"
  by (simp add: DB_Set_def SetContextWalLogFormat_eq deref_ptr_def)

lemma DB_Get_uninit: "shared_memtable d = None \<Longrightarrow> DB_Get E g d = Inl NullDeref"
  by (simp add: DB_Get_def deref_ptr_def)

lemma execute_idle:
  assumes "execute E mem result srv = Inr (srv', sent)" "idle srv"
  shows "srv' = srv"
  using assms by (auto simp: execute_def idle_def rbind_eq_Inr_iff DB_Set_uninit DB_Get_uninit Let_def split: if_splits)

lemma answer_idle:
  assumes "answer E mem result srv = Inr (srv', sent)" "idle srv"
  shows "srv' = srv"
  using assms by (auto simp: answer_def rbind_eq_Inr_iff split: if_splits dest: execute_idle)

lemma read_request_buffer:
  assumes "read_request rem pending b = Inr (b', txt, sz, rest)"
  shows "buflen b' = buflen b \<and> length (bufptr b') = length (bufptr b)"
  using assms by (auto simp: read_request_def moveEvReadBuffer_def rbind_eq_Inr_iff buf_memcpy_def Let_def
      split: prod.splits if_splits)

lemma readHD_idle:
  assumes "readHD fuel E rem pending srv = Some (Inr (r, srv', rest, sent))" "idle srv"
  shows "idle srv' \<and> r = -1"
  using assms read_request_buffer [of rem pending "srv_buf srv"]
  by (auto simp: readHD_def Let_def rbind_eq_Inr_iff idle_def
      split: sum.splits prod.splits if_splits option.splits dest!: answer_idle)

lemma serving_idle: "serving E rem srv \<Longrightarrow> idle srv"
  by (induction rule: serving.induct)
    (auto simp: Server_ctor_def Buffer_ctor_def DB_ctor_def Server_Init_def rbind_eq_Inr_iff idle_def dest: readHD_idle [unfolded idle_def])

lemma read_request_line:
  assumes "ev_documented rem" "idle srv" "req \<noteq> []" "length req \<le> 1024" "last req = 10"
  shows "\<exists>b rest. read_request rem req (srv_buf srv) = Inr (b, req, int (length req) - 1, []) \<and> bufptr b = req @ rest"
proof -
  have "rem req 1024 = (int (length req), req, [])"
    using assms(1,4) by (simp add: ev_documented_def)
  moreover have "unat (of_int (int (length req)) :: u32) = length req"
    using assms(4) by (simp add: unat_of_nat)
  moreover have "(req @ xs) ! (length req - 1) = 10" for xs
    using assms(3,5) by (simp add: last_conv_nth nth_append)
  moreover have "nat (int (length req) - 1) = length req - 1" "0 < length req" using assms(3) by simp_all
  ultimately show ?thesis
    using assms(2,4)
    by (simp add: read_request_def moveEvReadBuffer_def idle_def buf_memcpy_in Let_def rd_def)
qed

section \<open>Properties\<close>

text \<open>The server answers no request of a client: every RESP array of bulk strings
  that fits into the buffer, \<open>SET\<close> and \<open>GET\<close> included and the two \<open>COMMAND\<close> requests apart, is
  answered with an error naming its first element, and neither the database nor the
  state of the server changes.\<close>

lemma server_rejects_requests:
  assumes "serving E rem srv" and "ev_documented rem" and "args \<noteq> []" and "list_all plain_arg args"
    and "length (resp_array args) \<le> 1024" and "resp_array args \<notin> {kCommandDocs, kCommandDocs_2}"
    and "4 * length args + 2 \<le> fuel"
  shows "\<exists>srv'. readHD fuel E rem (resp_array args) srv = Some (Inr (-1, srv', [], [error_reply (hd args)])) \<and>
    serving E rem srv' \<and> srv_db srv' = srv_db srv \<and> offset (srv_buf srv') = 0"
proof -
  let ?req = "resp_array args" and ?n = "length args"
  let ?vs = "Data 1 (length (dec ?n)) # bulk_views (length (dec ?n) + 3) args"
  have "?req \<noteq> []" "last ?req = 10"
    using assms(3) by (cases args rule: rev_cases; simp add: resp_array_def resp_counted_def resp_bulk_def)+
  then obtain b rest where b: "read_request rem ?req (srv_buf srv) = Inr (b, ?req, int (length ?req) - 1, [])"
    "bufptr b = ?req @ rest"
    using read_request_line [OF assms(2) serving_idle [OF assms(1)] _ assms(5)] by blast
  have "nat (int (length ?req) - 1) = length ?req - 1" by simp
  then have cut: "take (nat (int (length ?req) - 1)) (bufptr b) = butlast ?req"
    by (simp add: b(2) butlast_conv_take)
  have parse: "parseRedisProtocol fuel (butlast ?req) = Some (Inr ?vs)"
    unfolding resp_array_def by (rule parse_counted_cut) (use assms in \<open>simp_all add: resp_array_def\<close>)
  have "?n \<le> length ?req"
    using length_args_le [of args] by (simp add: resp_array_def resp_counted_def)
  then have n: "?n < 2 ^ 31" "?n < 2 ^ 32" using assms(5) by simp_all
  have check: "check (bufptr b) ?vs = Inr (False, ?vs)"
    using check_counted [OF n(1) refl n(2), of rest] by (simp add: b(2) resp_array_def)
  have "sv_contents (bufptr b) (?vs ! 1) = Inr (hd args)"
    using counted_contents [of ?n args rest] assms(3) by (cases args) (simp_all add: b(2) resp_array_def)
  then have "arg (bufptr b) ?vs 1 = Inr (hd args)" using assms(3) by (simp add: arg_def rd_def)
  then have "answer E (bufptr b) ?vs srv = Inr (srv, [error_reply (hd args)])"
    using check assms(3) by (simp add: answer_def Suc_le_eq)
  then have read: "readHD fuel E rem ?req srv =
      Some (Inr (-1, srv\<lparr>srv_buf := b\<lparr>offset := 0\<rparr>\<rparr>, [], [error_reply (hd args)]))"
    using assms(6) by (simp add: readHD_def b(1) cut parse)
  then show ?thesis using serving_read [OF assms(1) read] by simp
qed

definition example_rem :: ev_remove where
  "example_rem pending n = (int (min n (length pending)), take n pending, drop n pending)"

definition example_srv_env :: "bytes list srv_env" where
  "example_srv_env = \<lparr>s_db = example_db_env, s_number = 0, set_seen = (\<lambda>c. c), get_seen = (\<lambda>g. g)\<rparr>"

end
