(* ===== verification/Net_Server.thy ===== *)
theory Net_Server
  imports Net Server
begin

text \<open>
  The server on the network: the handlers of \<open>src/server/server.cpp\<close> bound to the callbacks of
  \<open>src/net/\<close>, and its runs as interleavings of accepted connections, readable and writable
  connections, and connections that end.
\<close>

section \<open>The handlers\<close>

text \<open>What \<open>Server::Init\<close> binds.\<close>

datatype srv_handle = HRead | HWrite | HClose | HTimeout

fun send_all :: "('w, 'b) netlib \<Rightarrow> bytes list \<Rightarrow> ('b, 'h) Connection \<Rightarrow> 'w \<Rightarrow> 'w res" where
  "send_all N [] conn w = Inr w"
| "send_all N (m # ms) conn w = rbind (Send N m conn w) (\<lambda>(_, w). send_all N ms conn w)"

text \<open>
  \<open>readHD\<close> takes what the input buffer of the connection holds, leaves the rest there and sends its messages. The
  other handlers read the address at most.
\<close>

definition srv_read ::
  "nat \<Rightarrow> 't srv_env \<Rightarrow> ev_remove \<Rightarrow> ('w, 'b) netlib \<Rightarrow> ('b, srv_handle) Connection \<Rightarrow>
   ('w, 'b, srv_handle) NetServer \<times> 't Server \<Rightarrow> (('w, 'b, srv_handle) NetServer \<times> 't Server) res option" where
  "srv_read fuel E rem N conn st =
     (case ev_read_buf conn of
        Ptr b \<Rightarrow>
          obind (readHD fuel E rem (bev_input N (world (fst st)) b) (snd st)) (\<lambda>(r, srv, rest, sent).
          obind (Some (send_all N sent conn (bev_drain N b rest (world (fst st))))) (\<lambda>w.
            Some (Inr ((fst st)\<lparr>world := w\<rparr>, srv))))
      | Null \<Rightarrow> Some (Inl NullDeref)
      | Garbage \<Rightarrow> Some (Inl Uninitialized))"

definition srv_call ::
  "nat \<Rightarrow> 't srv_env \<Rightarrow> ev_remove \<Rightarrow> ('w, 'b) netlib \<Rightarrow> ('w, 'b, srv_handle, 't Server) handlers" where
  "srv_call fuel E rem N h c st =
     obind (Some (deref c (fst st))) (\<lambda>conn.
       case h of HRead \<Rightarrow> srv_read fuel E rem N conn st | HWrite \<Rightarrow> Some (Inr st) | HClose \<Rightarrow> Some (Inr st) | HTimeout \<Rightarrow> Some (Inr st))"

text \<open>\<open>server_.Init\<close> in \<open>Server::Init\<close>.\<close>

definition Server_NetInit ::
  "('w, 'b) netlib \<Rightarrow> ServerConfig \<Rightarrow> ('w, 'b, srv_handle) NetServer \<Rightarrow> bool \<times> ('w, 'b, srv_handle) NetServer" where
  "Server_NetInit N conf n =
     NetServer_Init N (sc_listen_port conf) (Some HWrite) (Some HClose) (Some HTimeout) (Some HRead) kMaxConnectionN n"

section \<open>Runs\<close>

inductive net_run ::
  "nat \<Rightarrow> 't srv_env \<Rightarrow> ev_remove \<Rightarrow> ('w, 'b) netlib \<Rightarrow> ('w, 'b, srv_handle) NetServer \<times> 't Server \<Rightarrow> bool"
  for fuel E rem N where
  run_init: "Server_NetInit N conf (NetServer_ctor w gport gmax) = (True, n) \<Longrightarrow> cb_arg N w = (\<lambda>_. None) \<Longrightarrow>
    serving E rem srv \<Longrightarrow> net_run fuel E rem N (n, srv)"
| run_accept: "net_run fuel E rem N (n, srv) \<Longrightarrow> opened N fd (world n) w \<Longrightarrow>
    ListenerCallback N (srv_call fuel E rem N) g fd (n\<lparr>world := w\<rparr>, srv) = Some (Inr st) \<Longrightarrow> net_run fuel E rem N st"
| run_read: "net_run fuel E rem N (n, srv) \<Longrightarrow> cb_arg N (world n) b = Some c \<Longrightarrow>
    ConnectionReadCallback N (srv_call fuel E rem N) b c (n, srv) = Some (Inr st) \<Longrightarrow> net_run fuel E rem N st"
| run_write: "net_run fuel E rem N (n, srv) \<Longrightarrow> cb_arg N (world n) b = Some c \<Longrightarrow>
    ConnectionWriteCallback N (srv_call fuel E rem N) b c (n, srv) = Some (Inr st) \<Longrightarrow> net_run fuel E rem N st"
| run_event: "net_run fuel E rem N (n, srv) \<Longrightarrow> cb_arg N (world n) b = Some c \<Longrightarrow>
    ConnectionEventCallback N (srv_call fuel E rem N) what c (n, srv) = Some (Inr st) \<Longrightarrow> net_run fuel E rem N st"
| run_world: "net_run fuel E rem N (n, srv) \<Longrightarrow> same_net N (world n) w \<Longrightarrow> net_run fuel E rem N (n\<lparr>world := w\<rparr>, srv)"

section \<open>Lemmas\<close>

lemma send_all_keeps:
  "netlib_documented N \<Longrightarrow> send_all N ms conn w = Inr w' \<Longrightarrow> same_net N w w'"
proof (induction ms arbitrary: w)
  case (Cons m ms)
  then obtain b where "buf conn = Ptr b" and r: "send_all N ms conn (snd (bufferevent_write N b m w)) = Inr w'"
    by (auto simp: Send_def rbind_eq_Inr_iff case_prod_beta split: bufptr.splits)
  show ?case by (rule same_net_trans [OF same_net_calls(5) [OF Cons.prems(1)] Cons.IH [OF Cons.prems(1) r]])
qed simp

lemma srv_read_keeps:
  assumes "netlib_documented N" "srv_read fuel E rem N conn (n, srv) = Some (Inr (n', srv'))"
  shows "(\<exists>w. n' = n\<lparr>world := w\<rparr> \<and> same_net N (world n) w) \<and> (serving E rem srv \<longrightarrow> serving E rem srv')"
proof -
  obtain b r rest sent w where "readHD fuel E rem (bev_input N (world n) b) srv = Some (Inr (r, srv', rest, sent))"
    and w: "send_all N sent conn (bev_drain N b rest (world n)) = Inr w" "n' = n\<lparr>world := w\<rparr>"
    using assms(2) by (auto simp: srv_read_def obind_eq_Inr split: bufptr.splits)
  moreover have "same_net N (world n) w"
    using same_net_trans [OF same_net_calls(6) [OF assms(1)] send_all_keeps [OF assms(1) w(1)]] .
  ultimately show ?thesis using serving_read by blast
qed

lemma srv_call_keeps:
  assumes "netlib_documented N" "srv_call fuel E rem N h c (n, srv) = Some (Inr (n', srv'))"
  shows "(\<exists>w. n' = n\<lparr>world := w\<rparr> \<and> same_net N (world n) w) \<and> (serving E rem srv \<longrightarrow> serving E rem srv')"
proof (cases "h = HRead")
  case True
  then obtain conn where "srv_read fuel E rem N conn (n, srv) = Some (Inr (n', srv'))"
    using assms(2) by (auto simp: srv_call_def obind_eq_Inr)
  then show ?thesis by (rule srv_read_keeps [OF assms(1)])
next
  case False
  then have "n' = n\<lparr>world := world n\<rparr>" "srv' = srv" using assms(2) by (cases h; auto simp: srv_call_def obind_eq_Inr)+
  then show ?thesis by (intro conjI exI [of _ "world n"]) simp_all
qed

interpretation srv: conn_handlers N "srv_call fuel E rem N" for N fuel E rem
  by unfold_locales (use srv_call_keeps in blast)

text \<open>The state of the server only changes in its handlers.\<close>

lemma callbacks_serving:
  assumes "netlib_documented N" "serving E rem srv"
  shows "ListenerCallback N (srv_call fuel E rem N) g fd (n, srv) = Some (Inr (n', srv')) \<Longrightarrow> serving E rem srv'"
    "ConnectionReadCallback N (srv_call fuel E rem N) b c (n, srv) = Some (Inr (n', srv')) \<Longrightarrow> serving E rem srv'"
    "ConnectionWriteCallback N (srv_call fuel E rem N) b c (n, srv) = Some (Inr (n', srv')) \<Longrightarrow> serving E rem srv'"
    "ConnectionEventCallback N (srv_call fuel E rem N) what c (n, srv) = Some (Inr (n', srv')) \<Longrightarrow> serving E rem srv'"
proof -
  have h: "serving E rem s'" if "run_handle (srv_call fuel E rem N) h a (m, srv) = Some (Inr (m', s'))" for h a m m' s'
    using that assms(2) srv_call_keeps [OF assms(1), of fuel E rem _ a m srv m' s'] by (cases h) (auto simp: run_handle_def)
  have l: "s' = s" if "leave N p (m, s) = Some (Inr (m', s'))" for p m s and m' :: "('a, 'b, srv_handle) NetServer" and s'
    using that by (auto simp: leave_def rbind_eq_Inr_iff)
  show "ListenerCallback N (srv_call fuel E rem N) g fd (n, srv) = Some (Inr (n', srv')) \<Longrightarrow> serving E rem srv'"
    "ConnectionReadCallback N (srv_call fuel E rem N) b c (n, srv) = Some (Inr (n', srv')) \<Longrightarrow> serving E rem srv'"
    "ConnectionWriteCallback N (srv_call fuel E rem N) b c (n, srv) = Some (Inr (n', srv')) \<Longrightarrow> serving E rem srv'"
    "ConnectionEventCallback N (srv_call fuel E rem N) what c (n, srv) = Some (Inr (n', srv')) \<Longrightarrow> serving E rem srv'"
    by (auto simp: ListenerCallback_def ConnectionReadCallback_def ConnectionWriteCallback_def ConnectionEventCallback_def
        drop_conn_def obind_eq_Inr Let_def case_prod_beta split: if_splits dest!: l intro: assms(2) dest: h)
qed

lemma net_init_ok:
  assumes "netlib_documented N" "Server_NetInit N conf (NetServer_ctor w gport gmax) = (True, n)" "cb_arg N w = (\<lambda>_. None)"
  shows "net_ok N n \<and> handles n = [Some HRead, Some HWrite, Some HClose, Some HTimeout, None]"
proof -
  have "cb_arg N (snd (event_base_new N w)) = cb_arg N w"
    "cb_arg N (snd (evconnlistener_new_bind N p w')) = cb_arg N w'" for p w'
    using same_net_calls(1,2) [OF assms(1)] by (simp_all add: same_net_def)
  then show ?thesis
    using assms(2,3)
    by (auto simp: Server_NetInit_def NetServer_Init_def NetServer_ctor_def net_ok_def handles_def Let_def case_prod_beta
        split: if_splits)
qed

theorem net_run_ok:
  assumes "netlib_documented N" "net_run fuel E rem N st"
  shows "net_ok N (fst st) \<and> handles (fst st) = [Some HRead, Some HWrite, Some HClose, Some HTimeout, None] \<and>
    serving E rem (snd st)"
  using assms(2)
proof (induction rule: net_run.induct)
  case (run_init conf w gport gmax n srv)
  then show ?case using net_init_ok [OF assms(1)] by simp
next
  case (run_accept n srv fd w g st)
  then show ?case
    using srv.accept_keeps [OF assms(1), of n fd w] callbacks_serving(1) [OF assms(1)] by (cases st) fastforce
next
  case (run_read n srv b c st)
  then show ?case
    using srv.read_keeps [OF assms(1), of n b c] callbacks_serving(2) [OF assms(1)] by (cases st) fastforce
next
  case (run_write n srv b c st)
  then show ?case
    using srv.write_keeps [OF assms(1), of n b c] callbacks_serving(3) [OF assms(1)] by (cases st) fastforce
next
  case (run_event n srv b c what st)
  then show ?case
    using srv.event_keeps [OF assms(1), of n b c] callbacks_serving(4) [OF assms(1)] by (cases st) fastforce
next
  case (run_world n srv w)
  then show ?case using net_ok_world [of N n w] by simp
qed

lemma net_run_event:
  assumes "netlib_documented N" "net_run fuel E rem N (n, srv)" "cb_arg N (world n) b = Some c"
  obtains conn where "heap n c = Some (1, conn)" "buf conn = Ptr b" "bev_fd N (world n) b = socketFd conn"
    "map_of (ConnectionMap n) (socketFd conn) = Some (Some c)" "fd_open N (world n) (socketFd conn)"
    "conn_handles conn = [Some HRead, Some HWrite, Some HClose, Some HTimeout]" "net_ok N n"
proof -
  have ok: "net_ok N n" "handles n = [Some HRead, Some HWrite, Some HClose, Some HTimeout, None]"
    using net_run_ok [OF assms(1,2)] by simp_all
  obtain conn where c: "heap n c = Some (1, conn)" "buf conn = Ptr b" "bev_fd N (world n) b = socketFd conn"
    "map_of (ConnectionMap n) (socketFd conn) = Some (Some c)" "fd_open N (world n) (socketFd conn)"
    using net_ok_event [OF ok(1) assms(3)] by blast
  moreover have "conn_handles conn = [Some HRead, Some HWrite, Some HClose, Some HTimeout]"
    using net_ok_heap [OF ok(1) c(1)] ok(2) by (simp add: has_handles_def handles_def)
  ultimately show thesis using that ok(1) by blast
qed

lemma borrow_world: "(borrow c conn n)\<lparr>world := world n\<rparr> = borrow c conn n"
  by (simp add: borrow_def)

lemma idle_handlers:
  assumes "h \<noteq> HRead"
  shows "run_handle (srv_call fuel E rem N) (Some h) c (borrow c conn n, srv) =
    Some (Inr ((borrow c conn n)\<lparr>world := world n\<rparr>, srv))"
  using assms by (cases h) (simp_all add: run_handle_def srv_call_def deref_def borrow_world borrow_def)

lemma ListenerCallback_plain:
  assumes "map_of (ConnectionMap n) fd = None" "conninit_handle n = None"
    and "Connection_Init N (next_addr n) (accepted g fd n) (world n) = (ue, conn, w)"
  shows "ListenerCallback N call g fd (n, s) = Some (Inr (with_conn fd conn w n, s))"
proof -
  let ?m = "with_conn fd conn w n" and ?a = "next_addr n"
  have "?m\<lparr>world := world ?m, heap := (heap ?m)(?a \<mapsto> (1, conn))\<rparr> = ?m" by (simp add: with_conn_def)
  then show ?thesis
    using ListenerCallback_new [OF assms(1,3), where call = call and s = s] assms(2)
      leave_borrow [where N = N and c = ?a and conn = conn and n = ?m and w = "world ?m" and s = s]
    by (simp add: run_handle_def borrow_world)
qed

section \<open>An example\<close>

text \<open>A network whose buffer events are numbers, and a server with one connection on descriptor 5.\<close>

record net_world =
  nw_open :: "int \<Rightarrow> bool"
  nw_arg :: "nat \<Rightarrow> nat option"
  nw_fd :: "nat \<Rightarrow> int"
  nw_in :: "nat \<Rightarrow> bytes"
  nw_out :: "nat \<Rightarrow> bytes"
  nw_next :: nat

definition example_netlib :: "(net_world, nat) netlib" where
  "example_netlib = \<lparr>event_base_new = (\<lambda>w. (True, w)), evconnlistener_new_bind = (\<lambda>p w. (True, w)),
     bufferevent_socket_new = (\<lambda>fd w. if nw_arg w (nw_next w) = None
       then (Some (nw_next w), w\<lparr>nw_fd := (nw_fd w)(nw_next w := fd), nw_next := Suc (nw_next w)\<rparr>) else (None, w)),
     bufferevent_setcb = (\<lambda>b c w. w\<lparr>nw_arg := (nw_arg w)(b := Some c)\<rparr>),
     bufferevent_set_timeouts = (\<lambda>b tv w. w), bufferevent_enable = (\<lambda>b w. w),
     bufferevent_write = (\<lambda>b d w. (0, w\<lparr>nw_out := (nw_out w)(b := nw_out w b @ d)\<rparr>)),
     bufferevent_free = (\<lambda>b w. w\<lparr>nw_arg := (nw_arg w)(b := None), nw_open := (nw_open w)(nw_fd w b := False)\<rparr>),
     getpeername = (\<lambda>fd w. Some ([49], 80)), sock_socket = (\<lambda>w. (3, w)), sock_connect = (\<lambda>fd ip port w. (ECONNREFUSED, w)),
     sock_close = (\<lambda>fd w. w\<lparr>nw_open := (nw_open w)(fd := False)\<rparr>),
     bev_drain = (\<lambda>b d w. w\<lparr>nw_in := (nw_in w)(b := d)\<rparr>),
     fd_open = nw_open, cb_arg = nw_arg, bev_fd = nw_fd, bev_input = nw_in\<rparr>"

lemma example_netlib_documented: "netlib_documented example_netlib"
  by (auto simp: netlib_documented_def example_netlib_def same_net_def split: if_splits)

definition example_world :: net_world where
  "example_world = \<lparr>nw_open = (\<lambda>_. False), nw_arg = (\<lambda>_. None), nw_fd = (\<lambda>_. 0), nw_in = (\<lambda>_. []), nw_out = (\<lambda>_. []),
     nw_next = 0\<rparr>"

definition example_garbage :: conn_garbage where
  "example_garbage = \<lparr>g_fd = 0, g_port = 0, g_pair = 0\<rparr>"

definition example_server :: "bytes list Server" where
  "example_server = Server_ctor 0 example_config"

definition example_listening :: "(net_world, nat, srv_handle) NetServer" where
  "example_listening = \<lparr>world = example_world, heap = (\<lambda>_. None), next_addr = 0, ConnectionMap = [],
     write_handle = Some HWrite, close_handle = Some HClose, timeout_handle = Some HTimeout, read_handle = Some HRead,
     conninit_handle = None, ns_port = 9090, maxConnCount = kMaxConnectionN, eventBase = True, listener = True\<rparr>"

definition example_open :: net_world where
  "example_open = example_world\<lparr>nw_open := (\<lambda>_. False)(5 := True)\<rparr>"

definition example_conn :: "(nat, srv_handle) Connection" where
  "example_conn = (Connection_ctor example_garbage 5 (Some HRead) (Some HWrite) (Some HClose) (Some HTimeout))
     \<lparr>buf := Ptr 0, peerPort := 80, peerIP := [49]\<rparr>"

definition example_request :: "bytes list" where
  "example_request = [kSetStr, [107], [118]]"

text \<open>The connection has been accepted and a request has arrived.\<close>

definition example_net :: "(net_world, nat, srv_handle) NetServer" where
  "example_net = (with_conn 5 example_conn example_world example_listening)
     \<lparr>world := \<lparr>nw_open = (\<lambda>_. False)(5 := True), nw_arg = (\<lambda>_. None)(0 := Some 0), nw_fd = (\<lambda>_. 0)(0 := 5),
       nw_in = (\<lambda>_. [])(0 := resp_array example_request), nw_out = (\<lambda>_. []), nw_next = 1\<rparr>\<rparr>"

lemma example_listening_run: "net_run 20 example_srv_env example_rem example_netlib (example_listening, example_server)"
proof (rule run_init)
  show "Server_NetInit example_netlib (undefined\<lparr>sc_listen_port := 9090\<rparr>) (NetServer_ctor example_world 0 0) =
      (True, example_listening)"
    by (simp add: Server_NetInit_def NetServer_Init_def NetServer_ctor_def example_netlib_def example_listening_def)
  show "cb_arg example_netlib example_world = (\<lambda>_. None)" by (simp add: example_netlib_def example_world_def)
  show "serving example_srv_env example_rem example_server" by (simp add: example_server_def serving_new)
qed

lemma example_opened: "opened example_netlib 5 (world example_listening) example_open"
  by (simp add: opened_def example_netlib_def example_listening_def example_open_def example_world_def)

lemma example_net_run: "net_run 20 example_srv_env example_rem example_netlib (example_net, example_server)"
proof -
  let ?w = "(world example_net)\<lparr>nw_in := (\<lambda>_. [])\<rparr>" and ?n = "example_listening\<lparr>world := example_open\<rparr>"
  have i: "Connection_Init example_netlib (next_addr ?n) (accepted example_garbage 5 ?n) (world ?n) = (True, example_conn, ?w)"
    by (simp add: Connection_Init_def Connection_ctor_def Connection_default_def getPeerConnInfo_def example_netlib_def
        example_listening_def example_open_def example_world_def example_conn_def example_net_def with_conn_def)
  have "map_of (ConnectionMap ?n) 5 = None" "conninit_handle ?n = None" by (simp_all add: example_listening_def)
  note this = ListenerCallback_plain [OF this i, of "srv_call 20 example_srv_env example_rem example_netlib" example_server]
  from run_accept [OF example_listening_run example_opened this]
  have "net_run 20 example_srv_env example_rem example_netlib (with_conn 5 example_conn ?w ?n, example_server)" .
  from run_world [OF this, of "world example_net"] show ?thesis
    by (simp add: same_net_def example_netlib_def example_net_def with_conn_def)
qed

lemma example_arg: "cb_arg example_netlib (world example_net) 0 = Some 0"
  by (simp add: example_netlib_def example_net_def)

section \<open>Properties\<close>

text \<open>Property C18. Callbacks find their connection: in every run of the server, however accepting, reading,
  writing and closing interleave, an event of a live buffer event leads through its argument and the map to the
  connection that owns it, whose descriptor is open; the map holds its only reference, and the callback of
  a writable connection goes through.\<close>

theorem callbacks_find_connection:
  assumes "netlib_documented N" and "net_run fuel E rem N (n, srv)" and "cb_arg N (world n) b = Some c"
  shows "\<exists>conn st. heap n c = Some (1, conn) \<and> buf conn = Ptr b \<and> socketFd conn = bev_fd N (world n) b \<and>
    fd_open N (world n) (socketFd conn) \<and> conn_of c n = Inr (c, borrow c conn n) \<and>
    ConnectionWriteCallback N (srv_call fuel E rem N) b c (n, srv) = Some (Inr st) \<and> net_run fuel E rem N st"
proof -
  obtain conn where c: "heap n c = Some (1, conn)" "buf conn = Ptr b" "bev_fd N (world n) b = socketFd conn"
    "fd_open N (world n) (socketFd conn)" "conn_handles conn = [Some HRead, Some HWrite, Some HClose, Some HTimeout]" "net_ok N n"
    using net_run_event [OF assms] by blast
  have "writeHandle conn = Some HWrite" using c(5) by (simp add: conn_handles_def)
  then obtain st where st: "ConnectionWriteCallback N (srv_call fuel E rem N) b c (n, srv) = Some (Inr st)"
    by (simp add: WriteCallback_live [OF c(6,1)] idle_handlers leave_borrow)
  show ?thesis using c conn_of_live [OF c(6,1)] st run_write [OF assms(2,3) st] by auto
qed

theorem callbacks_find_connection_witness:
  "\<exists>conn st. heap example_net 0 = Some (1, conn) \<and> buf conn = Ptr 0 \<and>
    socketFd conn = bev_fd example_netlib (world example_net) 0 \<and>
    fd_open example_netlib (world example_net) (socketFd conn) \<and> conn_of 0 example_net = Inr (0, borrow 0 conn example_net) \<and>
    ConnectionWriteCallback example_netlib (srv_call 20 example_srv_env example_rem example_netlib) 0 0
      (example_net, example_server) = Some (Inr st) \<and>
    net_run 20 example_srv_env example_rem example_netlib st"
  by (rule callbacks_find_connection [OF example_netlib_documented example_net_run example_arg])

text \<open>Property C20. A connection that ends (closed by the peer, failed or timed out) is forgotten: the
  callback takes it out of the map, destroys it, frees its buffer event and closes its descriptor, and nothing else
  changes.\<close>

theorem ended_connection_forgotten:
  assumes "netlib_documented N" and "net_run fuel E rem N (n, srv)" and "cb_arg N (world n) b = Some c"
    and "what AND (BEV_EVENT_EOF OR BEV_EVENT_ERROR) \<noteq> 0 \<or> what AND BEV_EVENT_TIMEOUT \<noteq> 0"
  shows "\<exists>n'. ConnectionEventCallback N (srv_call fuel E rem N) what c (n, srv) = Some (Inr (n', srv)) \<and>
    net_run fuel E rem N (n', srv) \<and> heap n' = (heap n)(c := None) \<and>
    map_of (ConnectionMap n') = (map_of (ConnectionMap n))(bev_fd N (world n) b := None) \<and>
    fd_open N (world n') = (fd_open N (world n))(bev_fd N (world n) b := False) \<and>
    cb_arg N (world n') = (cb_arg N (world n))(b := None)"
proof -
  obtain conn where c: "heap n c = Some (1, conn)" "buf conn = Ptr b" "bev_fd N (world n) b = socketFd conn"
    "conn_handles conn = [Some HRead, Some HWrite, Some HClose, Some HTimeout]" "net_ok N n"
    using net_run_event [OF assms(1-3)] by blast
  have h: "closeHandle conn = Some HClose" "timeoutHandle conn = Some HTimeout" using c(4) by (simp_all add: conn_handles_def)
  let ?n = "without N c conn b n"
  have drop: "obind (drop_conn N (srv_call fuel E rem N) (Some h) c (borrow c conn n, srv)) (leave N (Some c)) =
      Some (Inr (?n, srv))" if "h \<noteq> HRead" for h
    using drop_conn_live [OF c(5,1,2) idle_handlers [OF that]] by simp
  have "deref c (borrow c conn n) = Inr conn" by (simp add: deref_def borrow_def)
  then have e: "ConnectionEventCallback N (srv_call fuel E rem N) what c (n, srv) = Some (Inr (?n, srv))"
    using assms(4) conn_of_live [OF c(5,1)] h drop [of HClose] drop [of HTimeout]
    by (auto simp: ConnectionEventCallback_def)
  then show ?thesis
    using run_event [OF assms(2,3) e] c(3) free [OF assms(1)] by (auto simp: without_def delete_conv')
qed

theorem ended_connection_forgotten_witness:
  "\<exists>n'. ConnectionEventCallback example_netlib (srv_call 20 example_srv_env example_rem example_netlib) 17 0
      (example_net, example_server) = Some (Inr (n', example_server)) \<and>
    net_run 20 example_srv_env example_rem example_netlib (n', example_server) \<and> heap n' = (heap example_net)(0 := None) \<and>
    map_of (ConnectionMap n') = (map_of (ConnectionMap example_net))(bev_fd example_netlib (world example_net) 0 := None) \<and>
    fd_open example_netlib (world n') =
      (fd_open example_netlib (world example_net))(bev_fd example_netlib (world example_net) 0 := False) \<and>
    cb_arg example_netlib (world n') = (cb_arg example_netlib (world example_net))(0 := None)"
  by (rule ended_connection_forgotten [OF example_netlib_documented example_net_run example_arg])
    (simp add: BEV_EVENT_EOF_def BEV_EVENT_ERROR_def)

text \<open>Every connection the kernel accepts is served: it is entered under its descriptor with a
  buffer event that leads back to it. The maximal number of connections the server is given plays no
  role, however many there are.\<close>

lemma accepted_connection_served:
  assumes "netlib_documented N" and "net_run fuel E rem N (n, srv)" and "opened N fd (world n) w"
    and "bufferevent_socket_new N fd w = (Some b, w')"
  shows "\<exists>n'. ListenerCallback N (srv_call fuel E rem N) g fd (n\<lparr>world := w\<rparr>, srv) = Some (Inr (n', srv)) \<and>
    net_run fuel E rem N (n', srv) \<and> map_of (ConnectionMap n') = (map_of (ConnectionMap n))(fd \<mapsto> Some (next_addr n)) \<and>
    length (ConnectionMap n') = Suc (length (ConnectionMap n)) \<and> cb_arg N (world n') b = Some (next_addr n)"
proof -
  let ?n = "n\<lparr>world := w\<rparr>" and ?a = "next_addr n"
  have ok: "net_ok N n" "conninit_handle n = None" using net_run_ok [OF assms(1,2)] by (simp_all add: handles_def)
  have none: "map_of (ConnectionMap ?n) fd = None" using net_ok_closed [OF ok(1)] assms(3) by (simp add: opened_def)
  obtain ue conn w'' where i: "Connection_Init N ?a (accepted g fd n) w = (ue, conn, w'')" by (metis prod_cases3)
  have "ue" "buf conn = Ptr b"
    using i assms(4) by (auto simp: Connection_Init_def Connection_ctor_def Let_def case_prod_beta getPeerConnInfo_def
        split: option.splits)
  then have cb: "cb_arg N w'' b = Some ?a" using Connection_Init_result(5) [OF assms(1) i] by auto
  have l: "ListenerCallback N (srv_call fuel E rem N) g fd (?n, srv) = Some (Inr (with_conn fd conn w'' ?n, srv))"
    by (rule ListenerCallback_plain [OF none]) (use i ok(2) in simp_all)
  show ?thesis
    using l run_accept [OF assms(2,3) l] cb by (auto simp: with_conn_def)
qed

text \<open>Property C19. Requests over the network: when a connection becomes readable and what it received is one array of at
  least one bulk string, of at most 1024 bytes in all and without an argument that ends in one of the marker
  characters \<open>+ - : $ *\<close> (\<open>SET\<close> and \<open>GET\<close> included, the two \<open>COMMAND\<close> requests apart), the server takes
  all of it, sends on the same connection an error naming the first element, and leaves the database as it was. The
  functions of libevent answer as documented.\<close>

theorem network_requests_rejected:
  assumes "netlib_documented N" and "net_run fuel E rem N (n, srv)" and "cb_arg N (world n) b = Some c"
    and "ev_documented rem" and "bev_input N (world n) b = resp_array args"
    and "args \<noteq> []" and "list_all plain_arg args" and "length (resp_array args) \<le> 1024"
    and "resp_array args \<notin> {kCommandDocs, kCommandDocs_2}" and "4 * length args + 2 \<le> fuel"
  shows "\<exists>n' srv'. ConnectionReadCallback N (srv_call fuel E rem N) b c (n, srv) = Some (Inr (n', srv')) \<and>
    world n' = snd (bufferevent_write N b (error_reply (hd args)) (bev_drain N b [] (world n))) \<and>
    srv_db srv' = srv_db srv \<and> net_run fuel E rem N (n', srv')"
proof -
  obtain conn where c: "heap n c = Some (1, conn)" "buf conn = Ptr b"
    "conn_handles conn = [Some HRead, Some HWrite, Some HClose, Some HTimeout]" "net_ok N n"
    using net_run_event [OF assms(1-3)] by blast
  have h: "readHandle conn = Some HRead" using c(3) by (simp add: conn_handles_def)
  have "serving E rem srv" using net_run_ok [OF assms(1,2)] by simp
  from server_rejects_requests [OF this assms(4,6-10)]
  obtain srv' where srv': "readHD fuel E rem (resp_array args) srv = Some (Inr (-1, srv', [], [error_reply (hd args)]))"
    "srv_db srv' = srv_db srv" by blast
  let ?conn = "conn\<lparr>ev_read_buf := Ptr b, ev_write_buf := Ptr b\<rparr>"
  let ?w = "snd (bufferevent_write N b (error_reply (hd args)) (bev_drain N b [] (world n)))"
  have "run_handle (srv_call fuel E rem N) (readHandle conn) c (borrow c ?conn n, srv) =
      Some (Inr ((borrow c ?conn n)\<lparr>world := ?w\<rparr>, srv'))"
    using srv'(1) c(2) assms(5) h
    by (simp add: run_handle_def srv_call_def srv_read_def deref_def borrow_def Send_def case_prod_beta)
  then have r: "ConnectionReadCallback N (srv_call fuel E rem N) b c (n, srv) =
      Some (Inr (n\<lparr>world := ?w, heap := (heap n)(c \<mapsto> (1, ?conn))\<rparr>, srv'))"
    by (simp add: ReadCallback_live [OF c(4,1)] leave_borrow)
  show ?thesis using r run_read [OF assms(2,3) r] srv'(2) by auto
qed

theorem network_requests_rejected_witness:
  "\<exists>n' srv'. ConnectionReadCallback example_netlib (srv_call 20 example_srv_env example_rem example_netlib) 0 0
      (example_net, example_server) = Some (Inr (n', srv')) \<and>
    world n' = snd (bufferevent_write example_netlib 0 (error_reply (hd example_request))
      (bev_drain example_netlib 0 [] (world example_net))) \<and>
    srv_db srv' = srv_db example_server \<and> net_run 20 example_srv_env example_rem example_netlib (n', srv')"
proof (rule network_requests_rejected [OF example_netlib_documented example_net_run example_arg])
  have req: "resp_array example_request = [42, 51, 13, 10, 36, 51, 13, 10, 83, 69, 84, 13, 10, 36, 49, 13, 10, 107, 13, 10,
      36, 49, 13, 10, 118, 13, 10]"
    by (simp add: example_request_def resp_array_def resp_counted_def resp_bulk_def kSetStr_def dec.simps)
  show "ev_documented example_rem" by (simp add: ev_documented_def example_rem_def)
  show "bev_input example_netlib (world example_net) 0 = resp_array example_request"
    by (simp add: example_netlib_def example_net_def)
  show "example_request \<noteq> []" "4 * length example_request + 2 \<le> 20" by (simp_all add: example_request_def)
  show "list_all plain_arg example_request" by (simp add: example_request_def plain_arg_def special_def kSetStr_def)
  show "length (resp_array example_request) \<le> 1024" "resp_array example_request \<notin> {kCommandDocs, kCommandDocs_2}"
    unfolding req by (simp_all add: kCommandDocs_def kCommandDocs_2_def)
qed

end
