(* ===== verification/Conn_Buffers.thy ===== *)
theory Conn_Buffers
  imports Net
begin

text \<open>
  The members of \<open>src/net/connection.hpp\<close> that work on the evbuffers of a connection, which the callbacks set to the
  input and the output of its buffer event. libevent's evbuffers are an argument; \<open>evbuf_documented\<close> is what their
  documentation promises of the calls.
\<close>

section \<open>evbuffers\<close>

datatype 'b evbuf = Input 'b | Output 'b

record ('w, 'b) evbuflib =
  evbuffer_get_length :: "'b evbuf \<Rightarrow> 'w \<Rightarrow> nat"
  evbuffer_remove :: "'b evbuf \<Rightarrow> nat \<Rightarrow> 'w \<Rightarrow> (int \<times> bytes) \<times> 'w"
  evbuffer_copyout :: "'b evbuf \<Rightarrow> nat \<Rightarrow> 'w \<Rightarrow> int \<times> bytes"
  evbuffer_add :: "'b evbuf \<Rightarrow> bytes \<Rightarrow> 'w \<Rightarrow> int \<times> 'w"
  evbuffer_add_buffer :: "'b evbuf \<Rightarrow> 'b evbuf \<Rightarrow> 'w \<Rightarrow> int \<times> 'w"
  bufferevent_write_buffer :: "'b \<Rightarrow> 'b evbuf \<Rightarrow> 'w \<Rightarrow> int \<times> 'w"
  ev_contents :: "'w \<Rightarrow> 'b evbuf \<Rightarrow> bytes"

text \<open>
  Removing and copying take at most what is there from the front, adding appends, and adding another buffer
  moves all of it.
\<close>

definition evbuf_documented :: "('w, 'b) evbuflib \<Rightarrow> bool" where
  "evbuf_documented L \<longleftrightarrow>
     (\<forall>e w. evbuffer_get_length L e w = length (ev_contents L w e)) \<and>
     (\<forall>e k w. fst (evbuffer_remove L e k w) = (int (min k (length (ev_contents L w e))), take k (ev_contents L w e)) \<and>
        ev_contents L (snd (evbuffer_remove L e k w)) = (ev_contents L w)(e := drop k (ev_contents L w e))) \<and>
     (\<forall>e k w. evbuffer_copyout L e k w = (int (min k (length (ev_contents L w e))), take k (ev_contents L w e))) \<and>
     (\<forall>e d w. fst (evbuffer_add L e d w) = 0 \<and>
        ev_contents L (snd (evbuffer_add L e d w)) = (ev_contents L w)(e := ev_contents L w e @ d)) \<and>
     (\<forall>e e' w. e \<noteq> e' \<longrightarrow> fst (evbuffer_add_buffer L e e' w) = 0 \<and>
        ev_contents L (snd (evbuffer_add_buffer L e e' w)) =
          (ev_contents L w)(e := ev_contents L w e @ ev_contents L w e', e' := []))"

section \<open>The members\<close>

text \<open>The evbuffers are not set before the first callback.\<close>

definition ev_ptr :: "('b \<Rightarrow> 'b evbuf) \<Rightarrow> 'b bufptr \<Rightarrow> 'b evbuf res" where
  "ev_ptr side p = (case p of Ptr b \<Rightarrow> Inr (side b) | Null \<Rightarrow> Inl NullDeref | Garbage \<Rightarrow> Inl Uninitialized)"

definition getEvReadBufferLen :: "('w, 'b) evbuflib \<Rightarrow> ('b, 'h) Connection \<Rightarrow> 'w \<Rightarrow> 32 word res" where
  "getEvReadBufferLen L conn w =
     rbind (ev_ptr Input (ev_read_buf conn)) (\<lambda>e. Inr (of_nat (evbuffer_get_length L e w)))"

definition conn_moveEvReadBuffer ::
  "('w, 'b) evbuflib \<Rightarrow> nat \<Rightarrow> ('b, 'h) Connection \<Rightarrow> 'w \<Rightarrow> ((int \<times> bytes) \<times> 'w) res" where
  "conn_moveEvReadBuffer L data_len conn w =
     rbind (ev_ptr Input (ev_read_buf conn)) (\<lambda>e. Inr (evbuffer_remove L e data_len w))"

definition moveEvWriteBuffer ::
  "('w, 'b) evbuflib \<Rightarrow> nat \<Rightarrow> ('b, 'h) Connection \<Rightarrow> 'w \<Rightarrow> ((int \<times> bytes) \<times> 'w) res" where
  "moveEvWriteBuffer L data_len conn w =
     rbind (ev_ptr Output (ev_write_buf conn)) (\<lambda>e. Inr (evbuffer_remove L e data_len w))"

definition copyEvReadBuffer :: "('w, 'b) evbuflib \<Rightarrow> nat \<Rightarrow> ('b, 'h) Connection \<Rightarrow> 'w \<Rightarrow> (int \<times> bytes) res" where
  "copyEvReadBuffer L data_len conn w =
     rbind (ev_ptr Input (ev_read_buf conn)) (\<lambda>e. Inr (evbuffer_copyout L e data_len w))"

definition getEvWriteBufferSize :: "('w, 'b) evbuflib \<Rightarrow> ('b, 'h) Connection \<Rightarrow> 'w \<Rightarrow> u32 res" where
  "getEvWriteBufferSize L conn w =
     rbind (ev_ptr Output (ev_write_buf conn)) (\<lambda>e. Inr (of_nat (evbuffer_get_length L e w)))"

definition addToWriteBuffer :: "('w, 'b) evbuflib \<Rightarrow> bytes \<Rightarrow> ('b, 'h) Connection \<Rightarrow> 'w \<Rightarrow> (int \<times> 'w) res" where
  "addToWriteBuffer L data conn w =
     rbind (ev_ptr Output (ev_write_buf conn)) (\<lambda>e. Inr (evbuffer_add L e data w))"

definition addbufToWriteBuffer :: "('w, 'b) evbuflib \<Rightarrow> 'b evbuf \<Rightarrow> ('b, 'h) Connection \<Rightarrow> 'w \<Rightarrow> (int \<times> 'w) res" where
  "addbufToWriteBuffer L src conn w =
     rbind (ev_ptr Output (ev_write_buf conn)) (\<lambda>e. Inr (evbuffer_add_buffer L e src w))"

definition move_buf_read_to_write :: "('w, 'b) evbuflib \<Rightarrow> ('b, 'h) Connection \<Rightarrow> 'w \<Rightarrow> 'w res" where
  "move_buf_read_to_write L conn w =
     rbind (ev_ptr Output (ev_write_buf conn)) (\<lambda>e.
     rbind (ev_ptr Input (ev_read_buf conn)) (\<lambda>e'. Inr (snd (evbuffer_add_buffer L e e' w))))"

text \<open>The evbuffer handed over is the output of the same buffer event.\<close>

definition SendEvWriteBuffer :: "('w, 'b) evbuflib \<Rightarrow> ('b, 'h) Connection \<Rightarrow> 'w \<Rightarrow> (int \<times> 'w) res" where
  "SendEvWriteBuffer L conn w =
     (case buf conn of
        Ptr b \<Rightarrow> rbind (ev_ptr Output (ev_write_buf conn)) (\<lambda>e. Inr (bufferevent_write_buffer L b e w))
      | Null \<Rightarrow> Inl NullDeref | Garbage \<Rightarrow> Inl Uninitialized)"

section \<open>Lemmas\<close>

text \<open>In a callback: the connection as \<open>set_ev_bufs\<close> leaves it.\<close>

abbreviation in_callback :: "'b \<Rightarrow> ('b, 'h) Connection \<Rightarrow> ('b, 'h) Connection" where
  "in_callback b conn \<equiv> conn\<lparr>ev_read_buf := Ptr b, ev_write_buf := Ptr b\<rparr>"

text \<open>An echo handler: everything received is moved behind what is waiting to be sent, and nothing is left to read.\<close>

lemma echo_moves_all:
  assumes "evbuf_documented L"
  shows "\<exists>w'. move_buf_read_to_write L (in_callback b conn) w = Inr w' \<and>
    ev_contents L w' (Output b) = ev_contents L w (Output b) @ ev_contents L w (Input b) \<and>
    ev_contents L w' (Input b) = []"
  using assms by (simp add: move_buf_read_to_write_def ev_ptr_def evbuf_documented_def)

text \<open>Copying leaves the data where it is: what is copied is what a later move takes.\<close>

lemma copy_then_move:
  assumes "evbuf_documented L"
  shows "\<exists>r w'. copyEvReadBuffer L k (in_callback b conn) w = Inr r \<and>
    conn_moveEvReadBuffer L k (in_callback b conn) w = Inr (r, w') \<and>
    ev_contents L w (Input b) = snd r @ ev_contents L w' (Input b) \<and> fst r = int (length (snd r))"
proof -
  obtain r w' where "evbuffer_remove L (Input b) k w = (r, w')" by fastforce
  moreover from this have "r = (int (min k (length (ev_contents L w (Input b)))), take k (ev_contents L w (Input b)))"
    "ev_contents L w' (Input b) = drop k (ev_contents L w (Input b))"
    using assms unfolding evbuf_documented_def by (metis fst_conv, metis fun_upd_same snd_conv)
  ultimately show ?thesis
    using assms by (simp add: copyEvReadBuffer_def conn_moveEvReadBuffer_def ev_ptr_def evbuf_documented_def min.commute)
qed

text \<open>Before its first callback a connection has no evbuffers: every one of these members uses an unset pointer.\<close>

lemma no_buffers_before_callback:
  "move_buf_read_to_write L (Connection_ctor g sock rh wh ch th) w = Inl Uninitialized"
  "copyEvReadBuffer L k (Connection_ctor g sock rh wh ch th) w = Inl Uninitialized"
  "addToWriteBuffer L d (Connection_ctor g sock rh wh ch th) w = Inl Uninitialized"
  by (simp_all add: move_buf_read_to_write_def copyEvReadBuffer_def addToWriteBuffer_def ev_ptr_def
      Connection_ctor_def Connection_default_def)

text \<open>Byte strings keep the documentation.\<close>

definition plain_evbufs :: "('b evbuf \<Rightarrow> bytes, 'b) evbuflib" where
  "plain_evbufs = \<lparr>
     evbuffer_get_length = (\<lambda>e w. length (w e)),
     evbuffer_remove = (\<lambda>e k w. ((int (min k (length (w e))), take k (w e)), w(e := drop k (w e)))),
     evbuffer_copyout = (\<lambda>e k w. (int (min k (length (w e))), take k (w e))),
     evbuffer_add = (\<lambda>e d w. (0, w(e := w e @ d))),
     evbuffer_add_buffer = (\<lambda>e e' w. (0, if e = e' then w else w(e := w e @ w e', e' := []))),
     bufferevent_write_buffer = (\<lambda>b e w. (0, if e = Output b then w else w(Output b := w (Output b) @ w e, e := []))),
     ev_contents = (\<lambda>w. w)\<rparr>"

lemma plain_evbufs_documented: "evbuf_documented plain_evbufs"
  by (simp add: evbuf_documented_def plain_evbufs_def)

end
