(* ===== verification/Raft.thy ===== *)
theory Raft
  imports Prelude
begin

text \<open>
  Leader election: \<open>src/raft\<close>. A node, the handler of vote requests, the peers, and the fibers of an election: one
  that launches the others, one per peer that sends the request, one per reply. The fibers share the local variables
  of the launching fiber by reference; a frame holds these variables and is gone when that fiber has returned, so
  that a later access is \<open>UseAfterFree\<close>. A new fiber is put into the ready queue and runs when the running one has
  ended or waits (the documented launch policy of the fiber library when none is given); which ready fiber is
  next is left open. The clock and the answers of remote calls are arguments. \<open>getLastLogIndex\<close> and
  \<open>getLastLogTerm\<close> have no definition in the sources; what they return is part of the node.
\<close>

section \<open>Configuration and nodes\<close>

record RaftConfig =
  min_election_interval_ms :: u64
  max_election_interval_ms :: u64
  append_interval_ms :: u64
  node_counts :: u64

definition RaftConfig_default :: RaftConfig where
  "RaftConfig_default =
     \<lparr>min_election_interval_ms = 700 * 1000, max_election_interval_ms = 1000 * 1000, append_interval_ms = 200 * 1000,
      node_counts = 3\<rparr>"

datatype RaftRoles = kLeader | kFollower | kCandidates | kLearner

fun role_int :: "RaftRoles \<Rightarrow> nat" where
  "role_int kLeader = 0"
| "role_int kFollower = 1"
| "role_int kCandidates = 2"
| "role_int kLearner = 3"

definition kRaftRolesStr :: "string list" where
  "kRaftRolesStr = [''Leader'', ''Follower'', ''Candidates'', ''Learner'']"

record RaftLog =
  last_log_index :: u64
  last_log_term :: u64

record RaftNode =
  now_time :: u64
  node_time :: u64
  node_id :: u64
  raft_role :: RaftRoles
  node_ip :: bytes
  node_port :: u32
  node_term :: u64
  node_logvec :: RaftLog
  vote_for_id :: bytes

text \<open>\<open>tv_sec * 1000000L * tv_usec\<close>: signed products, each of which must fit.\<close>

definition mul_long :: "int \<Rightarrow> int \<Rightarrow> int res" where
  "mul_long x y = (if - (2 ^ 63) \<le> x * y \<and> x * y < 2 ^ 63 then Inr (x * y) else Inl SignedOverflow)"

definition getNow :: "int \<times> int \<Rightarrow> u64 res" where
  "getNow tval = rbind (mul_long (fst tval) 1000000) (\<lambda>us. rbind (mul_long us (snd tval)) (\<lambda>t. Inr (of_int t)))"

definition be_Leader :: "RaftNode \<Rightarrow> RaftNode" where "be_Leader n = n\<lparr>raft_role := kLeader\<rparr>"
definition be_Follower :: "RaftNode \<Rightarrow> RaftNode" where "be_Follower n = n\<lparr>raft_role := kFollower\<rparr>"
definition be_Candidates :: "RaftNode \<Rightarrow> RaftNode" where "be_Candidates n = n\<lparr>raft_role := kCandidates\<rparr>"
definition be_Learner :: "RaftNode \<Rightarrow> RaftNode" where "be_Learner n = n\<lparr>raft_role := kLearner\<rparr>"

definition get_RolesStr :: "RaftNode \<Rightarrow> string res" where
  "get_RolesStr n = rd kRaftRolesStr (role_int (raft_role n))"

definition addTerm :: "RaftNode \<Rightarrow> RaftNode" where
  "addTerm n = n\<lparr>node_term := node_term n + 1\<rparr>"

definition setTerm :: "u64 \<Rightarrow> RaftNode \<Rightarrow> RaftNode res" where
  "setTerm term n = rbind (guard (term > node_term n) AssertFail) (\<lambda>_. Inr (n\<lparr>node_term := term\<rparr>))"

definition getTerm :: "RaftNode \<Rightarrow> u64" where
  "getTerm n = node_term n"

text \<open>\<open>node_time_\<close> is never set.\<close>

definition is_timeout :: "RaftConfig \<Rightarrow> int \<times> int \<Rightarrow> RaftNode \<Rightarrow> (bool \<times> RaftNode) res" where
  "is_timeout cfg tval n =
     rbind (getNow tval) (\<lambda>t.
     let n = n\<lparr>now_time := t\<rparr> in
     rbind (guard (now_time n > node_time n) AssertFail) (\<lambda>_.
       Inr (now_time n - node_time n > max_election_interval_ms cfg, n)))"

section \<open>Messages and handlers\<close>

record RequestVoteArgs =
  arg_term :: u64
  arg_candidateid :: u64
  arg_lastlogindex :: u64
  arg_lastlogterm :: u64

record RequestVoteReply =
  reply_term :: u64
  votegranted :: bool

definition empty_reply :: RequestVoteReply where
  "empty_reply = \<lparr>reply_term = 0, votegranted = False\<rparr>"

text \<open>The service. With equal terms the function has no \<open>return\<close>.\<close>

definition RequestVote_handler :: "RequestVoteArgs \<Rightarrow> RequestVoteReply \<Rightarrow> RaftNode \<Rightarrow> (RequestVoteReply \<times> RaftNode) res" where
  "RequestVote_handler arg reply node =
     (if arg_term arg < getTerm node then
        Inr (reply\<lparr>reply_term := getTerm node, votegranted := False\<rparr>, node)
      else if arg_term arg > getTerm node then
        let node = be_Follower node in
        rbind (setTerm (arg_term arg) node) (\<lambda>node. Inr (reply, node))
      else Inl MissingReturn)"

definition AppendEntries_handler :: "RaftNode \<Rightarrow> RaftNode res" where
  "AppendEntries_handler node = Inl MissingReturn"

definition InstallSnapshot_handler :: "RaftNode \<Rightarrow> RaftNode res" where
  "InstallSnapshot_handler node = Inl MissingReturn"

text \<open>The request a peer object builds.\<close>

definition vote_args :: "RaftNode \<Rightarrow> RequestVoteArgs" where
  "vote_args node = \<lparr>arg_term = getTerm node, arg_candidateid = node_id node,
     arg_lastlogindex = last_log_index (node_logvec node), arg_lastlogterm = last_log_term (node_logvec node)\<rparr>"

section \<open>Peers\<close>

record RaftPeerNode =
  server_info :: bytes
  peer_stub :: bool

text \<open>\<open>stub\<close>: whether the remote-call library gave a stub.\<close>

definition RaftPeerNode_Init :: "bool \<Rightarrow> bytes \<Rightarrow> u32 \<Rightarrow> RaftPeerNode \<Rightarrow> (bool \<times> RaftPeerNode) res" where
  "RaftPeerNode_Init stub peer_ip peer_port p =
     (let p = p\<lparr>server_info := peer_ip @ [58] @ dec (unat peer_port), peer_stub := stub\<rparr> in
      rbind (guard (peer_stub p) AssertFail) (\<lambda>_. Inr (True, p)))"

text \<open>A remote call: the promise is set when the call succeeds, and left alone otherwise.\<close>

definition RaftPeerNode_RequestVote ::
  "(RequestVoteArgs \<Rightarrow> RequestVoteReply option) \<Rightarrow> RaftNode \<Rightarrow> RaftPeerNode \<Rightarrow> RequestVoteReply option \<Rightarrow>
   RequestVoteReply option res" where
  "RaftPeerNode_RequestVote rpc node p promise =
     rbind (guard (peer_stub p) NullDeref) (\<lambda>_.
       Inr (case rpc (vote_args node) of Some r \<Rightarrow> Some r | None \<Rightarrow> promise))"

section \<open>An election\<close>

text \<open>The local variables of the launching fiber; a promise is its value, if it was set.\<close>

record election_frame =
  vote_counts :: u32
  is_leader :: bool
  request_info_vec :: "RequestVoteReply option list"

definition new_frame :: "RaftConfig \<Rightarrow> election_frame" where
  "new_frame cfg =
     \<lparr>vote_counts = 1, is_leader = False, request_info_vec = replicate (unat (node_counts cfg)) None\<rparr>"

text \<open>
  The fibers of a server: those that launch an election, and those that send a request or wait for a reply, with the
  number of their frame and the index they were launched with.
\<close>

datatype fiber = Launcher | Sender nat nat | Waiter nat nat

record raft_state =
  rs_node :: RaftNode
  rs_peers :: "RaftPeerNode list"
  frames :: "election_frame option list"
  ready :: "fiber list"

definition live_frame :: "nat \<Rightarrow> raft_state \<Rightarrow> election_frame res" where
  "live_frame k s = rbind (rd (frames s) k) (\<lambda>f. case f of None \<Rightarrow> Inl UseAfterFree | Some f \<Rightarrow> Inr f)"

definition set_frame :: "nat \<Rightarrow> election_frame option \<Rightarrow> raft_state \<Rightarrow> raft_state" where
  "set_frame k f s = s\<lparr>frames := (frames s)[k := f]\<rparr>"

text \<open>The timer: nothing, or a candidate in the next term and a fiber that launches the election.\<close>

definition RequestVoteOnTimed :: "RaftConfig \<Rightarrow> int \<times> int \<Rightarrow> raft_state \<Rightarrow> raft_state res" where
  "RequestVoteOnTimed cfg tval s =
     rbind (is_timeout cfg tval (rs_node s)) (\<lambda>(expired, node).
     if \<not> expired then Inr (s\<lparr>rs_node := node\<rparr>)
     else Inr (s\<lparr>rs_node := addTerm (be_Candidates node), ready := ready s @ [Launcher]\<rparr>))"

text \<open>The launching fiber: its variables, a fiber per peer and one per promise, and the end of the variables.\<close>

definition run_launcher :: "RaftConfig \<Rightarrow> raft_state \<Rightarrow> raft_state" where
  "run_launcher cfg s =
     (let k = length (frames s);
          s = s\<lparr>frames := frames s @ [Some (new_frame cfg)]\<rparr>;
          s = s\<lparr>ready := ready s @ map (Sender k) [0..<length (rs_peers s)]\<rparr>;
          s = s\<lparr>ready := ready s @ map (Waiter k) [0..<unat (node_counts cfg)]\<rparr> in
      set_frame k None s)"

definition run_sender ::
  "(RequestVoteArgs \<Rightarrow> RequestVoteReply option) \<Rightarrow> nat \<Rightarrow> nat \<Rightarrow> raft_state \<Rightarrow> raft_state res" where
  "run_sender rpc k i s =
     rbind (guard (i \<le> length (rs_peers s)) AssertFail) (\<lambda>_.
     rbind (rd (rs_peers s) i) (\<lambda>peer.
     rbind (live_frame k s) (\<lambda>f.
     rbind (rd (request_info_vec f) i) (\<lambda>promise.
     rbind (RaftPeerNode_RequestVote rpc (rs_node s) peer promise) (\<lambda>promise.
       Inr (set_frame k (Some (f\<lparr>request_info_vec := (request_info_vec f)[i := promise]\<rparr>)) s))))))"

text \<open>What a waiting fiber does with its reply.\<close>

definition handle_reply :: "RaftConfig \<Rightarrow> RequestVoteReply \<Rightarrow> nat \<Rightarrow> raft_state \<Rightarrow> raft_state res" where
  "handle_reply cfg reply k s =
     rbind (if reply_term reply > getTerm (rs_node s)
            then setTerm (reply_term reply) (be_Follower (rs_node s)) else Inr (rs_node s)) (\<lambda>node.
     let s = s\<lparr>rs_node := node\<rparr> in
     rbind (live_frame k s) (\<lambda>f.
     let f = (if votegranted reply then f\<lparr>vote_counts := vote_counts f + 1\<rparr> else f) in
     Inr (if ucast (vote_counts f) > node_counts cfg div 2 \<and> \<not> is_leader f
          then set_frame k (Some (f\<lparr>is_leader := True\<rparr>)) (s\<lparr>rs_node := be_Leader (rs_node s)\<rparr>)
          else set_frame k (Some f) s)))"

text \<open>A fiber whose promise is not set yet waits, and \<open>get\<close> waits again when the time is over: it goes back to
  the queue.\<close>

definition run_waiter :: "RaftConfig \<Rightarrow> nat \<Rightarrow> nat \<Rightarrow> raft_state \<Rightarrow> raft_state res" where
  "run_waiter cfg k i s =
     rbind (live_frame k s) (\<lambda>f.
     rbind (rd (request_info_vec f) i) (\<lambda>promise. case promise of
       None \<Rightarrow> Inr (s\<lparr>ready := ready s @ [Waiter k i]\<rparr>)
     | Some reply \<Rightarrow> handle_reply cfg reply k s))"

fun run_fiber ::
  "RaftConfig \<Rightarrow> (RequestVoteArgs \<Rightarrow> RequestVoteReply option) \<Rightarrow> fiber \<Rightarrow> raft_state \<Rightarrow> raft_state res" where
  "run_fiber cfg rpc Launcher s = Inr (run_launcher cfg s)"
| "run_fiber cfg rpc (Sender k i) s = run_sender rpc k i s"
| "run_fiber cfg rpc (Waiter k i) s = run_waiter cfg k i s"

section \<open>Runs\<close>

text \<open>
  The runs of a server: its timer fires, a ready fiber runs until it ends or waits, a request of another node is
  served. The members of the node are not protected; a step is taken to see and leave them whole.
\<close>

inductive raft_run :: "RaftConfig \<Rightarrow> raft_state \<Rightarrow> raft_state \<Rightarrow> bool" for cfg s0 where
  run_start: "raft_run cfg s0 s0"
| run_timer: "raft_run cfg s0 s \<Longrightarrow> RequestVoteOnTimed cfg tval s = Inr s' \<Longrightarrow> raft_run cfg s0 s'"
| run_ready: "raft_run cfg s0 s \<Longrightarrow> ready s = pre @ fb # post \<Longrightarrow>
    run_fiber cfg rpc fb (s\<lparr>ready := pre @ post\<rparr>) = Inr s' \<Longrightarrow> raft_run cfg s0 s'"
| run_serve: "raft_run cfg s0 s \<Longrightarrow> RequestVote_handler arg empty_reply (rs_node s) = Inr (r, n) \<Longrightarrow>
    raft_run cfg s0 (s\<lparr>rs_node := n\<rparr>)"

text \<open>The service on a sequence of requests.\<close>

fun serve_votes :: "RequestVoteArgs list \<Rightarrow> RaftNode \<Rightarrow> (RequestVoteReply list \<times> RaftNode) res" where
  "serve_votes [] node = Inr ([], node)"
| "serve_votes (a # as) node =
     rbind (RequestVote_handler a empty_reply node) (\<lambda>(r, node).
     rbind (serve_votes as node) (\<lambda>(rs, node). Inr (r # rs, node)))"

section \<open>Lemmas\<close>

text \<open>The three cases of the service.\<close>

lemma handler_cases:
  "RequestVote_handler a empty_reply node =
     (if arg_term a = node_term node then Inl MissingReturn
      else if arg_term a < node_term node then Inr (\<lparr>reply_term = node_term node, votegranted = False\<rparr>, node)
      else Inr (empty_reply, node\<lparr>raft_role := kFollower, node_term := arg_term a\<rparr>))"
  by (auto simp: RequestVote_handler_def getTerm_def setTerm_def be_Follower_def empty_reply_def)

lemma handler_role:
  "RequestVote_handler a empty_reply node = Inr (r, node') \<Longrightarrow> raft_role node \<noteq> kLeader \<Longrightarrow> raft_role node' \<noteq> kLeader"
  by (auto simp: handler_cases split: if_splits)

lemma OnTimed_cases:
  assumes "RequestVoteOnTimed cfg tval s = Inr s'"
  shows "frames s' = frames s" "rs_peers s' = rs_peers s" "ready s' = ready s \<or> ready s' = ready s @ [Launcher]"
    "raft_role (rs_node s) \<noteq> kLeader \<Longrightarrow> raft_role (rs_node s') \<noteq> kLeader"
  using assms by (auto simp: RequestVoteOnTimed_def is_timeout_def rbind_eq_Inr_iff Let_def addTerm_def
      be_Candidates_def split: if_splits)

text \<open>A fiber of an election whose launcher has returned.\<close>

fun orphan :: "raft_state \<Rightarrow> fiber \<Rightarrow> bool" where
  "orphan s Launcher \<longleftrightarrow> False"
| "orphan s (Sender k i) \<longleftrightarrow> k < length (frames s) \<and> frames s ! k = None \<and> i < length (rs_peers s)"
| "orphan s (Waiter k i) \<longleftrightarrow> k < length (frames s) \<and> frames s ! k = None"

lemma orphan_fails: "orphan s fb \<Longrightarrow> run_fiber cfg rpc fb s = Inl UseAfterFree"
  by (cases fb) (simp_all add: run_sender_def run_waiter_def live_frame_def)

lemma orphan_cong: "frames s' = frames s \<Longrightarrow> rs_peers s' = rs_peers s \<Longrightarrow> orphan s' fb = orphan s fb"
  by (cases fb) simp_all

lemma run_launcher_simps:
  "frames (run_launcher cfg s) = frames s @ [None]" "rs_peers (run_launcher cfg s) = rs_peers s"
  "rs_node (run_launcher cfg s) = rs_node s"
  "ready (run_launcher cfg s) = ready s @ map (Sender (length (frames s))) [0..<length (rs_peers s)] @
     map (Waiter (length (frames s))) [0..<unat (node_counts cfg)]"
  by (simp_all add: run_launcher_def set_frame_def Let_def)

lemma orphan_launcher: "orphan s fb \<Longrightarrow> orphan (run_launcher cfg s) fb"
  by (cases fb) (simp_all add: run_launcher_simps nth_append)

lemma launched_orphans:
  "fb \<in> set (map (Sender (length (frames s))) [0..<length (rs_peers s)] @
     map (Waiter (length (frames s))) [0..<unat (node_counts cfg)]) \<Longrightarrow> orphan (run_launcher cfg s) fb"
  by (auto simp: run_launcher_simps)

text \<open>The invariant of a server: it does not lead, and every ready fiber is a launcher or an orphan.\<close>

definition stranded :: "raft_state \<Rightarrow> bool" where
  "stranded s \<longleftrightarrow> raft_role (rs_node s) \<noteq> kLeader \<and> (\<forall>fb \<in> set (ready s). fb = Launcher \<or> orphan s fb)"

lemma stranded_launcher: "stranded s \<Longrightarrow> stranded (run_launcher cfg s)"
  using orphan_launcher [of s _ cfg] launched_orphans [of _ s cfg]
  by (auto simp: stranded_def run_launcher_simps(3,4))

lemma raft_run_stranded: "raft_run cfg s0 s \<Longrightarrow> stranded s0 \<Longrightarrow> stranded s"
proof (induction rule: raft_run.induct)
  case (run_timer s tval s')
  then have "stranded s" by simp
  then show ?case
    using OnTimed_cases [OF run_timer(2)] orphan_cong [of s' s] by (auto simp: stranded_def)
next
  case (run_ready s pre fb post rpc s')
  let ?s = "s\<lparr>ready := pre @ post\<rparr>"
  have s: "stranded s" using run_ready by simp
  then have ok: "stranded ?s" using run_ready(2) orphan_cong [of ?s s] by (auto simp: stranded_def)
  have "fb = Launcher"
    using s run_ready(2,3) orphan_fails [of ?s fb cfg rpc] orphan_cong [of ?s s fb] by (auto simp: stranded_def)
  then show ?case using run_ready(3) stranded_launcher [OF ok] by auto
next
  case (run_serve s arg r n)
  then show ?case
    using handler_role orphan_cong [of "s\<lparr>rs_node := n\<rparr>" s] by (auto simp: stranded_def)
qed

text \<open>The service as a function of the terms: a request that meets the term of the node, and the replies to the others.\<close>

fun meets_term :: "u64 \<Rightarrow> u64 list \<Rightarrow> bool" where
  "meets_term t [] = False"
| "meets_term t (a # as) = (a = t \<or> meets_term (max t a) as)"

fun refusals :: "u64 \<Rightarrow> u64 list \<Rightarrow> RequestVoteReply list" where
  "refusals t [] = []"
| "refusals t (a # as) = (if a < t then \<lparr>reply_term = t, votegranted = False\<rparr> else empty_reply) # refusals (max t a) as"

lemma refusals_refuse: "list_all (\<lambda>r. \<not> votegranted r) (refusals t ts)"
  by (induction t ts rule: refusals.induct) (simp_all add: empty_reply_def)

lemma foldl_max_ge: "(t :: u64) \<le> foldl max t ts"
proof (induction ts arbitrary: t)
  case (Cons a ts)
  have "t \<le> max t a" by simp
  also have "\<dots> \<le> foldl max (max t a) ts" by (rule Cons.IH)
  finally show ?case by simp
qed simp

lemma serve_votes_eq:
  "serve_votes as node =
     (if meets_term (node_term node) (map arg_term as) then Inl MissingReturn
      else Inr (refusals (node_term node) (map arg_term as),
        node\<lparr>raft_role := if node_term node < foldl max (node_term node) (map arg_term as) then kFollower
               else raft_role node,
             node_term := foldl max (node_term node) (map arg_term as)\<rparr>))"
proof (induction "as" arbitrary: node)
  case (Cons a "as")
  consider "arg_term a = node_term node" | "arg_term a < node_term node" | "node_term node < arg_term a"
    by (rule linorder_cases)
  then show ?case
  proof cases
    case 3
    then have "node_term node < foldl max (arg_term a) (map arg_term as)"
      using foldl_max_ge less_le_trans by blast
    with 3 show ?thesis by (auto simp: handler_cases Cons.IH)
  qed (auto simp: handler_cases Cons.IH)
qed simp

text \<open>A fresh node, and a server with one peer.\<close>

definition example_node :: "u64 \<Rightarrow> RaftNode" where
  "example_node i = \<lparr>now_time = 0, node_time = 0, node_id = i, raft_role = kFollower, node_ip = [], node_port = 0,
     node_term = 0, node_logvec = \<lparr>last_log_index = 0, last_log_term = 0\<rparr>, vote_for_id = []\<rparr>"

definition example_server :: raft_state where
  "example_server = \<lparr>rs_node = example_node 0, rs_peers = [\<lparr>server_info = [], peer_stub = True\<rparr>], frames = [], ready = []\<rparr>"

section \<open>Properties\<close>

text \<open>Property C23. No election is ever decided. However the timer, the fibers and the requests of other nodes
  interleave, starting without fibers and not as leader: the server does not become leader, and every ready fiber
  that sends a request or waits for a reply ends, whatever a remote call would answer, with an access to the
  variables of the launching fiber, which has returned before. A timeout makes the node a candidate in the next term and
  launches such a fiber for every peer and for every node of the cluster.\<close>

theorem election_fibers_dangle:
  assumes "raft_run cfg s0 s" and "frames s0 = []" and "ready s0 = []" and "raft_role (rs_node s0) \<noteq> kLeader"
  shows "raft_role (rs_node s) \<noteq> kLeader \<and>
    (\<forall>fb. fb \<in> set (ready s) \<and> fb \<noteq> Launcher \<longrightarrow> run_fiber cfg rpc fb s = Inl UseAfterFree) \<and>
    (\<forall>tval node. is_timeout cfg tval (rs_node s) = Inr (True, node) \<longrightarrow>
      RequestVoteOnTimed cfg tval s =
        Inr (s\<lparr>rs_node := node\<lparr>raft_role := kCandidates, node_term := node_term node + 1\<rparr>, ready := ready s @ [Launcher]\<rparr>)) \<and>
    (\<exists>s'. run_fiber cfg rpc Launcher s = Inr s' \<and> rs_node s' = rs_node s \<and>
      ready s' = ready s @ map (Sender (length (frames s))) [0..<length (rs_peers s)] @
        map (Waiter (length (frames s))) [0..<unat (node_counts cfg)])"
proof -
  have "stranded s" using raft_run_stranded [OF assms(1)] assms(3,4) by (simp add: stranded_def)
  then show ?thesis
    using orphan_fails [of s _ cfg rpc]
    by (auto simp: stranded_def run_launcher_simps RequestVoteOnTimed_def addTerm_def be_Candidates_def)
qed

theorem election_fibers_dangle_witness:
  "\<exists>s'. raft_run RaftConfig_default example_server s' \<and> length (ready s') = 4 \<and> node_term (rs_node s') = 1 \<and>
    raft_role (rs_node s') \<noteq> kLeader \<and>
    run_fiber RaftConfig_default (\<lambda>_. Some \<lparr>reply_term = 1, votegranted = True\<rparr>) (Sender 0 0) s' = Inl UseAfterFree"
proof -
  let ?n = "(example_node 0)\<lparr>now_time := 4000000, raft_role := kCandidates, node_term := 1\<rparr>"
  let ?s1 = "example_server\<lparr>rs_node := ?n, ready := [Launcher]\<rparr>"
  have timer: "RequestVoteOnTimed RaftConfig_default (2, 2) example_server = Inr ?s1"
    by (simp add: RequestVoteOnTimed_def is_timeout_def getNow_def mul_long_def example_node_def example_server_def
        RaftConfig_default_def addTerm_def be_Candidates_def)
  let ?s = "run_launcher RaftConfig_default (?s1\<lparr>ready := []\<rparr>)"
  have run: "raft_run RaftConfig_default example_server ?s"
    by (rule run_ready [OF run_timer [OF run_start timer], of "[]" Launcher "[]"]) simp_all
  have start: "frames example_server = []" "ready example_server = []" "raft_role (rs_node example_server) \<noteq> kLeader"
    by (simp_all add: example_server_def example_node_def)
  have "Sender 0 0 \<in> set (ready ?s) \<and> Sender 0 0 \<noteq> Launcher" by (simp add: run_launcher_simps example_server_def)
  then have "run_fiber RaftConfig_default (\<lambda>_. Some \<lparr>reply_term = 1, votegranted = True\<rparr>) (Sender 0 0) ?s = Inl UseAfterFree"
    "raft_role (rs_node ?s) \<noteq> kLeader"
    using election_fibers_dangle [OF run start] by blast+
  then show ?thesis
    using run by (intro exI [of _ ?s]) (simp_all add: run_launcher_simps example_server_def RaftConfig_default_def)
qed

text \<open>Property C26. The vote service, on any requests one after another, never grants a vote. It does not return exactly
  when a request has the term that the node has at that moment. Otherwise a request of a smaller term is answered
  with the term of the node and one of a greater term with an empty reply; the term of the node becomes the
  greatest of its own and those of the requests, and the node is a follower if that is a new term and keeps its role if
  not.\<close>

theorem service_never_votes:
  "serve_votes as node =
     (if meets_term (node_term node) (map arg_term as) then Inl MissingReturn
      else Inr (refusals (node_term node) (map arg_term as),
        node\<lparr>raft_role := if node_term node < foldl max (node_term node) (map arg_term as) then kFollower
               else raft_role node,
             node_term := foldl max (node_term node) (map arg_term as)\<rparr>)) \<and>
   list_all (\<lambda>r. \<not> votegranted r) (refusals (node_term node) (map arg_term as))"
  by (simp add: serve_votes_eq refusals_refuse)

end
