(* ===== verification/Raft_Server.thy ===== *)
theory Raft_Server
  imports Raft Timers
begin

text \<open>
  \<open>RaftServer\<close> and its timers: \<open>src/raft/raft_server.cpp\<close> and \<open>src/raft/raft_server.hpp\<close>. The timers are those of \<open>Timers\<close>; their callbacks are the two members that the server
  binds. Intervals that are never set are arguments called \<open>garbage\<close>.
\<close>

section \<open>The server\<close>

datatype raft_callback = OnRequestVote | OnAppendEntries

record 'e RaftServer =
  RequestVoteTimer :: "('e, raft_callback) RepeatedTimer"
  AppendEntriesTimer :: "('e, raft_callback) RepeatedTimer"
  raft_members :: raft_state

text \<open>\<open>raft_request_vote\<close> and \<open>raft_append_entries\<close>.\<close>

definition request_vote_name :: bytes where
  "request_vote_name = map (of_nat \<circ> of_char) ''raft_request_vote''"

definition append_entries_name :: bytes where
  "append_entries_name = map (of_nat \<circ> of_char) ''raft_append_entries''"

text \<open>What \<open>Init\<close> does before it runs off its end.\<close>

definition RaftServer_Init_body ::
  "timeval \<Rightarrow> timeval \<Rightarrow> bool \<Rightarrow> 'e RaftServer \<Rightarrow> 'e RaftServer" where
  "RaftServer_Init_body garbage garbage' net_server s =
     (let s = s\<lparr>RequestVoteTimer := RepeatedTimer_Init garbage (Some OnRequestVote) net_server request_vote_name
                  (RequestVoteTimer s)\<rparr> in
      s\<lparr>AppendEntriesTimer := RepeatedTimer_Init garbage' (Some OnAppendEntries) net_server append_entries_name
          (AppendEntriesTimer s)\<rparr>)"

definition RaftServer_Init :: "timeval \<Rightarrow> timeval \<Rightarrow> bool \<Rightarrow> 'e RaftServer \<Rightarrow> (bool \<times> 'e RaftServer) res" where
  "RaftServer_Init garbage garbage' net_server s =
     (let s = RaftServer_Init_body garbage garbage' net_server s in Inl MissingReturn)"

text \<open>The callbacks on the members of the server; the second one has an empty body.\<close>

fun raft_call ::
  "RaftConfig \<Rightarrow> int \<times> int \<Rightarrow> raft_callback \<Rightarrow> ('e, raft_callback) RepeatedTimer \<times> raft_state \<Rightarrow>
   (('e, raft_callback) RepeatedTimer \<times> raft_state) res" where
  "raft_call cfg tval OnRequestVote (t, s) = rbind (RequestVoteOnTimed cfg tval s) (\<lambda>s. Inr (t, s))"
| "raft_call cfg tval OnAppendEntries (t, s) = Inl MissingReturn"

section \<open>Lemmas\<close>

text \<open>
  \<open>Init\<close> arms nothing: it leaves the events of the timers as they were, and neither it nor any other part of the
  sources calls \<open>Run\<close>. On an event loop in which they are not pending, no number of turns starts an election.
\<close>

lemma Init_arms_nothing:
  assumes "\<not> event_armed L (re_tick_evt (RequestVoteTimer s))"
  shows "repeated_turns n L (raft_call cfg tval)
      (RequestVoteTimer (RaftServer_Init_body g g' sev s), raft_members s) =
    Inr (RequestVoteTimer (RaftServer_Init_body g g' sev s), raft_members s)"
proof (induction n)
  case (Suc n)
  then show ?case
    using assms by (simp add: repeated_turn_def RaftServer_Init_body_def RepeatedTimer_Init_def)
qed simp

text \<open>A failed call leaves the promise unset; a peer without a stub cannot be asked.\<close>

lemma RequestVote_failed:
  "peer_stub p \<Longrightarrow> rpc (vote_args node) = None \<Longrightarrow> RaftPeerNode_RequestVote rpc node p None = Inr None"
  "\<not> peer_stub p \<Longrightarrow> RaftPeerNode_RequestVote rpc node p None = Inl NullDeref"
  by (simp_all add: RaftPeerNode_RequestVote_def)

end
