(* ===== verification/Xxhash64.thy ===== *)
theory Xxhash64
  imports Key_Format
begin

unbundle bit_operations_syntax

text \<open>
  The hash function of \<open>src/util/hash/xxhash64.hpp\<close>: four lanes that consume blocks of 32 bytes, a
  buffer for what is left between two calls of \<open>add\<close>, and a final mix. Reads through
  \<open>uint64_t*\<close> and \<open>uint32_t*\<close> are little-endian reads at any address; storing into the buffer beyond
  its end is an error, which the invariant excludes.
\<close>

section \<open>The hash function\<close>

definition Prime1 :: u64 where "Prime1 = 11400714785074694791"
definition Prime2 :: u64 where "Prime2 = 14029467366897019727"
definition Prime3 :: u64 where "Prime3 = 1609587929392839161"
definition Prime4 :: u64 where "Prime4 = 9650029242287828579"
definition Prime5 :: u64 where "Prime5 = 2870177450012600261"

definition MaxBufferSize :: u64 where "MaxBufferSize = 31 + 1"

record lanes =
  s0 :: u64
  s1 :: u64
  s2 :: u64
  s3 :: u64

record XXHash64 =
  xx_state :: lanes
  xx_buffer :: bytes
  bufferSize :: u64
  totalLength :: u64

definition start_lanes :: "u64 \<Rightarrow> lanes" where
  "start_lanes seed = \<lparr>s0 = seed + Prime1 + Prime2, s1 = seed + Prime2, s2 = seed, s3 = seed - Prime1\<rparr>"

definition XXHash64_ctor :: "bytes \<Rightarrow> u64 \<Rightarrow> XXHash64" where
  "XXHash64_ctor garbage seed =
     \<lparr>xx_state = start_lanes seed, xx_buffer = garbage, bufferSize = 0, totalLength = 0\<rparr>"

definition XXHash64_Init :: "u64 \<Rightarrow> XXHash64 \<Rightarrow> XXHash64" where
  "XXHash64_Init seed h = h\<lparr>xx_state := start_lanes seed, bufferSize := 0, totalLength := 0\<rparr>"

definition rotateLeft :: "u64 \<Rightarrow> nat \<Rightarrow> u64" where
  "rotateLeft x bits = push_bit bits x OR drop_bit (64 - bits) x"

definition processSingle :: "u64 \<Rightarrow> u64 \<Rightarrow> u64" where
  "processSingle previous input = rotateLeft (previous + input * Prime2) 31 * Prime1"

definition le_word :: "bytes \<Rightarrow> u64" where
  "le_word bs = foldr (\<lambda>b w. push_bit 8 w OR ucast b) bs 0"

text \<open>\<open>block[i]\<close> of the block at the head of \<open>data\<close>.\<close>

definition block :: "bytes \<Rightarrow> nat \<Rightarrow> u64" where
  "block data i = le_word (take 8 (drop (8 * i) data))"

definition process :: "bytes \<Rightarrow> lanes \<Rightarrow> lanes" where
  "process data s = \<lparr>s0 = processSingle (s0 s) (block data 0), s1 = processSingle (s1 s) (block data 1),
     s2 = processSingle (s2 s) (block data 2), s3 = processSingle (s3 s) (block data 3)\<rparr>"

text \<open>\<open>buffer[bufferSize++] = *data++\<close> for all of \<open>data\<close>.\<close>

fun fill :: "bytes \<Rightarrow> XXHash64 \<Rightarrow> XXHash64 res" where
  "fill [] h = Inr h"
| "fill (c # data) h =
     (if unat (bufferSize h) < length (xx_buffer h) then
        fill data (h\<lparr>xx_buffer := (xx_buffer h)[unat (bufferSize h) := c], bufferSize := bufferSize h + 1\<rparr>)
      else Inl OutOfBounds)"

text \<open>The loop over blocks: the lanes and the bytes left, less than a block.\<close>

fun blocks :: "bytes \<Rightarrow> lanes \<Rightarrow> lanes \<times> bytes" where
  "blocks data s = (if 32 \<le> length data then blocks (drop 32 data) (process data s) else (s, data))"

declare blocks.simps [simp del]

definition add :: "bytes option \<Rightarrow> XXHash64 \<Rightarrow> (bool \<times> XXHash64) res" where
  "add input h = (case input of
       None \<Rightarrow> Inr (False, h)
     | Some data \<Rightarrow>
         if size64 data = 0 then Inr (False, h)
         else
           let h = h\<lparr>totalLength := totalLength h + size64 data\<rparr> in
           if bufferSize h + size64 data < MaxBufferSize then rbind (fill data h) (\<lambda>h. Inr (True, h))
           else
             rbind (if bufferSize h > 0 then
                      let k = unat (MaxBufferSize - bufferSize h) in
                      rbind (fill (take k data) h) (\<lambda>h.
                        Inr (h\<lparr>xx_state := process (xx_buffer h) (xx_state h)\<rparr>, drop k data))
                    else Inr (h, data)) (\<lambda>(h, data).
             let (s, rest) = blocks data (xx_state h) in
             rbind (guard (length rest \<le> length (xx_buffer h)) OutOfBounds) (\<lambda>_.
               Inr (True, h\<lparr>xx_state := s, bufferSize := size64 rest,
                            xx_buffer := rest @ drop (length rest) (xx_buffer h)\<rparr>))))"

fun eat8 :: "bytes \<Rightarrow> u64 \<Rightarrow> u64 \<times> bytes" where
  "eat8 data result =
     (if 8 \<le> length data then
        eat8 (drop 8 data) (rotateLeft (result XOR processSingle 0 (le_word (take 8 data))) 27 * Prime1 + Prime4)
      else (result, data))"

declare eat8.simps [simp del]

definition eat4 :: "bytes \<Rightarrow> u64 \<Rightarrow> u64 \<times> bytes" where
  "eat4 data result =
     (if 4 \<le> length data then
        (rotateLeft (result XOR le_word (take 4 data) * Prime1) 23 * Prime2 + Prime3, drop 4 data)
      else (result, data))"

fun eat1 :: "bytes \<Rightarrow> u64 \<Rightarrow> u64" where
  "eat1 [] result = result"
| "eat1 (c # data) result = eat1 data (rotateLeft (result XOR ucast c * Prime5) 11 * Prime1)"

definition avalanche :: "u64 \<Rightarrow> u64" where
  "avalanche result =
     (let result = result XOR drop_bit 33 result;
          result = result * Prime2;
          result = result XOR drop_bit 29 result;
          result = result * Prime3 in
      result XOR drop_bit 32 result)"

definition fold_lanes :: "u64 \<Rightarrow> lanes \<Rightarrow> u64" where
  "fold_lanes n s =
     (if n \<ge> MaxBufferSize then
        let result = rotateLeft (s0 s) 1 + rotateLeft (s1 s) 7 + rotateLeft (s2 s) 12 + rotateLeft (s3 s) 18;
            result = (result XOR processSingle 0 (s0 s)) * Prime1 + Prime4;
            result = (result XOR processSingle 0 (s1 s)) * Prime1 + Prime4;
            result = (result XOR processSingle 0 (s2 s)) * Prime1 + Prime4 in
        (result XOR processSingle 0 (s3 s)) * Prime1 + Prime4
      else s2 s + Prime5)"

definition hash :: "XXHash64 \<Rightarrow> u64" where
  "hash h =
     (let result = fold_lanes (totalLength h) (xx_state h) + totalLength h;
          (result, data) = eat8 (take (unat (bufferSize h)) (xx_buffer h)) result;
          (result, data) = eat4 data result in
      avalanche (eat1 data result))"

text \<open>The static function.\<close>

definition XXHash64_hash :: "bytes \<Rightarrow> bytes option \<Rightarrow> u64 \<Rightarrow> u64 res" where
  "XXHash64_hash garbage input seed =
     rbind (add input (XXHash64_ctor garbage seed)) (\<lambda>(_, h). Inr (hash h))"

fun adds :: "bytes list \<Rightarrow> XXHash64 \<Rightarrow> XXHash64 res" where
  "adds [] h = Inr h"
| "adds (d # ds) h = rbind (add (Some d) h) (\<lambda>(_, h). adds ds h)"

section \<open>Lemmas\<close>

lemma blocks_short: "length data < 32 \<Longrightarrow> blocks data s = (s, data)"
  by (simp add: blocks.simps)

lemma blocks_block: "length b = 32 \<Longrightarrow> blocks (b @ data) s = blocks data (process b s)"
  by (subst blocks.simps) (simp add: process_def block_def)

lemma blocks_rest: "length (snd (blocks data s)) < 32"
  by (induction data s rule: blocks.induct) (subst blocks.simps, auto)

lemma blocks_append: "blocks (a @ b) s = (let (s', r) = blocks a s in blocks (r @ b) s')"
proof (induction a s rule: blocks.induct)
  case (1 a s)
  show ?case
  proof (cases "32 \<le> length a")
    case True
    have "process (a @ b) s = process a s"
      using True by (simp add: process_def block_def)
    then show ?thesis
      using True 1 by (subst (1 2) blocks.simps) simp
  qed (simp add: blocks_short)
qed

text \<open>What an object that was given \<open>data\<close> since \<open>Init\<close> looks like.\<close>

definition absorbed :: "u64 \<Rightarrow> bytes \<Rightarrow> XXHash64 \<Rightarrow> bool" where
  "absorbed seed data h \<longleftrightarrow> length (xx_buffer h) = 32 \<and> unat (bufferSize h) < 32 \<and>
     blocks data (start_lanes seed) = (xx_state h, take (unat (bufferSize h)) (xx_buffer h)) \<and>
     totalLength h = of_nat (length data)"

lemma absorbed_ctor: "length garbage = 32 \<Longrightarrow> absorbed seed [] (XXHash64_ctor garbage seed)"
  by (simp add: absorbed_def XXHash64_ctor_def blocks_short)

lemma fill_ok:
  assumes "length (xx_buffer h) = 32" "unat (bufferSize h) + length data \<le> 32"
  shows "\<exists>h'. fill data h = Inr h' \<and> length (xx_buffer h') = 32 \<and>
    unat (bufferSize h') = unat (bufferSize h) + length data \<and>
    take (unat (bufferSize h')) (xx_buffer h') = take (unat (bufferSize h)) (xx_buffer h) @ data \<and>
    xx_state h' = xx_state h \<and> totalLength h' = totalLength h"
  using assms
proof (induction data h rule: fill.induct)
  case (2 c data h)
  let ?n = "unat (bufferSize h)"
  let ?h = "h\<lparr>xx_buffer := (xx_buffer h)[?n := c], bufferSize := bufferSize h + 1\<rparr>"
  have n: "?n < length (xx_buffer h)" "unat (bufferSize ?h) = Suc ?n"
    using "2.prems" by (simp_all add: unat_word_ariths)
  then have "take (unat (bufferSize ?h)) (xx_buffer ?h) = take ?n (xx_buffer h) @ [c]"
    by (simp add: take_Suc_conv_app_nth)
  then show ?case using "2.IH" [OF n(1)] "2.prems" n by auto
qed simp

lemma add_small:
  assumes "absorbed seed data h" "unat (bufferSize h) + length new < 32" "new \<noteq> []"
  shows "\<exists>h'. add (Some new) h = Inr (True, h') \<and> absorbed seed (data @ new) h'"
proof -
  let ?h = "h\<lparr>totalLength := totalLength h + size64 new\<rparr>"
  have u: "unat (size64 new) = length new" using assms(2) by (simp add: unat_of_nat)
  then have "size64 new \<noteq> 0" using assms(3) by auto
  moreover have "bufferSize h + size64 new < MaxBufferSize"
    using assms(2) u by (simp add: word_less_nat_alt unat_word_ariths MaxBufferSize_def)
  moreover obtain h' where h': "fill new ?h = Inr h'" "length (xx_buffer h') = 32"
    "unat (bufferSize h') = unat (bufferSize h) + length new"
    "take (unat (bufferSize h')) (xx_buffer h') = take (unat (bufferSize h)) (xx_buffer h) @ new"
    "xx_state h' = xx_state h" "totalLength h' = totalLength h + size64 new"
    using fill_ok [of ?h new] assms(1,2) by (auto simp: absorbed_def)
  moreover have "absorbed seed (data @ new) h'"
    using assms(1,2) h' blocks_append [of data new "start_lanes seed"] by (simp add: absorbed_def blocks_short)
  ultimately show ?thesis by (simp add: add_def Let_def)
qed

text \<open>After the buffered bytes were completed to a block, or when there were none.\<close>

lemma add_blocks:
  assumes "length (xx_buffer h) = 32" "length new < 2 ^ 64"
  shows "\<exists>h'. (let (s, rest) = blocks new (xx_state h) in
      rbind (guard (length rest \<le> length (xx_buffer h)) OutOfBounds) (\<lambda>_.
        Inr (True, h\<lparr>xx_state := s, bufferSize := size64 rest, xx_buffer := rest @ drop (length rest) (xx_buffer h)\<rparr>))) =
      Inr (True, h') \<and> length (xx_buffer h') = 32 \<and> unat (bufferSize h') < 32 \<and>
    blocks new (xx_state h) = (xx_state h', take (unat (bufferSize h')) (xx_buffer h')) \<and> totalLength h' = totalLength h"
proof -
  obtain s rest where b: "blocks new (xx_state h) = (s, rest)" by fastforce
  then have "length rest < 32" using blocks_rest [of new "xx_state h"] by simp
  moreover from this have "unat (size64 rest) = length rest" by (simp add: unat_of_nat)
  ultimately show ?thesis using assms(1) b by simp
qed

lemma add_big:
  assumes "absorbed seed data h" "32 \<le> unat (bufferSize h) + length new" "length new + 32 < 2 ^ 64"
  shows "\<exists>h'. add (Some new) h = Inr (True, h') \<and> absorbed seed (data @ new) h'"
proof -
  let ?n = "unat (bufferSize h)" and ?h = "h\<lparr>totalLength := totalLength h + size64 new\<rparr>"
  let ?r = "take ?n (xx_buffer h)"
  have h: "length (xx_buffer h) = 32" "?n < 32" "blocks data (start_lanes seed) = (xx_state h, ?r)"
    "totalLength h = of_nat (length data)"
    using assms(1) by (simp_all add: absorbed_def)
  have u: "unat (size64 new) = length new" using assms(3) by (simp add: unat_of_nat)
  have ne: "size64 new \<noteq> 0" "\<not> bufferSize h + size64 new < MaxBufferSize"
    using assms(2,3) h(2) u by (auto simp: word_less_nat_alt unat_word_ariths MaxBufferSize_def)
  have k: "unat (MaxBufferSize - bufferSize h) = 32 - ?n"
    using h(2) by (simp add: MaxBufferSize_def unat_sub word_le_nat_alt)
  have total: "totalLength h + size64 new = of_nat (length (data @ new))" by (simp add: h(4))
  show ?thesis
  proof (cases "bufferSize h = 0")
    case True
    then have "blocks (data @ new) (start_lanes seed) = blocks new (xx_state h)"
      using h(3) blocks_append [of data new "start_lanes seed"] by simp
    then show ?thesis
      using add_blocks [of ?h new] h(1) assms(3) ne True total
      by (auto simp: add_def Let_def absorbed_def)
  next
    case False
    then have pos: "bufferSize h > 0" by (simp add: word_gt_0)
    obtain h1 where h1: "fill (take (32 - ?n) new) ?h = Inr h1" "length (xx_buffer h1) = 32"
      "unat (bufferSize h1) = 32" "xx_buffer h1 = ?r @ take (32 - ?n) new" "xx_state h1 = xx_state h"
      "totalLength h1 = totalLength h + size64 new"
      using fill_ok [of ?h "take (32 - ?n) new"] h(1,2) assms(2) by auto
    let ?h1 = "h1\<lparr>xx_state := process (xx_buffer h1) (xx_state h)\<rparr>"
    have "blocks (data @ new) (start_lanes seed) = blocks (xx_buffer h1 @ drop (32 - ?n) new) (xx_state h)"
      using h(3) h1(4) blocks_append [of data new "start_lanes seed"] by simp
    also have "\<dots> = blocks (drop (32 - ?n) new) (xx_state ?h1)" using h1(2) by (simp add: blocks_block)
    finally have b: "blocks (data @ new) (start_lanes seed) = blocks (drop (32 - ?n) new) (xx_state ?h1)" .
    show ?thesis
      using add_blocks [of ?h1 "drop (32 - ?n) new"] h1(1,2,5,6) assms(3) ne pos total b
      by (auto simp: add_def Let_def absorbed_def k)
  qed
qed

lemma add_absorbs:
  assumes "absorbed seed data h" "length new + 32 < 2 ^ 64"
  shows "\<exists>b h'. add (Some new) h = Inr (b, h') \<and> absorbed seed (data @ new) h'"
proof (cases "new = []")
  case False
  then show ?thesis using add_small [OF assms(1)] add_big [OF assms(1) _ assms(2)] not_le by blast
qed (use assms(1) in \<open>auto simp: add_def\<close>)

lemma adds_absorbs:
  assumes "absorbed seed data h" "length (concat ds) + 32 < 2 ^ 64"
  shows "\<exists>h'. adds ds h = Inr h' \<and> absorbed seed (data @ concat ds) h'"
  using assms
proof (induction ds arbitrary: data h)
  case (Cons d ds)
  obtain b h1 where "add (Some d) h = Inr (b, h1)" "absorbed seed (data @ d) h1"
    using add_absorbs [OF Cons.prems(1), of d] Cons.prems(2) by auto
  then show ?case using Cons.IH [of "data @ d" h1] Cons.prems(2) by simp
qed simp

lemma absorbed_hash: "absorbed seed data h \<Longrightarrow> absorbed seed data h' \<Longrightarrow> hash h = hash h'"
  unfolding absorbed_def hash_def by auto

text \<open>Published values: the empty string and \<open>abc\<close> with seed 0.\<close>

lemma xxhash_empty: "XXHash64_hash (replicate 32 0) (Some []) 0 = Inr 0xEF46DB3751D8E999"
  by code_simp

lemma xxhash_abc: "XXHash64_hash (replicate 32 0) (Some [97, 98, 99]) 0 = Inr 0x44BC2CF5AD770999"
  by code_simp

section \<open>Properties\<close>

text \<open>Property C14. The hash does not depend on how the data is cut: feeding the pieces one by one to
  \<open>add\<close> never leaves the buffer and ends in the value the static function gives for all of them
  at once, whatever the uninitialised buffers held.\<close>

theorem xxhash_streaming:
  assumes "length (concat ds) + 32 < 2 ^ 64" and "length g = 32" and "length g' = 32"
  shows "\<exists>h. adds ds (XXHash64_ctor g seed) = Inr h \<and>
    XXHash64_hash g' (Some (concat ds)) seed = Inr (hash h)"
proof -
  obtain h where h: "adds ds (XXHash64_ctor g seed) = Inr h" "absorbed seed (concat ds) h"
    using adds_absorbs [OF absorbed_ctor [OF assms(2)] assms(1)] by auto
  obtain b h' where h': "add (Some (concat ds)) (XXHash64_ctor g' seed) = Inr (b, h')" "absorbed seed (concat ds) h'"
    using add_absorbs [OF absorbed_ctor [OF assms(3)] assms(1), of seed] by (auto simp only: append_Nil)
  show ?thesis
    using h(1) h'(1) absorbed_hash [OF h(2) h'(2)] by (simp add: XXHash64_hash_def)
qed

theorem xxhash_streaming_witness:
  "\<exists>h. adds [[97, 98], replicate 40 99, []] (XXHash64_ctor (replicate 32 0) 7) = Inr h \<and>
    XXHash64_hash (replicate 32 1) (Some (concat [[97, 98], replicate 40 99, []])) 7 = Inr (hash h)"
  by (rule xxhash_streaming) simp_all

end
