(* ===== verification/Hash_Memory.thy ===== *)
theory Hash_Memory
  imports Xxhash64
begin

unbundle bit_operations_syntax

text \<open>
  What the byte-string hashes of \<open>src/util/hash\<close> share: unaligned little-endian loads from the
  memory that holds the key, byte swapping, and a calculus for the one thing that every one of them has to satisfy.
  A hash function is called with a pointer and a length; \<open>agree\<close> says that a computation on the whole
  memory and the same computation on a copy of the key alone both return, with the same value. Its introduction
  rules follow the constructs the hash functions are written with, so that a proof of \<open>agree\<close> is a walk over
  the code that leaves the address computations.
\<close>

section \<open>Loads\<close>

text \<open>\<open>Fetch64\<close> and \<open>Fetch32\<close> of a little-endian machine: a \<open>memcpy\<close> of 8 and 4 bytes.\<close>

definition Fetch64 :: "bytes \<Rightarrow> nat \<Rightarrow> u64 res" where
  "Fetch64 m p = rbind (view m p 8) (\<lambda>bs. Inr (le_word bs))"

definition Fetch32 :: "bytes \<Rightarrow> nat \<Rightarrow> u32 res" where
  "Fetch32 m p = rbind (view m p 4) (\<lambda>bs. Inr (ucast (le_word bs)))"

text \<open>\<open>bswap_64\<close> and \<open>bswap_32\<close> of the C library: the bytes in reverse order.\<close>

definition bswap_64 :: "u64 \<Rightarrow> u64" where
  "bswap_64 x = fold (\<lambda>i r. push_bit 8 r OR (drop_bit (8 * i) x AND 255)) [0, 1, 2, 3, 4, 5, 6, 7] 0"

definition bswap_32 :: "u32 \<Rightarrow> u32" where
  "bswap_32 x = fold (\<lambda>i r. push_bit 8 r OR (drop_bit (8 * i) x AND 255)) [0, 1, 2, 3] 0"

lemma and_255_take_bit: "d AND 255 = take_bit 8 d" for d :: "'a::len word"
  by (simp add: take_bit_eq_mask mask_eq_exp_minus_1)

lemma bit_byte_in:
  "bit (push_bit 8 w OR (d AND 255)) n \<longleftrightarrow> n < 64 \<and> (if n < 8 then bit d n else bit w (n - 8))" for w d :: u64
  by (auto simp: and_255_take_bit bit_simps)

lemma bit_bswap_64:
  assumes "r < 8"
  shows "q < 8 \<Longrightarrow> bit (bswap_64 x) (8 * q + r) \<longleftrightarrow> bit x (8 * (7 - q) + r)"
proof -
  have split: "q < 8 \<Longrightarrow> P 0 \<Longrightarrow> P 1 \<Longrightarrow> P 2 \<Longrightarrow> P 3 \<Longrightarrow> P 4 \<Longrightarrow> P 5 \<Longrightarrow> P 6 \<Longrightarrow> P 7 \<Longrightarrow> P q" for P :: "nat \<Rightarrow> bool"
    by (cases q; simp; case_tac nat) (auto simp: less_Suc_eq numeral_eq_Suc)
  show "q < 8 \<Longrightarrow> bit (bswap_64 x) (8 * q + r) \<longleftrightarrow> bit x (8 * (7 - q) + r)"
    by (erule split; use assms in \<open>simp only: bswap_64_def fold_simps bit_byte_in id_apply comp_apply\<close>;
        use assms in \<open>simp add: bit_simps\<close>)
qed

lemma bswap_64_bswap_64 [simp]: "bswap_64 (bswap_64 x) = x"
proof (rule bit_word_eqI)
  fix n
  assume "n < LENGTH(64)"
  then have q: "n div 8 < 8" by simp
  have "bit (bswap_64 (bswap_64 x)) (8 * (n div 8) + n mod 8) \<longleftrightarrow> bit x (8 * (7 - (7 - n div 8)) + n mod 8)"
    by (subst bit_bswap_64; (use q in simp)?; subst bit_bswap_64) simp_all
  moreover have "7 - (7 - n div 8) = n div 8" using q by simp
  ultimately show "bit (bswap_64 (bswap_64 x)) n \<longleftrightarrow> bit x n" by simp
qed

text \<open>A computation that starts with a load returns only if the load is inside the memory.\<close>

lemma Fetch64_inside: "rbind (Fetch64 m p) f = Inr x \<Longrightarrow> p + 8 \<le> length m"
  by (cases "p + 8 \<le> length m") (simp_all add: Fetch64_def view_def)

section \<open>Computations that see the key only\<close>

named_theorems window_intros \<open>rules that walk over a computation on a window of the memory\<close>

text \<open>The memory \<open>m\<close> holds the bytes \<open>w\<close> from address \<open>p\<close> on.\<close>

definition window :: "bytes \<Rightarrow> nat \<Rightarrow> bytes \<Rightarrow> bool" where
  "window m p w \<longleftrightarrow> p + length w \<le> length m \<and> take (length w) (drop p m) = w"

lemma window_append: "window (pre @ w @ post) (length pre) w"
  by (simp add: window_def)

lemma window_view:
  assumes "window m p w" "i + n \<le> length w"
  shows "view m (p + i) n = view w i n" "view w i n = Inr (take n (drop i w))"
proof -
  have "take n (drop i w) = take n (drop i (take (length w) (drop p m)))"
    using assms(1) by (simp add: window_def)
  also have "\<dots> = take n (drop (p + i) m)"
    using assms(2) by (simp add: drop_take min_def add.commute)
  finally show "view m (p + i) n = view w i n" using assms by (simp add: window_def)
  show "view w i n = Inr (take n (drop i w))" using assms(2) by simp
qed

lemma window_rd:
  assumes "window m p w" "i < length w"
  shows "rd m (p + i) = rd w i" "rd w i = Inr (w ! i)"
proof -
  have "p + length w \<le> length m" "w = take (length w) (drop p m)" using assms(1) by (simp_all add: window_def)
  then have "w ! i = m ! (p + i)" using assms(2) nth_take [of i "length w" "drop p m"] by simp
  then show "rd m (p + i) = rd w i" using assms by (simp add: window_def)
qed (use assms(2) in simp)

definition agree :: "'a res \<Rightarrow> 'a res \<Rightarrow> bool" where
  "agree a b \<longleftrightarrow> (\<exists>x. a = Inr x \<and> b = Inr x)"

lemma agreeE: "agree a b \<Longrightarrow> (\<And>x. a = Inr x \<Longrightarrow> b = Inr x \<Longrightarrow> P) \<Longrightarrow> P"
  by (auto simp: agree_def)

lemma agree_Inr [window_intros]: "agree (Inr x) (Inr x)"
  by (simp add: agree_def)

lemma agree_bind [window_intros]:
  "agree a b \<Longrightarrow> (\<And>x. agree (f x) (g x)) \<Longrightarrow> agree (rbind a f) (rbind b g)"
  by (force simp: agree_def)

lemma agree_Let [window_intros]: "(\<And>y. y = x \<Longrightarrow> agree (f y) (g y)) \<Longrightarrow> agree (Let x f) (Let x g)"
  by (simp add: Let_def)

text \<open>An address is computed on both sides, from different bases.\<close>

lemma agree_Let_address: "agree (f x) (g y) \<Longrightarrow> agree (Let x f) (Let y g)"
  by simp

lemma agree_split [window_intros]: "(\<And>y z. agree (f y z) (g y z)) \<Longrightarrow> agree (case_prod f x) (case_prod g x)"
  by (simp add: case_prod_beta)

lemma agree_if [window_intros]:
  "(b \<Longrightarrow> agree s t) \<Longrightarrow> (\<not> b \<Longrightarrow> agree s' t') \<Longrightarrow> agree (if b then s else s') (if b then t else t')"
  by simp

lemma agree_Fetch64 [window_intros]:
  "window m p w \<Longrightarrow> q = p + i \<Longrightarrow> i + 8 \<le> length w \<Longrightarrow> agree (Fetch64 m q) (Fetch64 w i)"
  using window_view [of m p w i 8] by (simp add: agree_def Fetch64_def)

lemma agree_Fetch32 [window_intros]:
  "window m p w \<Longrightarrow> q = p + i \<Longrightarrow> i + 4 \<le> length w \<Longrightarrow> agree (Fetch32 m q) (Fetch32 w i)"
  using window_view [of m p w i 4] by (simp add: agree_def Fetch32_def)

lemma agree_rd [window_intros]:
  "window m p w \<Longrightarrow> q = p + i \<Longrightarrow> i < length w \<Longrightarrow> agree (rd m q) (rd w i)"
  using window_rd [of m p w i] by (simp add: agree_def)

section \<open>The contract of a hash function\<close>

text \<open>The value of a hash function on a key that is the whole memory.\<close>

definition digest :: "(bytes \<Rightarrow> nat \<Rightarrow> nat \<Rightarrow> 'h res) \<Rightarrow> bytes \<Rightarrow> 'h" where
  "digest h key = projr (h key 0 (length key))"

text \<open>What a client relies on: the function reads the bytes of the key only.\<close>

locale key_hash =
  fixes h :: "bytes \<Rightarrow> nat \<Rightarrow> nat \<Rightarrow> 'h res"
  assumes agrees: "window m p w \<Longrightarrow> k + len \<le> length w \<Longrightarrow> agree (h m (p + k) len) (h w k len)"
begin

lemma window_digest:
  assumes "window m p w" "len = length w"
  shows "h m p len = Inr (digest h w)"
  using agrees [OF assms(1), of 0 len] assms(2) by (auto simp: agree_def digest_def)

lemma inside: "h (pre @ key @ post) (length pre) (length key) = Inr (digest h key)"
  by (rule window_digest [OF window_append refl])

lemma alone: "h key 0 (length key) = Inr (digest h key)"
  using inside [of "[]" key "[]"] by simp

end

text \<open>A computation on the result keeps the contract.\<close>

lemma key_hash_then: "key_hash h \<Longrightarrow> key_hash (\<lambda>m p len. rbind (h m p len) (\<lambda>x. Inr (f x)))"
  unfolding key_hash_def by (intro allI impI window_intros) blast

text \<open>A hash with a seed mixes the seed into the hash without one. Where the mix loses nothing, the seed does not
  change which keys collide.\<close>

lemma rbind_Inr_inj: "(\<And>x y. f x = f y \<longleftrightarrow> x = y) \<Longrightarrow>
    rbind a (\<lambda>x. Inr (f x)) = rbind b (\<lambda>x. Inr (f x)) \<longleftrightarrow> a = b"
  by (cases a; cases b) auto

locale seeded_hash = base: key_hash base for base :: "bytes \<Rightarrow> nat \<Rightarrow> nat \<Rightarrow> 'h res" +
  fixes seeded :: "bytes \<Rightarrow> nat \<Rightarrow> nat \<Rightarrow> 'h res" and mix :: "'h \<Rightarrow> 'h"
  assumes seeded_eq: "seeded m s len = rbind (base m s len) (\<lambda>x. Inr (mix x))"
    and mix_inj: "mix x = mix y \<longleftrightarrow> x = y"
begin

lemma keeps_collisions: "seeded m s len = seeded m' s' len' \<longleftrightarrow> base m s len = base m' s' len'"
  unfolding seeded_eq by (rule rbind_Inr_inj) (rule mix_inj)

end

sublocale seeded_hash \<subseteq> key_hash seeded
  using key_hash_then [OF base.key_hash_axioms, of mix] by (simp add: seeded_eq [abs_def])

section \<open>Reversible steps\<close>

lemma shift_xor_twice:
  fixes x :: "'a::len word"
  assumes "LENGTH('a) \<le> 2 * n"
  shows "(x XOR drop_bit n x) XOR drop_bit n (x XOR drop_bit n x) = x"
  using assms by (intro bit_word_eqI) (auto simp: bit_simps dest: bit_imp_le_length)

lemma shift_xor_inj:
  fixes x y :: "'a::len word"
  assumes "LENGTH('a) \<le> 2 * n" "x XOR drop_bit n x = y XOR drop_bit n y"
  shows "x = y"
  using shift_xor_twice [OF assms(1), of x] shift_xor_twice [OF assms(1), of y] assms(2) by simp

lemma xor_inj: "a XOR b = a XOR c \<longleftrightarrow> b = c" "b XOR a = c XOR a \<longleftrightarrow> b = c" for a b c :: "'a::len word"
proof -
  have "a XOR (a XOR d) = d" for d by (simp flip: xor.assoc)
  then show "a XOR b = a XOR c \<longleftrightarrow> b = c" by metis
  then show "b XOR a = c XOR a \<longleftrightarrow> b = c" by (simp add: xor.commute)
qed

text \<open>A product with an odd constant, given by its inverse.\<close>

lemma mult_inj_inverse:
  fixes x y k k' :: "'a::len word"
  assumes "k * k' = 1" "x * k = y * k"
  shows "x = y"
  by (metis assms mult.assoc mult.right_neutral)

end
