(* ===== verification/City_Hash.thy ===== *)
theory City_Hash
  imports Hash_Memory
begin

unbundle bit_operations_syntax

text \<open>
  CityHash, \<open>src/util/hash/city_hash.cpp\<close>: the 32-bit, 64-bit and 128-bit hashes of a byte array. A function
  of \<open>const char *s, size_t len\<close> takes the memory, the address and the length; an address is the sum the code
  computes, and a load outside the memory is an error. Lengths are natural numbers below \<open>2 ^ 64\<close>, converted where
  the code converts them. The section for SSE 4.2 is in the theory
  \<open>City_Crc\<close>.
\<close>

section \<open>Constants and 32-bit steps\<close>

definition k0 :: u64 where "k0 = 0xc3a5c85c97cb3127"
definition k1 :: u64 where "k1 = 0xb492b66fbe98f273"
definition k2 :: u64 where "k2 = 0x9ae16a3b2f90404f"

definition c1 :: u32 where "c1 = 0xcc9e2d51"
definition c2 :: u32 where "c2 = 0x1b873593"

definition fmix :: "u32 \<Rightarrow> u32" where
  "fmix h =
     (let h = h XOR drop_bit 16 h;
          h = h * 0x85ebca6b;
          h = h XOR drop_bit 13 h;
          h = h * 0xc2b2ae35 in
      h XOR drop_bit 16 h)"

definition Rotate32 :: "u32 \<Rightarrow> nat \<Rightarrow> u32" where
  "Rotate32 val shift = (if shift = 0 then val else drop_bit shift val OR push_bit (32 - shift) val)"

text \<open>The macro \<open>PERMUTE3\<close>: the new values of its three arguments.\<close>

definition PERMUTE3 :: "'a \<Rightarrow> 'a \<Rightarrow> 'a \<Rightarrow> 'a \<times> 'a \<times> 'a" where
  "PERMUTE3 a b c = (let (a, b) = (b, a); (a, c) = (c, a) in (a, b, c))"

definition Mur :: "u32 \<Rightarrow> u32 \<Rightarrow> u32" where
  "Mur a h =
     (let a = a * c1;
          a = Rotate32 a 17;
          a = a * c2;
          h = h XOR a;
          h = Rotate32 h 19 in
      h * 5 + 0xe6546b64)"

section \<open>The 32-bit hash\<close>

text \<open>\<open>s - 4 + (len >> 1)\<close> points into the key, as the sum is taken.\<close>

definition Hash32Len13to24 :: "bytes \<Rightarrow> nat \<Rightarrow> nat \<Rightarrow> u32 res" where
  "Hash32Len13to24 m s len =
     rbind (Fetch32 m (s + len div 2 - 4)) (\<lambda>a.
     rbind (Fetch32 m (s + 4)) (\<lambda>b.
     rbind (Fetch32 m (s + len - 8)) (\<lambda>c.
     rbind (Fetch32 m (s + len div 2)) (\<lambda>d.
     rbind (Fetch32 m s) (\<lambda>e.
     rbind (Fetch32 m (s + len - 4)) (\<lambda>f.
     let h = of_nat len in
     Inr (fmix (Mur f (Mur e (Mur d (Mur c (Mur b (Mur a h)))))))))))))"

text \<open>The characters are signed: a byte of 128 or more is sign-extended.\<close>

fun Hash32Len0to4_loop :: "bytes \<Rightarrow> nat \<Rightarrow> nat \<Rightarrow> u32 \<Rightarrow> u32 \<Rightarrow> (u32 \<times> u32) res" where
  "Hash32Len0to4_loop m s 0 b c = Inr (b, c)"
| "Hash32Len0to4_loop m s (Suc n) b c =
     rbind (rd m s) (\<lambda>v.
     let b = b * c1 + scast v; c = c XOR b in
     Hash32Len0to4_loop m (s + 1) n b c)"

definition Hash32Len0to4 :: "bytes \<Rightarrow> nat \<Rightarrow> nat \<Rightarrow> u32 res" where
  "Hash32Len0to4 m s len =
     rbind (Hash32Len0to4_loop m s len 0 9) (\<lambda>(b, c).
     Inr (fmix (Mur b (Mur (of_nat len) c))))"

definition Hash32Len5to12 :: "bytes \<Rightarrow> nat \<Rightarrow> nat \<Rightarrow> u32 res" where
  "Hash32Len5to12 m s len =
     (let a = of_nat len; b = a * 5; c = 9; d = b in
      rbind (Fetch32 m s) (\<lambda>x. let a = a + x in
      rbind (Fetch32 m (s + len - 4)) (\<lambda>x. let b = b + x in
      rbind (Fetch32 m (s + (len div 2 AND 4))) (\<lambda>x. let c = c + x in
      Inr (fmix (Mur c (Mur b (Mur a d))))))))"

definition scramble :: "u32 \<Rightarrow> u32" where
  "scramble x = Rotate32 (x * c1) 17 * c2"

definition stir :: "u32 \<Rightarrow> nat \<Rightarrow> u32" where
  "stir h shift = Rotate32 h shift * 5 + 0xe6546b64"

text \<open>The body of the loop of \<open>CityHash32\<close> on its variables \<open>h\<close>, \<open>g\<close> and \<open>f\<close>.\<close>

definition CityHash32_body :: "bytes \<Rightarrow> nat \<Rightarrow> u32 \<times> u32 \<times> u32 \<Rightarrow> (u32 \<times> u32 \<times> u32) res" where
  "CityHash32_body m s = (\<lambda>(h, g, f).
     rbind (Fetch32 m s) (\<lambda>x. let a0 = scramble x in
     rbind (Fetch32 m (s + 4)) (\<lambda>a1.
     rbind (Fetch32 m (s + 8)) (\<lambda>x. let a2 = scramble x in
     rbind (Fetch32 m (s + 12)) (\<lambda>x. let a3 = scramble x in
     rbind (Fetch32 m (s + 16)) (\<lambda>a4.
     let h = h XOR a0;
         h = stir h 18;
         f = f + a1;
         f = Rotate32 f 19;
         f = f * c1;
         g = g + a2;
         g = stir g 18;
         h = h XOR (a3 + a1);
         h = stir h 19;
         g = g XOR a4;
         g = bswap_32 g * 5;
         h = h + a4 * 5;
         h = bswap_32 h;
         f = f + a0;
         (f, h, g) = PERMUTE3 f h g in
     Inr (h, g, f)))))))"

text \<open>\<open>iters\<close> is positive, so that the decrement does not wrap.\<close>

fun CityHash32_loop :: "bytes \<Rightarrow> nat \<Rightarrow> nat \<Rightarrow> u32 \<times> u32 \<times> u32 \<Rightarrow> (u32 \<times> u32 \<times> u32) res" where
  "CityHash32_loop m s iters st =
     rbind (CityHash32_body m s st) (\<lambda>st.
     if iters - 1 \<noteq> 0 then CityHash32_loop m (s + 20) (iters - 1) st else Inr st)"

declare CityHash32_loop.simps [simp del]

definition CityHash32 :: "bytes \<Rightarrow> nat \<Rightarrow> nat \<Rightarrow> u32 res" where
  "CityHash32 m s len =
     (if len \<le> 24 then
        if len \<le> 12 then
          if len \<le> 4 then Hash32Len0to4 m s len else Hash32Len5to12 m s len
        else Hash32Len13to24 m s len
      else
        let h = of_nat len; g = c1 * h; f = g in
        rbind (Fetch32 m (s + len - 4)) (\<lambda>x. let a0 = scramble x in
        rbind (Fetch32 m (s + len - 8)) (\<lambda>x. let a1 = scramble x in
        rbind (Fetch32 m (s + len - 16)) (\<lambda>x. let a2 = scramble x in
        rbind (Fetch32 m (s + len - 12)) (\<lambda>x. let a3 = scramble x in
        rbind (Fetch32 m (s + len - 20)) (\<lambda>x. let a4 = scramble x;
          h = stir (h XOR a0) 19;
          h = stir (h XOR a2) 19;
          g = stir (g XOR a1) 19;
          g = stir (g XOR a3) 19;
          f = stir (f + a4) 19;
          iters = (len - 1) div 20 in
        rbind (CityHash32_loop m s iters (h, g, f)) (\<lambda>(h, g, f).
        let g = Rotate32 g 11 * c1;
            g = Rotate32 g 17 * c1;
            f = Rotate32 f 11 * c1;
            f = Rotate32 f 17 * c1;
            h = stir (h + g) 19;
            h = Rotate32 h 17 * c1;
            h = stir (h + f) 19;
            h = Rotate32 h 17 * c1 in
        Inr h)))))))"

section \<open>64-bit steps\<close>

type_synonym uint128 = "u64 \<times> u64"

definition Uint128Low64 :: "uint128 \<Rightarrow> u64" where "Uint128Low64 x = fst x"
definition Uint128High64 :: "uint128 \<Rightarrow> u64" where "Uint128High64 x = snd x"

definition kMul :: u64 where "kMul = 0x9ddfea08eb382d69"

definition Hash128to64 :: "uint128 \<Rightarrow> u64" where
  "Hash128to64 x =
     (let a = (Uint128Low64 x XOR Uint128High64 x) * kMul;
          a = a XOR drop_bit 47 a;
          b = (Uint128High64 x XOR a) * kMul;
          b = b XOR drop_bit 47 b in
      b * kMul)"

definition Rotate :: "u64 \<Rightarrow> nat \<Rightarrow> u64" where
  "Rotate val shift = (if shift = 0 then val else drop_bit shift val OR push_bit (64 - shift) val)"

definition ShiftMix :: "u64 \<Rightarrow> u64" where
  "ShiftMix val = val XOR drop_bit 47 val"

definition HashLen16 :: "u64 \<Rightarrow> u64 \<Rightarrow> u64" where
  "HashLen16 u v = Hash128to64 (u, v)"

definition HashLen16_mul :: "u64 \<Rightarrow> u64 \<Rightarrow> u64 \<Rightarrow> u64" where
  "HashLen16_mul u v mul =
     (let a = (u XOR v) * mul;
          a = a XOR drop_bit 47 a;
          b = (v XOR a) * mul;
          b = b XOR drop_bit 47 b in
      b * mul)"

definition HashLen0to16 :: "bytes \<Rightarrow> nat \<Rightarrow> nat \<Rightarrow> u64 res" where
  "HashLen0to16 m s len =
     (if len \<ge> 8 then
        let mul = k2 + of_nat len * 2 in
        rbind (Fetch64 m s) (\<lambda>x. let a = x + k2 in
        rbind (Fetch64 m (s + len - 8)) (\<lambda>b.
        let c = Rotate b 37 * mul + a;
            d = (Rotate a 25 + b) * mul in
        Inr (HashLen16_mul c d mul)))
      else if len \<ge> 4 then
        let mul = k2 + of_nat len * 2 in
        rbind (Fetch32 m s) (\<lambda>x. let a = ucast x in
        rbind (Fetch32 m (s + len - 4)) (\<lambda>y.
        Inr (HashLen16_mul (of_nat len + push_bit 3 a) (ucast y) mul)))
      else if len > 0 then
        rbind (rd m s) (\<lambda>a.
        rbind (rd m (s + len div 2)) (\<lambda>b.
        rbind (rd m (s + len - 1)) (\<lambda>c.
        let y = ucast a + push_bit 8 (ucast b) :: u32;
            z = of_nat len + push_bit 2 (ucast c) :: u32 in
        Inr (ShiftMix (ucast y * k2 XOR ucast z * k0) * k2))))
      else Inr k2)"

definition HashLen17to32 :: "bytes \<Rightarrow> nat \<Rightarrow> nat \<Rightarrow> u64 res" where
  "HashLen17to32 m s len =
     (let mul = k2 + of_nat len * 2 in
      rbind (Fetch64 m s) (\<lambda>x. let a = x * k1 in
      rbind (Fetch64 m (s + 8)) (\<lambda>b.
      rbind (Fetch64 m (s + len - 8)) (\<lambda>x. let c = x * mul in
      rbind (Fetch64 m (s + len - 16)) (\<lambda>x. let d = x * k2 in
      Inr (HashLen16_mul (Rotate (a + b) 43 + Rotate c 30 + d) (a + Rotate (b + k2) 18 + c) mul))))))"

definition WeakHashLen32WithSeeds_words ::
    "u64 \<Rightarrow> u64 \<Rightarrow> u64 \<Rightarrow> u64 \<Rightarrow> u64 \<Rightarrow> u64 \<Rightarrow> u64 \<times> u64" where
  "WeakHashLen32WithSeeds_words w x y z a b =
     (let a = a + w;
          b = Rotate (b + a + z) 21;
          c = a;
          a = a + x;
          a = a + y;
          b = b + Rotate a 44 in
      (a + z, b + c))"

definition WeakHashLen32WithSeeds :: "bytes \<Rightarrow> nat \<Rightarrow> u64 \<Rightarrow> u64 \<Rightarrow> (u64 \<times> u64) res" where
  "WeakHashLen32WithSeeds m s a b =
     rbind (Fetch64 m s) (\<lambda>w.
     rbind (Fetch64 m (s + 8)) (\<lambda>x.
     rbind (Fetch64 m (s + 16)) (\<lambda>y.
     rbind (Fetch64 m (s + 24)) (\<lambda>z.
     Inr (WeakHashLen32WithSeeds_words w x y z a b)))))"

definition HashLen33to64 :: "bytes \<Rightarrow> nat \<Rightarrow> nat \<Rightarrow> u64 res" where
  "HashLen33to64 m s len =
     (let mul = k2 + of_nat len * 2 in
      rbind (Fetch64 m s) (\<lambda>t. let a = t * k2 in
      rbind (Fetch64 m (s + 8)) (\<lambda>b.
      rbind (Fetch64 m (s + len - 24)) (\<lambda>c.
      rbind (Fetch64 m (s + len - 32)) (\<lambda>d.
      rbind (Fetch64 m (s + 16)) (\<lambda>t. let e = t * k2 in
      rbind (Fetch64 m (s + 24)) (\<lambda>t. let f = t * 9 in
      rbind (Fetch64 m (s + len - 8)) (\<lambda>g.
      rbind (Fetch64 m (s + len - 16)) (\<lambda>t. let h = t * mul;
        u = Rotate (a + g) 43 + (Rotate b 30 + c) * 9;
        v = ((a + g) XOR d) + f + 1;
        w = bswap_64 ((u + v) * mul) + h;
        x = Rotate (e + f) 42 + c;
        y = (bswap_64 ((v + w) * mul) + g) * mul;
        z = e + f + c;
        a = bswap_64 ((x + z) * mul + y) + b;
        b = ShiftMix ((z + a) * mul + d + h) * mul in
      Inr (b + x))))))))))"

section \<open>The 64-bit hash\<close>

text \<open>The 56 bytes of state of the loops.\<close>

record city_state =
  cx :: u64
  cy :: u64
  cz :: u64
  cv :: "u64 \<times> u64"
  cw :: "u64 \<times> u64"

text \<open>The body of the loop over 64-byte chunks.\<close>

definition CityHash64_body :: "bytes \<Rightarrow> nat \<Rightarrow> city_state \<Rightarrow> city_state res" where
  "CityHash64_body m s st =
     (let x = cx st; y = cy st; z = cz st; v = cv st; w = cw st in
      rbind (Fetch64 m (s + 8)) (\<lambda>t. let x = Rotate (x + y + fst v + t) 37 * k1 in
      rbind (Fetch64 m (s + 48)) (\<lambda>t. let y = Rotate (y + snd v + t) 42 * k1; x = x XOR snd w in
      rbind (Fetch64 m (s + 40)) (\<lambda>t. let y = y + (fst v + t); z = Rotate (z + fst w) 33 * k1 in
      rbind (WeakHashLen32WithSeeds m s (snd v * k1) (x + fst w)) (\<lambda>v.
      rbind (Fetch64 m (s + 16)) (\<lambda>t.
      rbind (WeakHashLen32WithSeeds m (s + 32) (z + snd w) (y + t)) (\<lambda>w.
      let (z, x) = (x, z) in
      Inr \<lparr>cx = x, cy = y, cz = z, cv = v, cw = w\<rparr>)))))))"

text \<open>\<open>len\<close> is a positive multiple of 64, so that the subtraction does not wrap.\<close>

fun CityHash64_loop :: "bytes \<Rightarrow> nat \<Rightarrow> nat \<Rightarrow> city_state \<Rightarrow> city_state res" where
  "CityHash64_loop m s len st =
     rbind (CityHash64_body m s st) (\<lambda>st.
     if len - 64 \<noteq> 0 then CityHash64_loop m (s + 64) (len - 64) st else Inr st)"

declare CityHash64_loop.simps [simp del]

text \<open>\<open>(len - 1) & ~63\<close> is the largest multiple of 64 below \<open>len\<close>.\<close>

definition CityHash64 :: "bytes \<Rightarrow> nat \<Rightarrow> nat \<Rightarrow> u64 res" where
  "CityHash64 m s len =
     (if len \<le> 32 then
        if len \<le> 16 then HashLen0to16 m s len else HashLen17to32 m s len
      else if len \<le> 64 then HashLen33to64 m s len
      else
        rbind (Fetch64 m (s + len - 40)) (\<lambda>x.
        rbind (Fetch64 m (s + len - 16)) (\<lambda>t.
        rbind (Fetch64 m (s + len - 56)) (\<lambda>t'. let y = t + t' in
        rbind (Fetch64 m (s + len - 48)) (\<lambda>t.
        rbind (Fetch64 m (s + len - 24)) (\<lambda>t'. let z = HashLen16 (t + of_nat len) t' in
        rbind (WeakHashLen32WithSeeds m (s + len - 64) (of_nat len) z) (\<lambda>v.
        rbind (WeakHashLen32WithSeeds m (s + len - 32) (y + k1) x) (\<lambda>w.
        rbind (Fetch64 m s) (\<lambda>t.
        let x = x * k1 + t; len = (len - 1) div 64 * 64 in
        rbind (CityHash64_loop m s len \<lparr>cx = x, cy = y, cz = z, cv = v, cw = w\<rparr>) (\<lambda>st.
        let x = cx st; y = cy st; z = cz st; v = cv st; w = cw st in
        Inr (HashLen16 (HashLen16 (fst v) (fst w) + ShiftMix y * k1 + z)
                       (HashLen16 (snd v) (snd w) + x))))))))))))"

definition CityHash64WithSeeds :: "bytes \<Rightarrow> nat \<Rightarrow> nat \<Rightarrow> u64 \<Rightarrow> u64 \<Rightarrow> u64 res" where
  "CityHash64WithSeeds m s len seed0 seed1 =
     rbind (CityHash64 m s len) (\<lambda>h. Inr (HashLen16 (h - seed0) seed1))"

definition CityHash64WithSeed :: "bytes \<Rightarrow> nat \<Rightarrow> nat \<Rightarrow> u64 \<Rightarrow> u64 res" where
  "CityHash64WithSeed m s len seed = CityHash64WithSeeds m s len k2 seed"

section \<open>The 128-bit hash\<close>

fun CityMurmur_loop :: "bytes \<Rightarrow> nat \<Rightarrow> nat \<Rightarrow> u64 \<times> u64 \<times> u64 \<times> u64 \<Rightarrow> (u64 \<times> u64 \<times> u64 \<times> u64) res" where
  "CityMurmur_loop m s len st = (case st of (a, b, c, d) \<Rightarrow>
     rbind (Fetch64 m s) (\<lambda>t. let a = a XOR ShiftMix (t * k1) * k1; a = a * k1; b = b XOR a in
     rbind (Fetch64 m (s + 8)) (\<lambda>t. let c = c XOR ShiftMix (t * k1) * k1; c = c * k1; d = d XOR c in
     if len - 16 > 16 then CityMurmur_loop m (s + 16) (len - 16) (a, b, c, d) else Inr (a, b, c, d))))"

declare CityMurmur_loop.simps [simp del]

definition CityMurmur :: "bytes \<Rightarrow> nat \<Rightarrow> nat \<Rightarrow> uint128 \<Rightarrow> uint128 res" where
  "CityMurmur m s len seed =
     (let a = Uint128Low64 seed; b = Uint128High64 seed in
      rbind
        (if len \<le> 16 then
           let a = ShiftMix (a * k1) * k1 in
           rbind (HashLen0to16 m s len) (\<lambda>t. let c = b * k1 + t in
           rbind (if len \<ge> 8 then Fetch64 m s else Inr c) (\<lambda>t. let d = ShiftMix (a + t) in
           Inr (a, b, c, d)))
         else
           rbind (Fetch64 m (s + len - 8)) (\<lambda>t. let c = HashLen16 (t + k1) a in
           rbind (Fetch64 m (s + len - 16)) (\<lambda>t. let d = HashLen16 (b + of_nat len) (c + t); a = a + d in
           CityMurmur_loop m s len (a, b, c, d)))) (\<lambda>(a, b, c, d).
      let a = HashLen16 a c; b = HashLen16 d b in
      Inr (a XOR b, HashLen16 b a)))"

text \<open>The loop that consumes 128 bytes, and where it stops.\<close>

fun CityHash128_loop :: "bytes \<Rightarrow> nat \<Rightarrow> nat \<Rightarrow> city_state \<Rightarrow> (nat \<times> nat \<times> city_state) res" where
  "CityHash128_loop m s len st =
     rbind (CityHash64_body m s st) (\<lambda>st.
     rbind (CityHash64_body m (s + 64) st) (\<lambda>st.
     if len - 128 \<ge> 128 then CityHash128_loop m (s + 128) (len - 128) st
     else Inr (s + 128, len - 128, st)))"

declare CityHash128_loop.simps [simp del]

text \<open>
  The chunks of 32 bytes from the end: \<open>s + len - tail_done\<close> lies before \<open>s\<close> when the last chunk is not full.
\<close>

function CityHash128_tail :: "bytes \<Rightarrow> nat \<Rightarrow> nat \<Rightarrow> nat \<Rightarrow> city_state \<Rightarrow> city_state res" where
  "CityHash128_tail m s len tail_done st =
     (if tail_done < len then
        let tail_done = tail_done + 32; x = cx st; y = cy st; z = cz st; v = cv st; w = cw st;
            y = Rotate (x + y) 42 * k0 + snd v in
        rbind (Fetch64 m (s + len - tail_done + 16)) (\<lambda>t. let w = (fst w + t, snd w); x = x * k0 + fst w in
        rbind (Fetch64 m (s + len - tail_done)) (\<lambda>t. let z = z + (snd w + t); w = (fst w, snd w + fst v) in
        rbind (WeakHashLen32WithSeeds m (s + len - tail_done) (fst v + z) (snd v)) (\<lambda>v.
        let v = (fst v * k0, snd v) in
        CityHash128_tail m s len tail_done \<lparr>cx = x, cy = y, cz = z, cv = v, cw = w\<rparr>)))
      else Inr st)"
  by pat_completeness auto
termination by (relation "measure (\<lambda>(m, s, len, tail_done, st). len - tail_done)") auto

declare CityHash128_tail.simps [simp del]

definition CityHash128WithSeed :: "bytes \<Rightarrow> nat \<Rightarrow> nat \<Rightarrow> uint128 \<Rightarrow> uint128 res" where
  "CityHash128WithSeed m s len seed =
     (if len < 128 then CityMurmur m s len seed
      else
        let x = Uint128Low64 seed; y = Uint128High64 seed; z = of_nat len * k1 in
        rbind (Fetch64 m s) (\<lambda>t. let v1 = Rotate (y XOR k1) 49 * k1 + t in
        rbind (Fetch64 m (s + 8)) (\<lambda>t. let v2 = Rotate v1 42 * k1 + t; w1 = Rotate (y + z) 35 * k1 + x in
        rbind (Fetch64 m (s + 88)) (\<lambda>t. let w2 = Rotate (x + t) 53 * k1 in
        rbind (CityHash128_loop m s len \<lparr>cx = x, cy = y, cz = z, cv = (v1, v2), cw = (w1, w2)\<rparr>) (\<lambda>(s, len, st).
        let x = cx st; y = cy st; z = cz st; v = cv st; w = cw st;
            x = x + Rotate (fst v + z) 49 * k0;
            y = y * k0 + Rotate (snd w) 37;
            z = z * k0 + Rotate (fst w) 27;
            w = (fst w * 9, snd w);
            v = (fst v * k0, snd v) in
        rbind (CityHash128_tail m s len 0 \<lparr>cx = x, cy = y, cz = z, cv = v, cw = w\<rparr>) (\<lambda>st.
        let x = cx st; y = cy st; z = cz st; v = cv st; w = cw st;
            x = HashLen16 x (fst v);
            y = HashLen16 (y + z) (fst w) in
        Inr (HashLen16 (x + snd v) (snd w) + y, HashLen16 (x + snd w) (y + snd v))))))))"

definition CityHash128 :: "bytes \<Rightarrow> nat \<Rightarrow> nat \<Rightarrow> uint128 res" where
  "CityHash128 m s len =
     (if len \<ge> 16 then
        rbind (Fetch64 m s) (\<lambda>lo.
        rbind (Fetch64 m (s + 8)) (\<lambda>hi.
        CityHash128WithSeed m (s + 16) (len - 16) (lo, hi + k0)))
      else CityHash128WithSeed m s len (k0, k1))"

section \<open>Every load is inside the key\<close>

lemma agree_HashLen0to16 [window_intros]:
  "window m p w \<Longrightarrow> q = p + k \<Longrightarrow> k + len \<le> length w \<Longrightarrow> agree (HashLen0to16 m q len) (HashLen0to16 w k len)"
  unfolding HashLen0to16_def by (intro window_intros; assumption?; simp)

lemma agree_HashLen17to32 [window_intros]:
  "window m p w \<Longrightarrow> q = p + k \<Longrightarrow> 16 < len \<Longrightarrow> k + len \<le> length w \<Longrightarrow>
    agree (HashLen17to32 m q len) (HashLen17to32 w k len)"
  unfolding HashLen17to32_def by (intro window_intros; assumption?; simp)

lemma agree_WeakHashLen32WithSeeds [window_intros]:
  "window m p w \<Longrightarrow> q = p + k \<Longrightarrow> k + 32 \<le> length w \<Longrightarrow>
    agree (WeakHashLen32WithSeeds m q a b) (WeakHashLen32WithSeeds w k a b)"
  unfolding WeakHashLen32WithSeeds_def by (intro window_intros; assumption?; simp)

lemma agree_HashLen33to64 [window_intros]:
  "window m p w \<Longrightarrow> q = p + k \<Longrightarrow> 32 < len \<Longrightarrow> k + len \<le> length w \<Longrightarrow>
    agree (HashLen33to64 m q len) (HashLen33to64 w k len)"
  unfolding HashLen33to64_def by (intro window_intros; assumption?; simp)

lemma agree_CityHash64_body [window_intros]:
  "window m p w \<Longrightarrow> q = p + k \<Longrightarrow> k + 64 \<le> length w \<Longrightarrow>
    agree (CityHash64_body m q st) (CityHash64_body w k st)"
  unfolding CityHash64_body_def by (intro window_intros; assumption?; simp)

lemma agree_CityHash64_loop [window_intros]:
  assumes "window m p w" "q = p + k" "64 dvd len" "0 < len" "k + len \<le> length w"
  shows "agree (CityHash64_loop m q len st) (CityHash64_loop w k len st)"
  using assms
proof (induction len arbitrary: q k st rule: less_induct)
  case (less len)
  then have "64 \<le> len" by (auto dest: dvd_imp_le)
  then show ?case using less.prems
    by (subst (1 2) CityHash64_loop.simps) (intro window_intros less.IH; assumption?; simp)
qed

text \<open>The multiple of 64 that the loop runs over.\<close>

lemma chunks_64:
  assumes "64 < (len :: nat)"
  shows "0 < (len - 1) div 64 * 64" "(len - 1) div 64 * 64 < len"
proof -
  have "(len - 1) div 64 * 64 + (len - 1) mod 64 = len - 1" by simp
  moreover have "(len - 1) mod 64 < 64" by simp
  ultimately show "0 < (len - 1) div 64 * 64" "(len - 1) div 64 * 64 < len" using assms by linarith+
qed

lemma agree_CityHash64 [window_intros]:
  assumes "window m p w" "q = p + k" "k + len \<le> length w"
  shows "agree (CityHash64 m q len) (CityHash64 w k len)"
  unfolding CityHash64_def
  by (intro window_intros; (rule assms(1))?; use assms chunks_64 [of len] in simp)

lemma agree_CityHash64WithSeeds [window_intros]:
  "window m p w \<Longrightarrow> q = p + k \<Longrightarrow> k + len \<le> length w \<Longrightarrow>
    agree (CityHash64WithSeeds m q len seed0 seed1) (CityHash64WithSeeds w k len seed0 seed1)"
  unfolding CityHash64WithSeeds_def by (intro window_intros; assumption?; simp)

lemma agree_Hash32Len0to4_loop [window_intros]:
  "window m p w \<Longrightarrow> q = p + k \<Longrightarrow> k + n \<le> length w \<Longrightarrow>
    agree (Hash32Len0to4_loop m q n b c) (Hash32Len0to4_loop w k n b c)"
proof (induction n arbitrary: q k b c)
  case (Suc n)
  then show ?case unfolding Hash32Len0to4_loop.simps by (intro window_intros Suc.IH; assumption?; simp)
qed (simp add: window_intros)

lemma agree_Hash32Len0to4 [window_intros]:
  "window m p w \<Longrightarrow> q = p + k \<Longrightarrow> k + len \<le> length w \<Longrightarrow> agree (Hash32Len0to4 m q len) (Hash32Len0to4 w k len)"
  unfolding Hash32Len0to4_def by (intro window_intros; assumption?; simp)

lemma and_4: "n AND 4 = (if bit n 2 then 4 else 0)" "bit n 2 \<Longrightarrow> 4 \<le> n" for n :: nat
proof -
  have "n AND 2 ^ 2 = (if bit n 2 then 2 ^ 2 else 0)" by (rule bit_eqI) (auto simp only: bit_and_iff bit_exp_iff bit_0_eq bot_apply bot_bool_def split: if_split)
  then show "n AND 4 = (if bit n 2 then 4 else 0)" by simp
  show "bit n 2 \<Longrightarrow> 4 \<le> n" by (cases "n < 4") (auto simp: bit_iff_odd)
qed

lemma agree_Hash32Len5to12 [window_intros]:
  assumes "window m p w" "q = p + k" "4 < len" "k + len \<le> length w"
  shows "agree (Hash32Len5to12 m q len) (Hash32Len5to12 w k len)"
proof -
  have "(len div 2 AND 4) + 4 \<le> len" using and_4 [of "len div 2"] assms(3) by auto
  then show ?thesis unfolding Hash32Len5to12_def
    by (intro window_intros; (rule assms(1))?; use assms in \<open>simp add: add.assoc\<close>)
qed

lemma agree_Hash32Len13to24 [window_intros]:
  "window m p w \<Longrightarrow> q = p + k \<Longrightarrow> 12 < len \<Longrightarrow> k + len \<le> length w \<Longrightarrow>
    agree (Hash32Len13to24 m q len) (Hash32Len13to24 w k len)"
  unfolding Hash32Len13to24_def by (intro window_intros; assumption?; simp)

lemma agree_CityHash32_body [window_intros]:
  "window m p w \<Longrightarrow> q = p + k \<Longrightarrow> k + 20 \<le> length w \<Longrightarrow>
    agree (CityHash32_body m q st) (CityHash32_body w k st)"
  unfolding CityHash32_body_def by (intro window_intros; assumption?; simp)

lemma agree_CityHash32_loop [window_intros]:
  assumes "window m p w" "q = p + k" "0 < iters" "k + 20 * iters \<le> length w"
  shows "agree (CityHash32_loop m q iters st) (CityHash32_loop w k iters st)"
  using assms
proof (induction iters arbitrary: q k st rule: less_induct)
  case (less iters)
  then show ?case
    by (subst (1 2) CityHash32_loop.simps) (intro window_intros less.IH; assumption?; simp)
qed

lemma agree_CityHash32 [window_intros]:
  assumes "window m p w" "q = p + k" "k + len \<le> length w"
  shows "agree (CityHash32 m q len) (CityHash32 w k len)"
proof -
  have "20 * ((len - 1) div 20) \<le> len - 1" by simp
  then show ?thesis unfolding CityHash32_def
    by (intro window_intros; (rule assms(1))?; use assms in \<open>simp add: add.assoc\<close>)
qed

lemma agree_CityMurmur_loop [window_intros]:
  assumes "window m p w" "q = p + k" "16 < len" "k + len \<le> length w"
  shows "agree (CityMurmur_loop m q len st) (CityMurmur_loop w k len st)"
  using assms
proof (induction len arbitrary: q k st rule: less_induct)
  case (less len)
  then show ?case
    by (subst (1 2) CityMurmur_loop.simps) (intro window_intros less.IH; assumption?; simp)
qed

lemma agree_CityMurmur [window_intros]:
  "window m p w \<Longrightarrow> q = p + k \<Longrightarrow> k + len \<le> length w \<Longrightarrow>
    agree (CityMurmur m q len seed) (CityMurmur w k len seed)"
  unfolding CityMurmur_def by (intro window_intros; assumption?; simp)

text \<open>
  The loop over 128 bytes stops less than 128 bytes before the end of the key, and at least 128 bytes behind its start:
  room for the loads of the tail that begin before \<open>s\<close>.
\<close>

lemma CityHash128_loop_shift:
  assumes "window m p w" "128 \<le> len" "k + len \<le> length w"
  shows "\<exists>k' len' st'. CityHash128_loop m (p + k) len st = Inr (p + k', len', st') \<and>
    CityHash128_loop w k len st = Inr (k', len', st') \<and> k + 128 \<le> k' \<and> k' + len' = k + len \<and> len' < 128"
  using assms
proof (induction len arbitrary: k st rule: less_induct)
  case (less len)
  obtain st1 where st1: "CityHash64_body m (p + k) st = Inr st1" "CityHash64_body w k st = Inr st1"
    using agree_CityHash64_body [OF less.prems(1) refl, of k st] less.prems by (auto simp: agree_def)
  obtain st2 where st2: "CityHash64_body m (p + k + 64) st1 = Inr st2" "CityHash64_body w (k + 64) st1 = Inr st2"
    using agree_CityHash64_body [OF less.prems(1) refl, of "k + 64" st1] less.prems
    by (auto simp: agree_def add.assoc)
  show ?case
  proof (cases "128 \<le> len - 128")
    case True
    with less.IH [of "len - 128" "k + 128" st2] less.prems
    obtain k' len' st' where "CityHash128_loop m (p + (k + 128)) (len - 128) st2 = Inr (p + k', len', st')"
      "CityHash128_loop w (k + 128) (len - 128) st2 = Inr (k', len', st')"
      "k + 128 + 128 \<le> k'" "k' + len' = k + 128 + (len - 128)" "len' < 128" by force
    then show ?thesis using st1 st2 True
      by (subst (1 2) CityHash128_loop.simps) (simp add: add.assoc)
  next
    case False
    then show ?thesis using st1 st2 less.prems
      by (subst (1 2) CityHash128_loop.simps) (simp add: add.assoc)
  qed
qed

lemma agree_CityHash128_loop:
  assumes "window m p w" "q = p + k" "128 \<le> len" "k + len \<le> length w"
    and "\<And>k' len' st. k + 128 \<le> k' \<Longrightarrow> k' + len' = k + len \<Longrightarrow> len' < 128 \<Longrightarrow> agree (f (p + k') len' st) (g k' len' st)"
  shows "agree (rbind (CityHash128_loop m q len st) (\<lambda>(s, len, st). f s len st))
    (rbind (CityHash128_loop w k len st) (\<lambda>(s, len, st). g s len st))"
  using CityHash128_loop_shift [OF assms(1,3,4), of st] assms(2,5) by auto

lemma agree_CityHash128_tail [window_intros]:
  assumes "window m p w" "q = p + k" "128 \<le> k" "len < 128" "k + len \<le> length w" "32 dvd tail_done"
  shows "agree (CityHash128_tail m q len tail_done st) (CityHash128_tail w k len tail_done st)"
  using assms(6)
proof (induction "len - tail_done" arbitrary: tail_done st rule: less_induct)
  case less
  have "tail_done < len \<Longrightarrow> tail_done + 32 \<le> 128" using assms(4) less.prems by (auto elim!: dvdE)
  then show ?case using assms(1-5) less.prems
    by (subst (1 2) CityHash128_tail.simps) (intro window_intros less.hyps; assumption?; simp)
qed

lemma agree_CityHash128WithSeed [window_intros]:
  assumes "window m p w" "q = p + k" "k + len \<le> length w"
  shows "agree (CityHash128WithSeed m q len seed) (CityHash128WithSeed w k len seed)"
  unfolding CityHash128WithSeed_def
  by (intro agree_CityHash128_loop window_intros; (rule assms(1))?; use assms in \<open>simp add: add.assoc\<close>)

lemma agree_CityHash128 [window_intros]:
  assumes "window m p w" "q = p + k" "k + len \<le> length w"
  shows "agree (CityHash128 m q len) (CityHash128 w k len)"
  unfolding CityHash128_def
  by (intro window_intros; (rule assms(1))?; use assms in \<open>simp add: add.assoc\<close>)

interpretation city32: key_hash CityHash32
  by unfold_locales (rule agree_CityHash32 [OF _ refl])

interpretation city64: key_hash CityHash64
  by unfold_locales (rule agree_CityHash64 [OF _ refl])

interpretation city128: key_hash CityHash128
  by unfold_locales (rule agree_CityHash128 [OF _ refl])

section \<open>Steps that lose nothing\<close>

lemma kMul_inverse: "kMul * 15877131476434367193 = 1"
  by (simp add: kMul_def)

text \<open>For a fixed second word the mix of two words is a bijection of the first.\<close>

lemma HashLen16_inj [simp]: "HashLen16 u v = HashLen16 u' v \<longleftrightarrow> u = u'"
proof -
  have mul: "x * kMul = y * kMul \<longleftrightarrow> x = y" for x y
    using mult_inj_inverse [OF kMul_inverse] by blast
  have shift: "x XOR drop_bit 47 x = y XOR drop_bit 47 y \<longleftrightarrow> x = y" for x y :: u64
    using shift_xor_inj [of 47 x y] by auto
  show ?thesis
    by (simp only: HashLen16_def Hash128to64_def Let_def Uint128Low64_def Uint128High64_def fst_conv snd_conv
        mul shift xor_inj)
qed

interpretation city64_seed: seeded_hash CityHash64 "\<lambda>m s len. CityHash64WithSeed m s len seed"
  "\<lambda>h. HashLen16 (h - k2) seed" for seed
  by unfold_locales (simp_all add: CityHash64WithSeed_def CityHash64WithSeeds_def)

end
