(* ===== verification/Farm_Hash.thy ===== *)
theory Farm_Hash
  imports City_Hash
begin

unbundle bit_operations_syntax

text \<open>
  FarmHash, \<open>src/util/hash/farmhash.cpp\<close> and \<open>farmhash.hpp\<close>: the portable 64-bit hashes \<open>farmhashna\<close>,
  \<open>farmhashuo\<close> and \<open>farmhashxo\<close>, and the 32-bit hash \<open>farmhashmk\<close>. The versions with vector and checksum
  instructions are in \<open>Farm_Te\<close> and \<open>Farm_Crc\<close>, and the functions of \<open>namespace util\<close> that select among
  all of them by the build's flags are in \<open>Farm_Select\<close>. A definition carries the short name of its namespace.
  The scalar helpers (\<open>fmix\<close>, \<open>Mur\<close>, \<open>ShiftMix\<close>, \<open>HashLen16\<close>,
  \<open>Hash128to64\<close>, rotations and constants) have the same text as in CityHash and are shared with it.
\<close>

section \<open>farmhashna\<close>

definition na_HashLen0to16 :: "bytes \<Rightarrow> nat \<Rightarrow> nat \<Rightarrow> u64 res" where
  "na_HashLen0to16 m s len =
     (if len \<ge> 8 then
        let mul = k2 + of_nat len * 2 in
        rbind (Fetch64 m s) (\<lambda>x. let a = x + k2 in
        rbind (Fetch64 m (s + len - 8)) (\<lambda>b.
        let c = Rotate b 37 * mul + a;
            d = (Rotate a 25 + b) * mul in
        Inr (HashLen16_mul c d mul)))
      else if len \<ge> 4 then
        let mul = k2 + of_nat len * 2 in
        rbind (Fetch32 m s) (\<lambda>x. let a = ucast x in
        rbind (Fetch32 m (s + len - 4)) (\<lambda>y.
        Inr (HashLen16_mul (of_nat len + push_bit 3 a) (ucast y) mul)))
      else if len > 0 then
        rbind (rd m s) (\<lambda>a.
        rbind (rd m (s + len div 2)) (\<lambda>b.
        rbind (rd m (s + len - 1)) (\<lambda>c.
        let y = ucast a + push_bit 8 (ucast b) :: u32;
            z = of_nat len + push_bit 2 (ucast c) :: u32 in
        Inr (ShiftMix (ucast y * k2 XOR ucast z * k0) * k2))))
      else Inr k2)"

definition na_HashLen17to32 :: "bytes \<Rightarrow> nat \<Rightarrow> nat \<Rightarrow> u64 res" where
  "na_HashLen17to32 m s len =
     (let mul = k2 + of_nat len * 2 in
      rbind (Fetch64 m s) (\<lambda>x. let a = x * k1 in
      rbind (Fetch64 m (s + 8)) (\<lambda>b.
      rbind (Fetch64 m (s + len - 8)) (\<lambda>x. let c = x * mul in
      rbind (Fetch64 m (s + len - 16)) (\<lambda>x. let d = x * k2 in
      Inr (HashLen16_mul (Rotate (a + b) 43 + Rotate c 30 + d) (a + Rotate (b + k2) 18 + c) mul))))))"

definition na_WeakHashLen32WithSeeds :: "bytes \<Rightarrow> nat \<Rightarrow> u64 \<Rightarrow> u64 \<Rightarrow> (u64 \<times> u64) res" where
  "na_WeakHashLen32WithSeeds m s a b =
     rbind (Fetch64 m s) (\<lambda>w.
     rbind (Fetch64 m (s + 8)) (\<lambda>x.
     rbind (Fetch64 m (s + 16)) (\<lambda>y.
     rbind (Fetch64 m (s + 24)) (\<lambda>z.
     Inr (WeakHashLen32WithSeeds_words w x y z a b)))))"

definition na_HashLen33to64 :: "bytes \<Rightarrow> nat \<Rightarrow> nat \<Rightarrow> u64 res" where
  "na_HashLen33to64 m s len =
     (let mul = k2 + of_nat len * 2 in
      rbind (Fetch64 m s) (\<lambda>t. let a = t * k2 in
      rbind (Fetch64 m (s + 8)) (\<lambda>b.
      rbind (Fetch64 m (s + len - 8)) (\<lambda>t. let c = t * mul in
      rbind (Fetch64 m (s + len - 16)) (\<lambda>t. let d = t * k2;
        y = Rotate (a + b) 43 + Rotate c 30 + d;
        z = HashLen16_mul y (a + Rotate (b + k2) 18 + c) mul in
      rbind (Fetch64 m (s + 16)) (\<lambda>t. let e = t * mul in
      rbind (Fetch64 m (s + 24)) (\<lambda>f.
      rbind (Fetch64 m (s + len - 32)) (\<lambda>t. let g = (y + t) * mul in
      rbind (Fetch64 m (s + len - 24)) (\<lambda>t. let h = (z + t) * mul in
      Inr (HashLen16_mul (Rotate (e + f) 43 + Rotate g 30 + h) (e + Rotate (f + a) 18 + g) mul))))))))))"

text \<open>One step of the loop over 64-byte chunks; the multiplier and two factors differ between its uses.\<close>

definition na_step :: "u64 \<Rightarrow> u64 \<Rightarrow> bytes \<Rightarrow> nat \<Rightarrow> city_state \<Rightarrow> city_state res" where
  "na_step mul nine m s st =
     (let x = cx st; y = cy st; z = cz st; v = cv st; w = cw st in
      rbind (Fetch64 m (s + 8)) (\<lambda>t. let x = Rotate (x + y + fst v + t) 37 * mul in
      rbind (Fetch64 m (s + 48)) (\<lambda>t. let y = Rotate (y + snd v + t) 42 * mul; x = x XOR snd w * nine in
      rbind (Fetch64 m (s + 40)) (\<lambda>t. let y = y + (fst v * nine + t); z = Rotate (z + fst w) 33 * mul in
      rbind (na_WeakHashLen32WithSeeds m s (snd v * mul) (x + fst w)) (\<lambda>v.
      rbind (Fetch64 m (s + 16)) (\<lambda>t.
      rbind (na_WeakHashLen32WithSeeds m (s + 32) (z + snd w) (y + t)) (\<lambda>w.
      let (z, x) = (x, z) in
      Inr \<lparr>cx = x, cy = y, cz = z, cv = v, cw = w\<rparr>)))))))"

lemma na_step_inside: "na_step mul nine m s st = Inr st' \<Longrightarrow> s + 16 \<le> length m"
  unfolding na_step_def Let_def by (drule Fetch64_inside) simp

text \<open>
  The loop ends when \<open>s\<close> reaches \<open>end\<close>. It always ends: a round that starts behind the memory cannot load its
  chunk.
\<close>

function na_loop :: "bytes \<Rightarrow> nat \<Rightarrow> nat \<Rightarrow> city_state \<Rightarrow> city_state res" where
  "na_loop m s e st =
     rbind (na_step k1 1 m s st) (\<lambda>st. if s + 64 \<noteq> e then na_loop m (s + 64) e st else Inr st)"
  by pat_completeness auto

termination
  by (relation "measure (\<lambda>(m, s, e, st). length m - s)") (auto dest: na_step_inside)

declare na_loop.simps [simp del]

definition na_Hash64 :: "bytes \<Rightarrow> nat \<Rightarrow> nat \<Rightarrow> u64 res" where
  "na_Hash64 m s len =
     (let seed = 81 in
      if len \<le> 32 then
        if len \<le> 16 then na_HashLen0to16 m s len else na_HashLen17to32 m s len
      else if len \<le> 64 then na_HashLen33to64 m s len
      else
        let x = seed; y = seed * k1 + 113; z = ShiftMix (y * k2 + 113) * k2; v = (0, 0); w = (0, 0) in
        rbind (Fetch64 m s) (\<lambda>t.
        let x = x * k2 + t;
            e = s + (len - 1) div 64 * 64;
            last64 = e + (len - 1) mod 64 - 63 in
        rbind (guard (s + len - 64 = last64) AssertFail) (\<lambda>_.
        rbind (na_loop m s e \<lparr>cx = x, cy = y, cz = z, cv = v, cw = w\<rparr>) (\<lambda>st.
        let mul = k1 + push_bit 1 (cz st AND 0xff);
            s = last64;
            w1 = fst (cw st) + of_nat ((len - 1) mod 64);
            v1 = fst (cv st) + w1;
            w1 = w1 + v1 in
        rbind (na_step mul 9 m s (st\<lparr>cv := (v1, snd (cv st)), cw := (w1, snd (cw st))\<rparr>)) (\<lambda>st.
        let x = cx st; y = cy st; z = cz st; v = cv st; w = cw st in
        Inr (HashLen16_mul (HashLen16_mul (fst v) (fst w) mul + ShiftMix y * k0 + z)
                           (HashLen16_mul (snd v) (snd w) mul + x) mul))))))"

definition na_Hash64WithSeeds :: "bytes \<Rightarrow> nat \<Rightarrow> nat \<Rightarrow> u64 \<Rightarrow> u64 \<Rightarrow> u64 res" where
  "na_Hash64WithSeeds m s len seed0 seed1 =
     rbind (na_Hash64 m s len) (\<lambda>h. Inr (HashLen16 (h - seed0) seed1))"

definition na_Hash64WithSeed :: "bytes \<Rightarrow> nat \<Rightarrow> nat \<Rightarrow> u64 \<Rightarrow> u64 res" where
  "na_Hash64WithSeed m s len seed = na_Hash64WithSeeds m s len k2 seed"

section \<open>farmhashuo\<close>

definition uo_H :: "u64 \<Rightarrow> u64 \<Rightarrow> u64 \<Rightarrow> nat \<Rightarrow> u64" where
  "uo_H x y mul r =
     (let a = (x XOR y) * mul;
          a = a XOR drop_bit 47 a;
          b = (y XOR a) * mul in
      Rotate b r * mul)"

record uo_state = city_state +
  cu :: u64

text \<open>The mixing of the eight words of a chunk, and a round of the loop that loads them.\<close>

definition uo_mix :: "u64 \<Rightarrow> u64 \<Rightarrow> u64 \<Rightarrow> u64 \<Rightarrow> u64 \<Rightarrow> u64 \<Rightarrow> u64 \<Rightarrow> u64 \<Rightarrow> u64 \<Rightarrow> uo_state \<Rightarrow> uo_state" where
  "uo_mix mul a0 a1 a2 a3 a4 a5 a6 a7 st =
    (let x = cx st + (a0 + a1);
         y = cy st + a2;
         z = cz st + a3;
         v1 = fst (cv st) + a4;
         v2 = snd (cv st) + (a5 + a1);
         w1 = fst (cw st) + a6;
         w2 = snd (cw st) + a7;
         u = cu st;
         x = Rotate x 26;
         x = x * 9;
         y = Rotate y 29;
         z = z * mul;
         v1 = Rotate v1 33;
         v2 = Rotate v2 30;
         w1 = w1 XOR x;
         w1 = w1 * 9;
         z = Rotate z 32;
         z = z + w2;
         w2 = w2 + z;
         z = z * 9;
         (u, y) = (y, u);
         z = z + (a0 + a6);
         v1 = v1 + a2;
         v2 = v2 + a3;
         w1 = w1 + a4;
         w2 = w2 + (a5 + a6);
         x = x + a1;
         y = y + a7;
         y = y + v1;
         v1 = v1 + (x - y);
         v2 = v2 + w1;
         w1 = w1 + v2;
         w2 = w2 + (x - y);
         x = x + w2;
         w2 = Rotate w2 34;
         (u, z) = (z, u) in
     \<lparr>cx = x, cy = y, cz = z, cv = (v1, v2), cw = (w1, w2), cu = u\<rparr>)"

definition uo_step :: "u64 \<Rightarrow> bytes \<Rightarrow> nat \<Rightarrow> uo_state \<Rightarrow> uo_state res" where
  "uo_step mul m s st =
     rbind (Fetch64 m s) (\<lambda>a0.
     rbind (Fetch64 m (s + 8)) (\<lambda>a1.
     rbind (Fetch64 m (s + 16)) (\<lambda>a2.
     rbind (Fetch64 m (s + 24)) (\<lambda>a3.
     rbind (Fetch64 m (s + 32)) (\<lambda>a4.
     rbind (Fetch64 m (s + 40)) (\<lambda>a5.
     rbind (Fetch64 m (s + 48)) (\<lambda>a6.
     rbind (Fetch64 m (s + 56)) (\<lambda>a7.
     Inr (uo_mix mul a0 a1 a2 a3 a4 a5 a6 a7 st)))))))))"

lemma uo_step_inside: "uo_step mul m s st = Inr st' \<Longrightarrow> s + 8 \<le> length m"
  unfolding uo_step_def by (rule Fetch64_inside)

function uo_loop :: "u64 \<Rightarrow> bytes \<Rightarrow> nat \<Rightarrow> nat \<Rightarrow> uo_state \<Rightarrow> uo_state res" where
  "uo_loop mul m s e st =
     rbind (uo_step mul m s st) (\<lambda>st. if s + 64 \<noteq> e then uo_loop mul m (s + 64) e st else Inr st)"
  by pat_completeness auto

termination
  by (relation "measure (\<lambda>(mul, m, s, e, st). length m - s)") (auto dest: uo_step_inside)

declare uo_loop.simps [simp del]

definition uo_Hash64WithSeeds :: "bytes \<Rightarrow> nat \<Rightarrow> nat \<Rightarrow> u64 \<Rightarrow> u64 \<Rightarrow> u64 res" where
  "uo_Hash64WithSeeds m s len seed0 seed1 =
     (if len \<le> 64 then na_Hash64WithSeeds m s len seed0 seed1
      else
        let x = seed0;
            y = seed1 * k2 + 113;
            z = ShiftMix (y * k2) * k2;
            v = (seed0, seed1);
            w = (0, 0);
            u = x - z;
            x = x * k2;
            mul = k2 + (u AND 0x82);
            e = s + (len - 1) div 64 * 64;
            last64 = e + (len - 1) mod 64 - 63 in
        rbind (guard (s + len - 64 = last64) AssertFail) (\<lambda>_.
        rbind (uo_loop mul m s e \<lparr>cx = x, cy = y, cz = z, cv = v, cw = w, cu = u\<rparr>) (\<lambda>st.
        let s = last64;
            x = cx st; y = cy st; z = cz st; v = cv st; w = cw st;
            u = cu st * 9;
            v2 = Rotate (snd v) 28;
            v1 = Rotate (fst v) 20;
            w = (fst w + of_nat ((len - 1) mod 64), snd w);
            u = u + y;
            y = y + u in
        rbind (Fetch64 m (s + 8)) (\<lambda>t. let x = Rotate (y - x + v1 + t) 37 * mul in
        rbind (Fetch64 m (s + 48)) (\<lambda>t. let y = Rotate (y XOR v2 XOR t) 42 * mul; x = x XOR snd w * 9 in
        rbind (Fetch64 m (s + 40)) (\<lambda>t. let y = y + (v1 + t); z = Rotate (z + fst w) 33 * mul in
        rbind (na_WeakHashLen32WithSeeds m s (v2 * mul) (x + fst w)) (\<lambda>v.
        rbind (Fetch64 m (s + 16)) (\<lambda>t.
        rbind (na_WeakHashLen32WithSeeds m (s + 32) (z + snd w) (y + t)) (\<lambda>w.
        Inr (uo_H (HashLen16_mul (fst v + x) (fst w XOR y) mul + z - u)
                  (uo_H (snd v + y) (snd w + z) k2 30 XOR x) k2 31))))))))))"

definition uo_Hash64WithSeed :: "bytes \<Rightarrow> nat \<Rightarrow> nat \<Rightarrow> u64 \<Rightarrow> u64 res" where
  "uo_Hash64WithSeed m s len seed =
     (if len \<le> 64 then na_Hash64WithSeed m s len seed else uo_Hash64WithSeeds m s len 0 seed)"

definition uo_Hash64 :: "bytes \<Rightarrow> nat \<Rightarrow> nat \<Rightarrow> u64 res" where
  "uo_Hash64 m s len =
     (if len \<le> 64 then na_Hash64 m s len else uo_Hash64WithSeeds m s len 81 0)"

section \<open>farmhashxo\<close>

definition xo_H32 :: "bytes \<Rightarrow> nat \<Rightarrow> nat \<Rightarrow> u64 \<Rightarrow> u64 \<Rightarrow> u64 \<Rightarrow> u64 res" where
  "xo_H32 m s len mul seed0 seed1 =
     rbind (Fetch64 m s) (\<lambda>t. let a = t * k1 in
     rbind (Fetch64 m (s + 8)) (\<lambda>b.
     rbind (Fetch64 m (s + len - 8)) (\<lambda>t. let c = t * mul in
     rbind (Fetch64 m (s + len - 16)) (\<lambda>t. let d = t * k2;
       u = Rotate (a + b) 43 + Rotate c 30 + d + seed0;
       v = a + Rotate (b + k2) 18 + c + seed1;
       a = ShiftMix ((u XOR v) * mul);
       b = ShiftMix ((v XOR a) * mul) in
     Inr b))))"

definition xo_HashLen33to64 :: "bytes \<Rightarrow> nat \<Rightarrow> nat \<Rightarrow> u64 res" where
  "xo_HashLen33to64 m s len =
     (let mul0 = k2 - 30; mul1 = k2 - 30 + 2 * of_nat len in
      rbind (xo_H32 m s 32 mul0 0 0) (\<lambda>h0.
      rbind (xo_H32 m (s + len - 32) 32 mul1 0 0) (\<lambda>h1.
      Inr ((h1 * mul1 + h0) * mul1))))"

definition xo_HashLen65to96 :: "bytes \<Rightarrow> nat \<Rightarrow> nat \<Rightarrow> u64 res" where
  "xo_HashLen65to96 m s len =
     (let mul0 = k2 - 114; mul1 = k2 - 114 + 2 * of_nat len in
      rbind (xo_H32 m s 32 mul0 0 0) (\<lambda>h0.
      rbind (xo_H32 m (s + 32) 32 mul1 0 0) (\<lambda>h1.
      rbind (xo_H32 m (s + len - 32) 32 mul1 h0 h1) (\<lambda>h2.
      Inr ((h2 * 9 + drop_bit 17 h0 + drop_bit 21 h1) * mul1)))))"

definition xo_Hash64 :: "bytes \<Rightarrow> nat \<Rightarrow> nat \<Rightarrow> u64 res" where
  "xo_Hash64 m s len =
     (if len \<le> 32 then
        if len \<le> 16 then na_HashLen0to16 m s len else na_HashLen17to32 m s len
      else if len \<le> 64 then xo_HashLen33to64 m s len
      else if len \<le> 96 then xo_HashLen65to96 m s len
      else if len \<le> 256 then na_Hash64 m s len
      else uo_Hash64 m s len)"

definition xo_Hash64WithSeeds :: "bytes \<Rightarrow> nat \<Rightarrow> nat \<Rightarrow> u64 \<Rightarrow> u64 \<Rightarrow> u64 res" where
  "xo_Hash64WithSeeds m s len seed0 seed1 = uo_Hash64WithSeeds m s len seed0 seed1"

definition xo_Hash64WithSeed :: "bytes \<Rightarrow> nat \<Rightarrow> nat \<Rightarrow> u64 \<Rightarrow> u64 res" where
  "xo_Hash64WithSeed m s len seed = uo_Hash64WithSeed m s len seed"

section \<open>farmhashmk\<close>

definition mk_Hash32Len13to24 :: "bytes \<Rightarrow> nat \<Rightarrow> nat \<Rightarrow> u32 \<Rightarrow> u32 res" where
  "mk_Hash32Len13to24 m s len seed =
     rbind (Fetch32 m (s + len div 2 - 4)) (\<lambda>a.
     rbind (Fetch32 m (s + 4)) (\<lambda>b.
     rbind (Fetch32 m (s + len - 8)) (\<lambda>c.
     rbind (Fetch32 m (s + len div 2)) (\<lambda>d.
     rbind (Fetch32 m s) (\<lambda>e.
     rbind (Fetch32 m (s + len - 4)) (\<lambda>f.
     let h = d * c1 + of_nat len + seed;
         a = Rotate32 a 12 + f;
         h = Mur c h + a;
         a = Rotate32 a 3 + c;
         h = Mur e h + a;
         a = Rotate32 (a + f) 12 + d;
         h = Mur (b XOR seed) h + a in
     Inr (fmix h)))))))"

definition mk_Hash32Len0to4 :: "bytes \<Rightarrow> nat \<Rightarrow> nat \<Rightarrow> u32 \<Rightarrow> u32 res" where
  "mk_Hash32Len0to4 m s len seed =
     rbind (Hash32Len0to4_loop m s len seed 9) (\<lambda>(b, c).
     Inr (fmix (Mur b (Mur (of_nat len) c))))"

definition mk_Hash32Len5to12 :: "bytes \<Rightarrow> nat \<Rightarrow> nat \<Rightarrow> u32 \<Rightarrow> u32 res" where
  "mk_Hash32Len5to12 m s len seed =
     (let a = of_nat len; b = of_nat len * 5; c = 9; d = b + seed in
      rbind (Fetch32 m s) (\<lambda>x. let a = a + x in
      rbind (Fetch32 m (s + len - 4)) (\<lambda>x. let b = b + x in
      rbind (Fetch32 m (s + (len div 2 AND 4))) (\<lambda>x. let c = c + x in
      Inr (fmix (seed XOR Mur c (Mur b (Mur a d))))))))"

definition mk_body :: "bytes \<Rightarrow> nat \<Rightarrow> u32 \<times> u32 \<times> u32 \<Rightarrow> (u32 \<times> u32 \<times> u32) res" where
  "mk_body m s = (\<lambda>(h, g, f).
     rbind (Fetch32 m s) (\<lambda>a.
     rbind (Fetch32 m (s + 4)) (\<lambda>b.
     rbind (Fetch32 m (s + 8)) (\<lambda>c.
     rbind (Fetch32 m (s + 12)) (\<lambda>d.
     rbind (Fetch32 m (s + 16)) (\<lambda>e.
     let h = h + a;
         g = g + b;
         f = f + c;
         h = Mur d h + e;
         g = Mur c g + a;
         f = Mur (b + e * c1) f + d;
         f = f + g;
         g = g + f in
     Inr (h, g, f)))))))"

fun mk_loop :: "bytes \<Rightarrow> nat \<Rightarrow> nat \<Rightarrow> u32 \<times> u32 \<times> u32 \<Rightarrow> (u32 \<times> u32 \<times> u32) res" where
  "mk_loop m s iters st =
     rbind (mk_body m s st) (\<lambda>st.
     if iters - 1 \<noteq> 0 then mk_loop m (s + 20) (iters - 1) st else Inr st)"

declare mk_loop.simps [simp del]

definition mk_Hash32 :: "bytes \<Rightarrow> nat \<Rightarrow> nat \<Rightarrow> u32 res" where
  "mk_Hash32 m s len =
     (if len \<le> 24 then
        if len \<le> 12 then
          if len \<le> 4 then mk_Hash32Len0to4 m s len 0 else mk_Hash32Len5to12 m s len 0
        else mk_Hash32Len13to24 m s len 0
      else
        let h = of_nat len; g = c1 * of_nat len; f = g in
        rbind (Fetch32 m (s + len - 4)) (\<lambda>x. let a0 = scramble x in
        rbind (Fetch32 m (s + len - 8)) (\<lambda>x. let a1 = scramble x in
        rbind (Fetch32 m (s + len - 16)) (\<lambda>x. let a2 = scramble x in
        rbind (Fetch32 m (s + len - 12)) (\<lambda>x. let a3 = scramble x in
        rbind (Fetch32 m (s + len - 20)) (\<lambda>x. let a4 = scramble x;
          h = stir (h XOR a0) 19;
          h = stir (h XOR a2) 19;
          g = stir (g XOR a1) 19;
          g = stir (g XOR a3) 19;
          f = f + a4;
          f = Rotate32 f 19 + 113;
          iters = (len - 1) div 20 in
        rbind (mk_loop m s iters (h, g, f)) (\<lambda>(h, g, f).
        let g = Rotate32 g 11 * c1;
            g = Rotate32 g 17 * c1;
            f = Rotate32 f 11 * c1;
            f = Rotate32 f 17 * c1;
            h = stir (h + g) 19;
            h = Rotate32 h 17 * c1;
            h = stir (h + f) 19;
            h = Rotate32 h 17 * c1 in
        Inr h)))))))"

definition mk_Hash32WithSeed :: "bytes \<Rightarrow> nat \<Rightarrow> nat \<Rightarrow> u32 \<Rightarrow> u32 res" where
  "mk_Hash32WithSeed m s len seed =
     (if len \<le> 24 then
        if len \<ge> 13 then mk_Hash32Len13to24 m s len (seed * c1)
        else if len \<ge> 5 then mk_Hash32Len5to12 m s len seed
        else mk_Hash32Len0to4 m s len seed
      else
        rbind (mk_Hash32Len13to24 m s 24 (seed XOR of_nat len)) (\<lambda>h.
        rbind (mk_Hash32 m (s + 24) (len - 24)) (\<lambda>t.
        Inr (Mur (t + seed) h))))"

section \<open>The functions of the header\<close>

text \<open>\<open>DebugTweak\<close> at 32, 64 and 128 bits.\<close>

definition DebugTweak32 :: "bool \<Rightarrow> u32 \<Rightarrow> u32" where
  "DebugTweak32 debug_mode x = (if debug_mode then NOT (bswap_32 (x * c1)) else x)"

definition DebugTweak :: "bool \<Rightarrow> u64 \<Rightarrow> u64" where
  "DebugTweak debug_mode x = (if debug_mode then NOT (bswap_64 (x * k1)) else x)"

definition DebugTweak128 :: "bool \<Rightarrow> uint128 \<Rightarrow> uint128" where
  "DebugTweak128 debug_mode x =
     (if debug_mode then
        let y = DebugTweak debug_mode (Uint128Low64 x);
            z = DebugTweak debug_mode (Uint128High64 x);
            y = y + z;
            z = z + y in
        (y, z * k1)
      else x)"

definition Hash64WithSeed :: "bool \<Rightarrow> bytes \<Rightarrow> nat \<Rightarrow> nat \<Rightarrow> u64 \<Rightarrow> u64 res" where
  "Hash64WithSeed debug_mode m s len seed =
     rbind (na_Hash64WithSeed m s len seed) (\<lambda>h. Inr (DebugTweak debug_mode h))"

definition Hash64WithSeeds :: "bool \<Rightarrow> bytes \<Rightarrow> nat \<Rightarrow> nat \<Rightarrow> u64 \<Rightarrow> u64 \<Rightarrow> u64 res" where
  "Hash64WithSeeds debug_mode m s len seed0 seed1 =
     rbind (na_Hash64WithSeeds m s len seed0 seed1) (\<lambda>h. Inr (DebugTweak debug_mode h))"

definition Fingerprint32 :: "bytes \<Rightarrow> nat \<Rightarrow> nat \<Rightarrow> u32 res" where
  "Fingerprint32 m s len = mk_Hash32 m s len"

definition Fingerprint64 :: "bytes \<Rightarrow> nat \<Rightarrow> nat \<Rightarrow> u64 res" where
  "Fingerprint64 m s len = na_Hash64 m s len"

text \<open>\<open>Fingerprint\<close> of a 128-bit and of a 64-bit number.\<close>

definition Fingerprint_128 :: "uint128 \<Rightarrow> u64" where
  "Fingerprint_128 x =
     (let a = (Uint128Low64 x XOR Uint128High64 x) * kMul;
          a = a XOR drop_bit 47 a;
          b = (Uint128High64 x XOR a) * kMul;
          b = b XOR drop_bit 44 b;
          b = b * kMul;
          b = b XOR drop_bit 41 b in
      b * kMul)"

definition Fingerprint :: "u64 \<Rightarrow> u64" where
  "Fingerprint x =
     (let b = x * kMul;
          b = b XOR drop_bit 44 b;
          b = b * kMul;
          b = b XOR drop_bit 41 b in
      b * kMul)"

section \<open>Every load is inside the key\<close>

text \<open>The short keys and the weak hash of 32 bytes are hashed as CityHash hashes them.\<close>

lemma na_short:
  "na_HashLen0to16 = HashLen0to16" "na_HashLen17to32 = HashLen17to32"
  "na_WeakHashLen32WithSeeds = WeakHashLen32WithSeeds"
  by (intro ext; simp only: na_HashLen0to16_def HashLen0to16_def na_HashLen17to32_def HashLen17to32_def
      na_WeakHashLen32WithSeeds_def WeakHashLen32WithSeeds_def)+

lemma agree_na_HashLen33to64 [window_intros]:
  "window m p w \<Longrightarrow> q = p + k \<Longrightarrow> 32 < len \<Longrightarrow> k + len \<le> length w \<Longrightarrow>
    agree (na_HashLen33to64 m q len) (na_HashLen33to64 w k len)"
  unfolding na_HashLen33to64_def by (intro window_intros; assumption?; simp)

lemma agree_na_step [window_intros]:
  "window m p w \<Longrightarrow> q = p + k \<Longrightarrow> k + 64 \<le> length w \<Longrightarrow>
    agree (na_step mul nine m q st) (na_step mul nine w k st)"
  unfolding na_step_def na_short by (intro window_intros; assumption?; simp)

text \<open>A loop that ends \<open>n\<close> chunks behind its start.\<close>

lemma agree_na_loop [window_intros]:
  assumes "window m p w" "q = p + k" "e = p + e'" "e' = k + 64 * n" "0 < n" "e' \<le> length w"
  shows "agree (na_loop m q e st) (na_loop w k e' st)"
  using assms
proof (induction n arbitrary: q k st)
  case (Suc n)
  have "agree (na_loop m (q + 64) e st') (na_loop w (k + 64) e' st')" if "k + 64 \<noteq> e'" for st'
    using Suc.prems that by (intro Suc.IH) simp_all
  with Suc.prems show ?case
    by (subst (1 2) na_loop.simps) (intro agree_bind agree_na_step; simp add: agree_Inr)
qed simp

lemma agree_uo_step [window_intros]:
  "window m p w \<Longrightarrow> q = p + k \<Longrightarrow> k + 64 \<le> length w \<Longrightarrow> agree (uo_step mul m q st) (uo_step mul w k st)"
  unfolding uo_step_def by (intro agree_bind agree_Fetch64; assumption?; simp add: agree_Inr)

lemma agree_uo_loop [window_intros]:
  assumes "window m p w" "q = p + k" "e = p + e'" "e' = k + 64 * n" "0 < n" "e' \<le> length w"
  shows "agree (uo_loop mul m q e st) (uo_loop mul w k e' st)"
  using assms
proof (induction n arbitrary: q k st)
  case (Suc n)
  have "agree (uo_loop mul m (q + 64) e st') (uo_loop mul w (k + 64) e' st')" if "k + 64 \<noteq> e'" for st'
    using Suc.prems that by (intro Suc.IH) simp_all
  with Suc.prems show ?case
    by (subst (1 2) uo_loop.simps) (intro agree_bind agree_uo_step; simp add: agree_Inr)
qed simp

text \<open>The assertion before the loops: the two ways to compute the address of the last 64 bytes agree.\<close>

lemma last64: "64 < len \<Longrightarrow> s + (len - 1) div 64 * 64 + (len - 1) mod 64 - 63 = s + len - 64"
  for s len :: nat
  by (simp add: add.assoc)

lemma agree_guard [window_intros]: "b \<Longrightarrow> c \<Longrightarrow> agree (guard b e) (guard c e)"
  by (simp add: agree_def)

lemma agree_na_Hash64 [window_intros]:
  assumes "window m p w" "q = p + k" "k + len \<le> length w"
  shows "agree (na_Hash64 m q len) (na_Hash64 w k len)"
  unfolding na_Hash64_def na_short
  by (intro agree_Let_address window_intros agree_na_loop [where n = "(len - 1) div 64"]; (rule assms(1))?;
      use assms chunks_64 [of len] last64 [of len] in \<open>simp add: add.assoc\<close>)

lemma agree_na_Hash64WithSeeds [window_intros]:
  "window m p w \<Longrightarrow> q = p + k \<Longrightarrow> k + len \<le> length w \<Longrightarrow>
    agree (na_Hash64WithSeeds m q len seed0 seed1) (na_Hash64WithSeeds w k len seed0 seed1)"
  unfolding na_Hash64WithSeeds_def by (intro window_intros; assumption?; simp)

lemma agree_uo_Hash64WithSeeds [window_intros]:
  assumes "window m p w" "q = p + k" "k + len \<le> length w"
  shows "agree (uo_Hash64WithSeeds m q len seed0 seed1) (uo_Hash64WithSeeds w k len seed0 seed1)"
  unfolding uo_Hash64WithSeeds_def na_short
  by (intro agree_Let_address window_intros agree_uo_loop [where n = "(len - 1) div 64"]; (rule assms(1))?;
      use assms chunks_64 [of len] last64 [of len] in \<open>simp add: add.assoc\<close>)

lemma agree_uo_Hash64 [window_intros]:
  "window m p w \<Longrightarrow> q = p + k \<Longrightarrow> k + len \<le> length w \<Longrightarrow> agree (uo_Hash64 m q len) (uo_Hash64 w k len)"
  unfolding uo_Hash64_def by (intro window_intros; assumption?; simp)

lemma agree_xo_H32 [window_intros]:
  "window m p w \<Longrightarrow> q = p + k \<Longrightarrow> 16 \<le> len \<Longrightarrow> k + len \<le> length w \<Longrightarrow>
    agree (xo_H32 m q len mul seed0 seed1) (xo_H32 w k len mul seed0 seed1)"
  unfolding xo_H32_def by (intro agree_Let_address window_intros; assumption?; simp)

lemma agree_xo_Hash64 [window_intros]:
  "window m p w \<Longrightarrow> q = p + k \<Longrightarrow> k + len \<le> length w \<Longrightarrow> agree (xo_Hash64 m q len) (xo_Hash64 w k len)"
  unfolding xo_Hash64_def xo_HashLen33to64_def xo_HashLen65to96_def na_short
  by (intro window_intros; assumption?; simp add: add.assoc)

lemma agree_mk_short [window_intros]:
  assumes "window m p w" "q = p + k" "k + len \<le> length w"
  shows "agree (mk_Hash32Len0to4 m q len seed) (mk_Hash32Len0to4 w k len seed)"
    and "4 < len \<Longrightarrow> agree (mk_Hash32Len5to12 m q len seed) (mk_Hash32Len5to12 w k len seed)"
    and "12 < len \<Longrightarrow> agree (mk_Hash32Len13to24 m q len seed) (mk_Hash32Len13to24 w k len seed)"
proof -
  show "agree (mk_Hash32Len0to4 m q len seed) (mk_Hash32Len0to4 w k len seed)"
    unfolding mk_Hash32Len0to4_def by (intro window_intros; (rule assms(1))?; use assms in simp)
  assume l: "4 < len"
  then have "(len div 2 AND 4) + 4 \<le> len" using and_4 [of "len div 2"] by auto
  then show "agree (mk_Hash32Len5to12 m q len seed) (mk_Hash32Len5to12 w k len seed)"
    unfolding mk_Hash32Len5to12_def
    by (intro window_intros; (rule assms(1))?; use assms l in \<open>simp add: add.assoc\<close>)
next
  assume "12 < len"
  then show "agree (mk_Hash32Len13to24 m q len seed) (mk_Hash32Len13to24 w k len seed)"
    unfolding mk_Hash32Len13to24_def
    by (intro agree_Let_address window_intros; (rule assms(1))?; use assms in \<open>simp add: add.assoc\<close>)
qed

lemma agree_mk_body [window_intros]:
  "window m p w \<Longrightarrow> q = p + k \<Longrightarrow> k + 20 \<le> length w \<Longrightarrow> agree (mk_body m q st) (mk_body w k st)"
  unfolding mk_body_def by (intro agree_Let_address window_intros; assumption?; simp)

lemma agree_mk_loop [window_intros]:
  assumes "window m p w" "q = p + k" "0 < iters" "k + 20 * iters \<le> length w"
  shows "agree (mk_loop m q iters st) (mk_loop w k iters st)"
  using assms
proof (induction iters arbitrary: q k st rule: less_induct)
  case (less iters)
  then show ?case
    by (subst (1 2) mk_loop.simps) (intro window_intros less.IH; assumption?; simp)
qed

lemma agree_mk_Hash32 [window_intros]:
  assumes "window m p w" "q = p + k" "k + len \<le> length w"
  shows "agree (mk_Hash32 m q len) (mk_Hash32 w k len)"
proof -
  have "20 * ((len - 1) div 20) \<le> len - 1" by simp
  then show ?thesis unfolding mk_Hash32_def
    by (intro window_intros; (rule assms(1))?; use assms in \<open>simp add: add.assoc\<close>)
qed

lemma agree_mk_Hash32WithSeed [window_intros]:
  "window m p w \<Longrightarrow> q = p + k \<Longrightarrow> k + len \<le> length w \<Longrightarrow>
    agree (mk_Hash32WithSeed m q len seed) (mk_Hash32WithSeed w k len seed)"
  unfolding mk_Hash32WithSeed_def by (intro window_intros; assumption?; simp)

interpretation na64: key_hash na_Hash64
  by unfold_locales (intro window_intros; simp)

interpretation farm64_seeds: key_hash "\<lambda>m s len. Hash64WithSeeds debug_mode m s len seed0 seed1" for debug_mode seed0 seed1
  unfolding Hash64WithSeeds_def by unfold_locales (intro window_intros; simp)

section \<open>Seeds and collisions\<close>

lemma k1_inverse: "k1 * 2216894816998261435 = 1"
  by (simp add: k1_def)

lemma DebugTweak_inj [simp]: "DebugTweak debug_mode x = DebugTweak debug_mode y \<longleftrightarrow> x = y"
proof -
  have "NOT (bswap_64 (x * k1)) = NOT (bswap_64 (y * k1)) \<Longrightarrow> x = y"
    by (metis bit.double_compl bswap_64_bswap_64 mult_inj_inverse k1_inverse)
  then show ?thesis by (auto simp: DebugTweak_def)
qed

interpretation farm64_seed: seeded_hash na_Hash64 "\<lambda>m s len. Hash64WithSeed debug_mode m s len seed"
  "\<lambda>h. DebugTweak debug_mode (HashLen16 (h - k2) seed)" for debug_mode seed
  by unfold_locales (simp_all add: Hash64WithSeed_def na_Hash64WithSeed_def na_Hash64WithSeeds_def rbind_assoc)

section \<open>Properties\<close>

text \<open>Property C37. A seed does not change which keys collide: two keys have equal seeded hashes, under one
  seed or under any other, exactly when their unseeded hashes are equal: \<open>CityHash64WithSeed\<close> against \<open>CityHash64\<close>, and \<open>util::Hash64WithSeed\<close>
  in both build modes against \<open>farmhashna::Hash64\<close>, which is \<open>Fingerprint64\<close>.\<close>

theorem seed_keeps_collisions:
  "(CityHash64WithSeed m s len seed = CityHash64WithSeed m' s' len' seed \<longleftrightarrow> CityHash64 m s len = CityHash64 m' s' len') \<and>
   (Hash64WithSeed debug_mode m s len seed = Hash64WithSeed debug_mode m' s' len' seed \<longleftrightarrow>
      na_Hash64 m s len = na_Hash64 m' s' len')"
  by (intro conjI city64_seed.keeps_collisions farm64_seed.keeps_collisions)

end
