(* ===== verification/Farm_Cc.thy ===== *)
theory Farm_Cc
  imports Farm_Hash
begin

unbundle bit_operations_syntax

text \<open>
  \<open>farmhashcc\<close> of \<open>src/util/hash/farmhash.cpp\<close>, which announces hashes equivalent to
  \<open>CityHash32\<close> and \<open>CityHash128\<close>, and the 128-bit functions of the header that are built on it. The
  definitions follow their own source, lines of which were rewritten with respect to CityHash (the
  signed counter of \<open>CityMurmur\<close>); the equivalence is a theorem.
\<close>

section \<open>The 32-bit hash\<close>

definition cc_Hash32Len13to24 :: "bytes \<Rightarrow> nat \<Rightarrow> nat \<Rightarrow> u32 res" where
  "cc_Hash32Len13to24 m s len =
     rbind (Fetch32 m (s + len div 2 - 4)) (\<lambda>a.
     rbind (Fetch32 m (s + 4)) (\<lambda>b.
     rbind (Fetch32 m (s + len - 8)) (\<lambda>c.
     rbind (Fetch32 m (s + len div 2)) (\<lambda>d.
     rbind (Fetch32 m s) (\<lambda>e.
     rbind (Fetch32 m (s + len - 4)) (\<lambda>f.
     let h = of_nat len in
     Inr (fmix (Mur f (Mur e (Mur d (Mur c (Mur b (Mur a h)))))))))))))"

fun cc_Hash32Len0to4_loop :: "bytes \<Rightarrow> nat \<Rightarrow> nat \<Rightarrow> u32 \<Rightarrow> u32 \<Rightarrow> (u32 \<times> u32) res" where
  "cc_Hash32Len0to4_loop m s 0 b c = Inr (b, c)"
| "cc_Hash32Len0to4_loop m s (Suc n) b c =
     rbind (rd m s) (\<lambda>v.
     let b = b * c1 + scast v; c = c XOR b in
     cc_Hash32Len0to4_loop m (s + 1) n b c)"

definition cc_Hash32Len0to4 :: "bytes \<Rightarrow> nat \<Rightarrow> nat \<Rightarrow> u32 res" where
  "cc_Hash32Len0to4 m s len =
     rbind (cc_Hash32Len0to4_loop m s len 0 9) (\<lambda>(b, c).
     Inr (fmix (Mur b (Mur (of_nat len) c))))"

definition cc_Hash32Len5to12 :: "bytes \<Rightarrow> nat \<Rightarrow> nat \<Rightarrow> u32 res" where
  "cc_Hash32Len5to12 m s len =
     (let a = of_nat len; b = a * 5; c = 9; d = b in
      rbind (Fetch32 m s) (\<lambda>x. let a = a + x in
      rbind (Fetch32 m (s + len - 4)) (\<lambda>x. let b = b + x in
      rbind (Fetch32 m (s + (len div 2 AND 4))) (\<lambda>x. let c = c + x in
      Inr (fmix (Mur c (Mur b (Mur a d))))))))"

definition cc_Hash32_body :: "bytes \<Rightarrow> nat \<Rightarrow> u32 \<times> u32 \<times> u32 \<Rightarrow> (u32 \<times> u32 \<times> u32) res" where
  "cc_Hash32_body m s = (\<lambda>(h, g, f).
     rbind (Fetch32 m s) (\<lambda>x. let a0 = scramble x in
     rbind (Fetch32 m (s + 4)) (\<lambda>a1.
     rbind (Fetch32 m (s + 8)) (\<lambda>x. let a2 = scramble x in
     rbind (Fetch32 m (s + 12)) (\<lambda>x. let a3 = scramble x in
     rbind (Fetch32 m (s + 16)) (\<lambda>a4.
     let h = h XOR a0;
         h = stir h 18;
         f = f + a1;
         f = Rotate32 f 19;
         f = f * c1;
         g = g + a2;
         g = stir g 18;
         h = h XOR (a3 + a1);
         h = stir h 19;
         g = g XOR a4;
         g = bswap_32 g * 5;
         h = h + a4 * 5;
         h = bswap_32 h;
         f = f + a0;
         (f, h, g) = PERMUTE3 f h g in
     Inr (h, g, f)))))))"

fun cc_Hash32_loop :: "bytes \<Rightarrow> nat \<Rightarrow> nat \<Rightarrow> u32 \<times> u32 \<times> u32 \<Rightarrow> (u32 \<times> u32 \<times> u32) res" where
  "cc_Hash32_loop m s iters st =
     rbind (cc_Hash32_body m s st) (\<lambda>st.
     if iters - 1 \<noteq> 0 then cc_Hash32_loop m (s + 20) (iters - 1) st else Inr st)"

declare cc_Hash32_loop.simps [simp del]

definition cc_Hash32 :: "bytes \<Rightarrow> nat \<Rightarrow> nat \<Rightarrow> u32 res" where
  "cc_Hash32 m s len =
     (if len \<le> 24 then
        if len \<le> 12 then
          if len \<le> 4 then cc_Hash32Len0to4 m s len else cc_Hash32Len5to12 m s len
        else cc_Hash32Len13to24 m s len
      else
        let h = of_nat len; g = c1 * h; f = g in
        rbind (Fetch32 m (s + len - 4)) (\<lambda>x. let a0 = scramble x in
        rbind (Fetch32 m (s + len - 8)) (\<lambda>x. let a1 = scramble x in
        rbind (Fetch32 m (s + len - 16)) (\<lambda>x. let a2 = scramble x in
        rbind (Fetch32 m (s + len - 12)) (\<lambda>x. let a3 = scramble x in
        rbind (Fetch32 m (s + len - 20)) (\<lambda>x. let a4 = scramble x;
          h = stir (h XOR a0) 19;
          h = stir (h XOR a2) 19;
          g = stir (g XOR a1) 19;
          g = stir (g XOR a3) 19;
          f = stir (f + a4) 19;
          iters = (len - 1) div 20 in
        rbind (cc_Hash32_loop m s iters (h, g, f)) (\<lambda>(h, g, f).
        let g = Rotate32 g 11 * c1;
            g = Rotate32 g 17 * c1;
            f = Rotate32 f 11 * c1;
            f = Rotate32 f 17 * c1;
            h = stir (h + g) 19;
            h = Rotate32 h 17 * c1;
            h = stir (h + f) 19;
            h = Rotate32 h 17 * c1 in
        Inr h)))))))"

definition cc_Hash32WithSeed :: "bytes \<Rightarrow> nat \<Rightarrow> nat \<Rightarrow> u32 \<Rightarrow> u32 res" where
  "cc_Hash32WithSeed m s len seed =
     (if len \<le> 24 then
        if len \<ge> 13 then mk_Hash32Len13to24 m s len (seed * c1)
        else if len \<ge> 5 then mk_Hash32Len5to12 m s len seed
        else mk_Hash32Len0to4 m s len seed
      else
        rbind (mk_Hash32Len13to24 m s 24 (seed XOR of_nat len)) (\<lambda>h.
        rbind (cc_Hash32 m (s + 24) (len - 24)) (\<lambda>t.
        Inr (Mur (t + seed) h))))"

section \<open>The 128-bit hash\<close>

definition cc_HashLen0to16 :: "bytes \<Rightarrow> nat \<Rightarrow> nat \<Rightarrow> u64 res" where
  "cc_HashLen0to16 m s len =
     (if len \<ge> 8 then
        let mul = k2 + of_nat len * 2 in
        rbind (Fetch64 m s) (\<lambda>x. let a = x + k2 in
        rbind (Fetch64 m (s + len - 8)) (\<lambda>b.
        let c = Rotate b 37 * mul + a;
            d = (Rotate a 25 + b) * mul in
        Inr (HashLen16_mul c d mul)))
      else if len \<ge> 4 then
        let mul = k2 + of_nat len * 2 in
        rbind (Fetch32 m s) (\<lambda>x. let a = ucast x in
        rbind (Fetch32 m (s + len - 4)) (\<lambda>y.
        Inr (HashLen16_mul (of_nat len + push_bit 3 a) (ucast y) mul)))
      else if len > 0 then
        rbind (rd m s) (\<lambda>a.
        rbind (rd m (s + len div 2)) (\<lambda>b.
        rbind (rd m (s + len - 1)) (\<lambda>c.
        let y = ucast a + push_bit 8 (ucast b) :: u32;
            z = of_nat len + push_bit 2 (ucast c) :: u32 in
        Inr (ShiftMix (ucast y * k2 XOR ucast z * k0) * k2))))
      else Inr k2)"

definition cc_WeakHashLen32WithSeeds :: "bytes \<Rightarrow> nat \<Rightarrow> u64 \<Rightarrow> u64 \<Rightarrow> (u64 \<times> u64) res" where
  "cc_WeakHashLen32WithSeeds m s a b =
     rbind (Fetch64 m s) (\<lambda>w.
     rbind (Fetch64 m (s + 8)) (\<lambda>x.
     rbind (Fetch64 m (s + 16)) (\<lambda>y.
     rbind (Fetch64 m (s + 24)) (\<lambda>z.
     Inr (WeakHashLen32WithSeeds_words w x y z a b)))))"

text \<open>\<open>l\<close> is a \<open>signed long\<close>: the length less 16, negative or zero for short keys.\<close>

function cc_CityMurmur_loop :: "bytes \<Rightarrow> nat \<Rightarrow> int \<Rightarrow> u64 \<times> u64 \<times> u64 \<times> u64 \<Rightarrow> (u64 \<times> u64 \<times> u64 \<times> u64) res" where
  "cc_CityMurmur_loop m s l st = (case st of (a, b, c, d) \<Rightarrow>
     rbind (Fetch64 m s) (\<lambda>t. let a = a XOR ShiftMix (t * k1) * k1; a = a * k1; b = b XOR a in
     rbind (Fetch64 m (s + 8)) (\<lambda>t. let c = c XOR ShiftMix (t * k1) * k1; c = c * k1; d = d XOR c in
     if l - 16 > 0 then cc_CityMurmur_loop m (s + 16) (l - 16) (a, b, c, d) else Inr (a, b, c, d))))"
  by pat_completeness auto
termination by (relation "measure (\<lambda>(m, s, l, st). nat l)") auto

declare cc_CityMurmur_loop.simps [simp del]

definition cc_CityMurmur :: "bytes \<Rightarrow> nat \<Rightarrow> nat \<Rightarrow> uint128 \<Rightarrow> uint128 res" where
  "cc_CityMurmur m s len seed =
     (let a = Uint128Low64 seed; b = Uint128High64 seed; l = sint (of_nat len - 16 :: u64) in
      rbind
        (if l \<le> 0 then
           let a = ShiftMix (a * k1) * k1 in
           rbind (cc_HashLen0to16 m s len) (\<lambda>t. let c = b * k1 + t in
           rbind (if len \<ge> 8 then Fetch64 m s else Inr c) (\<lambda>t. let d = ShiftMix (a + t) in
           Inr (a, b, c, d)))
         else
           rbind (Fetch64 m (s + len - 8)) (\<lambda>t. let c = HashLen16 (t + k1) a in
           rbind (Fetch64 m (s + len - 16)) (\<lambda>t. let d = HashLen16 (b + of_nat len) (c + t); a = a + d in
           cc_CityMurmur_loop m s l (a, b, c, d)))) (\<lambda>(a, b, c, d).
      let a = HashLen16 a c; b = HashLen16 d b in
      Inr (a XOR b, HashLen16 b a)))"

definition cc_CityHash128_body :: "bytes \<Rightarrow> nat \<Rightarrow> city_state \<Rightarrow> city_state res" where
  "cc_CityHash128_body m s st =
     (let x = cx st; y = cy st; z = cz st; v = cv st; w = cw st in
      rbind (Fetch64 m (s + 8)) (\<lambda>t. let x = Rotate (x + y + fst v + t) 37 * k1 in
      rbind (Fetch64 m (s + 48)) (\<lambda>t. let y = Rotate (y + snd v + t) 42 * k1; x = x XOR snd w in
      rbind (Fetch64 m (s + 40)) (\<lambda>t. let y = y + (fst v + t); z = Rotate (z + fst w) 33 * k1 in
      rbind (cc_WeakHashLen32WithSeeds m s (snd v * k1) (x + fst w)) (\<lambda>v.
      rbind (Fetch64 m (s + 16)) (\<lambda>t.
      rbind (cc_WeakHashLen32WithSeeds m (s + 32) (z + snd w) (y + t)) (\<lambda>w.
      let (z, x) = (x, z) in
      Inr \<lparr>cx = x, cy = y, cz = z, cv = v, cw = w\<rparr>)))))))"

fun cc_CityHash128_loop :: "bytes \<Rightarrow> nat \<Rightarrow> nat \<Rightarrow> city_state \<Rightarrow> (nat \<times> nat \<times> city_state) res" where
  "cc_CityHash128_loop m s len st =
     rbind (cc_CityHash128_body m s st) (\<lambda>st.
     rbind (cc_CityHash128_body m (s + 64) st) (\<lambda>st.
     if len - 128 \<ge> 128 then cc_CityHash128_loop m (s + 128) (len - 128) st
     else Inr (s + 128, len - 128, st)))"

declare cc_CityHash128_loop.simps [simp del]

function cc_CityHash128_tail :: "bytes \<Rightarrow> nat \<Rightarrow> nat \<Rightarrow> nat \<Rightarrow> city_state \<Rightarrow> city_state res" where
  "cc_CityHash128_tail m s len tail_done st =
     (if tail_done < len then
        let tail_done = tail_done + 32; x = cx st; y = cy st; z = cz st; v = cv st; w = cw st;
            y = Rotate (x + y) 42 * k0 + snd v in
        rbind (Fetch64 m (s + len - tail_done + 16)) (\<lambda>t. let w = (fst w + t, snd w); x = x * k0 + fst w in
        rbind (Fetch64 m (s + len - tail_done)) (\<lambda>t. let z = z + (snd w + t); w = (fst w, snd w + fst v) in
        rbind (cc_WeakHashLen32WithSeeds m (s + len - tail_done) (fst v + z) (snd v)) (\<lambda>v.
        let v = (fst v * k0, snd v) in
        cc_CityHash128_tail m s len tail_done \<lparr>cx = x, cy = y, cz = z, cv = v, cw = w\<rparr>)))
      else Inr st)"
  by pat_completeness auto
termination by (relation "measure (\<lambda>(m, s, len, tail_done, st). len - tail_done)") auto

declare cc_CityHash128_tail.simps [simp del]

definition cc_CityHash128WithSeed :: "bytes \<Rightarrow> nat \<Rightarrow> nat \<Rightarrow> uint128 \<Rightarrow> uint128 res" where
  "cc_CityHash128WithSeed m s len seed =
     (if len < 128 then cc_CityMurmur m s len seed
      else
        let x = Uint128Low64 seed; y = Uint128High64 seed; z = of_nat len * k1 in
        rbind (Fetch64 m s) (\<lambda>t. let v1 = Rotate (y XOR k1) 49 * k1 + t in
        rbind (Fetch64 m (s + 8)) (\<lambda>t. let v2 = Rotate v1 42 * k1 + t; w1 = Rotate (y + z) 35 * k1 + x in
        rbind (Fetch64 m (s + 88)) (\<lambda>t. let w2 = Rotate (x + t) 53 * k1 in
        rbind (cc_CityHash128_loop m s len \<lparr>cx = x, cy = y, cz = z, cv = (v1, v2), cw = (w1, w2)\<rparr>) (\<lambda>(s, len, st).
        let x = cx st; y = cy st; z = cz st; v = cv st; w = cw st;
            x = x + Rotate (fst v + z) 49 * k0;
            y = y * k0 + Rotate (snd w) 37;
            z = z * k0 + Rotate (fst w) 27;
            w = (fst w * 9, snd w);
            v = (fst v * k0, snd v) in
        rbind (cc_CityHash128_tail m s len 0 \<lparr>cx = x, cy = y, cz = z, cv = v, cw = w\<rparr>) (\<lambda>st.
        let x = cx st; y = cy st; z = cz st; v = cv st; w = cw st;
            x = HashLen16 x (fst v);
            y = HashLen16 (y + z) (fst w) in
        Inr (HashLen16 (x + snd v) (snd w) + y, HashLen16 (x + snd w) (y + snd v))))))))"

definition cc_CityHash128 :: "bytes \<Rightarrow> nat \<Rightarrow> nat \<Rightarrow> uint128 res" where
  "cc_CityHash128 m s len =
     (if len \<ge> 16 then
        rbind (Fetch64 m s) (\<lambda>lo.
        rbind (Fetch64 m (s + 8)) (\<lambda>hi.
        cc_CityHash128WithSeed m (s + 16) (len - 16) (lo, hi + k0)))
      else cc_CityHash128WithSeed m s len (k0, k1))"

text \<open>\<open>farmhashcc::Fingerprint128\<close> and the functions of \<open>namespace util\<close>.\<close>

definition Fingerprint128 :: "bytes \<Rightarrow> nat \<Rightarrow> nat \<Rightarrow> uint128 res" where
  "Fingerprint128 m s len = cc_CityHash128 m s len"

definition farm_Hash128 :: "bool \<Rightarrow> bytes \<Rightarrow> nat \<Rightarrow> nat \<Rightarrow> uint128 res" where
  "farm_Hash128 debug_mode m s len = rbind (Fingerprint128 m s len) (\<lambda>h. Inr (DebugTweak128 debug_mode h))"

definition farm_Hash128WithSeed :: "bool \<Rightarrow> bytes \<Rightarrow> nat \<Rightarrow> nat \<Rightarrow> uint128 \<Rightarrow> uint128 res" where
  "farm_Hash128WithSeed debug_mode m s len seed =
     rbind (cc_CityHash128WithSeed m s len seed) (\<lambda>h. Inr (DebugTweak128 debug_mode h))"

section \<open>Equivalence with CityHash\<close>

lemma cc_Hash32Len0to4_loop: "cc_Hash32Len0to4_loop m s n b c = Hash32Len0to4_loop m s n b c"
  by (induction m s n b c rule: Hash32Len0to4_loop.induct)
    (simp_all only: cc_Hash32Len0to4_loop.simps Hash32Len0to4_loop.simps Let_def cong: rbind_cong)

lemma cc_Hash32_loop: "cc_Hash32_loop m s iters st = CityHash32_loop m s iters st"
proof (induction iters arbitrary: s st rule: less_induct)
  case (less iters)
  have "cc_Hash32_body m s st = CityHash32_body m s st" by (simp only: cc_Hash32_body_def CityHash32_body_def)
  then show ?case using less.IH
    by (subst cc_Hash32_loop.simps, subst CityHash32_loop.simps) (simp cong: if_cong)
qed

lemma cc_Hash32: "cc_Hash32 m s len = CityHash32 m s len"
  by (simp only: cc_Hash32_def CityHash32_def cc_Hash32Len0to4_def Hash32Len0to4_def cc_Hash32Len5to12_def
      Hash32Len5to12_def cc_Hash32Len13to24_def Hash32Len13to24_def cc_Hash32Len0to4_loop cc_Hash32_loop)

lemma cc_short:
  "cc_HashLen0to16 = HashLen0to16" "cc_WeakHashLen32WithSeeds = WeakHashLen32WithSeeds"
  "cc_CityHash128_body = CityHash64_body"
  by (intro ext; simp only: cc_HashLen0to16_def HashLen0to16_def cc_WeakHashLen32WithSeeds_def
      WeakHashLen32WithSeeds_def cc_CityHash128_body_def CityHash64_body_def)+

lemma cc_CityMurmur_loop:
  "l = int len - 16 \<Longrightarrow> 16 < len \<Longrightarrow> cc_CityMurmur_loop m s l st = CityMurmur_loop m s len st"
proof (induction len arbitrary: s l st rule: less_induct)
  case (less len)
  have "0 < l - 16 \<longleftrightarrow> 16 < len - 16" using less.prems by auto
  moreover have "cc_CityMurmur_loop m (s + 16) (l - 16) st' = CityMurmur_loop m (s + 16) (len - 16) st'"
    if "16 < len - 16" for st'
    using less.prems that by (intro less.IH) auto
  ultimately show ?case
    by (subst cc_CityMurmur_loop.simps, subst CityMurmur_loop.simps)
      (simp only: Let_def cong: if_cong)
qed

text \<open>The counter is signed, but the function is called with less than 128 bytes only.\<close>

lemma signed_length: "len < 128 \<Longrightarrow> sint (of_nat len - 16 :: u64) = int len - 16"
proof -
  assume "len < 128"
  then have "signed_take_bit 63 (int len - 16) = int len - 16"
    by (intro signed_take_bit_int_eq_self) auto
  moreover have "(of_nat len - 16 :: u64) = of_int (int len - 16)" by simp
  ultimately show ?thesis by (simp only: signed_of_int) simp
qed

lemma cc_CityMurmur: "len < 128 \<Longrightarrow> cc_CityMurmur m s len seed = CityMurmur m s len seed"
  by (simp add: cc_CityMurmur_def CityMurmur_def signed_length cc_short cc_CityMurmur_loop cong: if_cong)

lemma cc_CityHash128_loop: "cc_CityHash128_loop m s len st = CityHash128_loop m s len st"
proof (induction len arbitrary: s st rule: less_induct)
  case (less len)
  then show ?case
    by (subst cc_CityHash128_loop.simps, subst CityHash128_loop.simps) (simp add: cc_short cong: if_cong)
qed

lemma cc_CityHash128_tail: "cc_CityHash128_tail m s len tail_done st = CityHash128_tail m s len tail_done st"
proof (induction "len - tail_done" arbitrary: tail_done st rule: less_induct)
  case less
  then show ?case
    by (subst cc_CityHash128_tail.simps, subst CityHash128_tail.simps) (simp add: cc_short Let_def)
qed

lemma cc_CityHash128WithSeed: "cc_CityHash128WithSeed m s len seed = CityHash128WithSeed m s len seed"
  by (simp only: cc_CityHash128WithSeed_def CityHash128WithSeed_def cc_CityHash128_loop cc_CityHash128_tail
      cc_CityMurmur cong: if_cong)

lemma cc_CityHash128: "cc_CityHash128 m s len = CityHash128 m s len"
  by (simp only: cc_CityHash128_def CityHash128_def cc_CityHash128WithSeed)

section \<open>The self test\<close>

text \<open>An entry of the table \<open>expected\<close> of \<open>farmhashnaTest\<close>, for the test data of length 5.\<close>

lemma self_test_5: "na_HashLen0to16 [100, 252, 242, 143, 5] 0 5 = Inr 9448345910734356659"
  by code_simp

section \<open>Properties\<close>

text \<open>Property C16. \<open>farmhashcc\<close> is CityHash, as its comment announces: on every memory, address, length and
  seed its 32-bit and 128-bit hashes return what \<open>CityHash32\<close>, \<open>CityHash128WithSeed\<close> and \<open>CityHash128\<close>
  return, errors included.\<close>

theorem farmhashcc_is_CityHash:
  "cc_Hash32 m s len = CityHash32 m s len \<and>
   cc_CityHash128WithSeed m s len seed = CityHash128WithSeed m s len seed \<and>
   Fingerprint128 m s len = CityHash128 m s len"
  by (simp add: cc_Hash32 cc_CityHash128WithSeed cc_CityHash128 Fingerprint128_def)

end
