(* ===== verification/Bloom_Hash.thy ===== *)
theory Bloom_Hash
  imports Bloom Farm_Cc
begin

unbundle bit_operations_syntax

text \<open>
  The Bloom filter of \<open>src/util/bloomfilter.hpp\<close> with the hash functions it calls: \<open>Insert\<close> and
  \<open>IsMatch\<close> on a \<open>std::string_view\<close>, a pointer into some memory and a length, that is passed on to
  \<open>XXHash64::hash\<close>, \<open>std::hash\<close>, \<open>CityHash64WithSeed\<close> and \<open>util::Hash64WithSeed\<close>. Only \<open>std::hash\<close>,
  which belongs to the library, stays an argument. Both functions are shown to be those of
  the theory \<open>Bloom\<close> at one choice of its hash functions, whatever the buffers of the hash objects held.
\<close>

section \<open>The filter on views\<close>

text \<open>What a call depends on besides its arguments: the build mode, \<open>std::hash\<close>, and the garbage in the buffer
  of the hash object on the stack.\<close>

record hash_env =
  h_debug :: bool
  h_std :: "bytes \<Rightarrow> u64"
  h_garbage :: bytes

record string_view =
  sv_mem :: bytes
  sv_data :: nat
  sv_length :: nat

definition view_xx :: "hash_env \<Rightarrow> string_view \<Rightarrow> u64 \<Rightarrow> u64 res" where
  "view_xx E key seed =
     rbind (view (sv_mem key) (sv_data key) (sv_length key)) (\<lambda>data. XXHash64_hash (h_garbage E) (Some data) seed)"

definition view_std :: "hash_env \<Rightarrow> string_view \<Rightarrow> u64 res" where
  "view_std E key =
     rbind (view (sv_mem key) (sv_data key) (sv_length key)) (\<lambda>data. Inr (h_std E data))"

definition BloomFilter_Insert :: "hash_env \<Rightarrow> nat \<Rightarrow> string_view \<Rightarrow> BloomFilter \<Rightarrow> BloomFilter res" where
  "BloomFilter_Insert E N key f =
     rbind (view_xx E key (bf_seed f)) (\<lambda>idx_1.
     rbind (view_std E key) (\<lambda>idx_2.
     rbind (CityHash64WithSeed (sv_mem key) (sv_data key) (sv_length key) (bf_seed f)) (\<lambda>idx_3.
     rbind (Hash64WithSeed (h_debug E) (sv_mem key) (sv_data key) (sv_length key) (bf_seed f)) (\<lambda>idx_4.
     rbind (bs_set (bf_idx N idx_1) (bf_filter f)) (\<lambda>b.
     rbind (bs_set (bf_idx N idx_2) b) (\<lambda>b.
     rbind (bs_set (bf_idx N idx_3) b) (\<lambda>b.
     rbind (bs_set (bf_idx N idx_4) b) (\<lambda>b. Inr (f\<lparr>bf_filter := b\<rparr>)))))))))"

definition BloomFilter_IsMatch :: "hash_env \<Rightarrow> nat \<Rightarrow> string_view \<Rightarrow> BloomFilter \<Rightarrow> bool res" where
  "BloomFilter_IsMatch E N key f =
     (let b = bf_filter f in
      rbind (rbind (view_xx E key (bf_seed f)) (\<lambda>h. bs_test (bf_idx N h) b)) (\<lambda>t.
      if \<not> t then Inr False else
      rbind (rbind (view_std E key) (\<lambda>h. bs_test (bf_idx N h) b)) (\<lambda>t.
      if \<not> t then Inr False else
      rbind (rbind (CityHash64WithSeed (sv_mem key) (sv_data key) (sv_length key) (bf_seed f))
        (\<lambda>h. bs_test (bf_idx N h) b)) (\<lambda>t.
      if \<not> t then Inr False else
      rbind (rbind (Hash64WithSeed (h_debug E) (sv_mem key) (sv_data key) (sv_length key) (bf_seed f))
        (\<lambda>h. bs_test (bf_idx N h) b)) (\<lambda>t.
      if \<not> t then Inr False else Inr True)))))"

text \<open>A sequence of insertions, each with its own view and its own garbage.\<close>

fun BloomFilter_Inserts :: "bool \<Rightarrow> (bytes \<Rightarrow> u64) \<Rightarrow> nat \<Rightarrow> (bytes \<times> string_view) list \<Rightarrow> BloomFilter \<Rightarrow> BloomFilter res" where
  "BloomFilter_Inserts d std N [] f = Inr f"
| "BloomFilter_Inserts d std N ((g, key) # keys) f =
     rbind (BloomFilter_Insert \<lparr>h_debug = d, h_std = std, h_garbage = g\<rparr> N key f) (BloomFilter_Inserts d std N keys)"

section \<open>The hash functions of the program\<close>

definition xx_digest :: "bytes \<Rightarrow> u64 \<Rightarrow> u64" where
  "xx_digest key seed = projr (XXHash64_hash (replicate 32 0) (Some key) seed)"

definition own_hashers :: "bool \<Rightarrow> (bytes \<Rightarrow> u64) \<Rightarrow> hashers" where
  "own_hashers d std = \<lparr>xx_hash = xx_digest, std_hash = std,
     city_hash = (\<lambda>key seed. digest (\<lambda>m s len. CityHash64WithSeed m s len seed) key),
     farm_hash = (\<lambda>key seed. digest (\<lambda>m s len. Hash64WithSeed d m s len seed) key)\<rparr>"

text \<open>A view of \<open>key\<close>, and a key that the 64-bit counters of the hash object can count.\<close>

definition shows_key :: "bytes \<Rightarrow> string_view \<Rightarrow> bool" where
  "shows_key key v \<longleftrightarrow> window (sv_mem v) (sv_data v) key \<and> sv_length v = length key \<and> length key + 32 < 2 ^ 64"

lemma XXHash64_hash_digest:
  assumes "length key + 32 < 2 ^ 64" "length g = 32"
  shows "XXHash64_hash g (Some key) seed = Inr (xx_digest key seed)"
proof -
  have absorbs: "\<exists>b h. add (Some key) (XXHash64_ctor g' seed) = Inr (b, h) \<and> absorbed seed key h"
    if "length g' = 32" for g'
    using add_absorbs [OF absorbed_ctor [OF that] assms(1), of seed] by (simp only: append_Nil)
  obtain b h where h: "add (Some key) (XXHash64_ctor g seed) = Inr (b, h)" "absorbed seed key h"
    using absorbs [OF assms(2)] by blast
  obtain b' h' where h': "add (Some key) (XXHash64_ctor (replicate 32 0) seed) = Inr (b', h')" "absorbed seed key h'"
    using absorbs [OF length_replicate] by blast
  show ?thesis using h(1) h'(1) absorbed_hash [OF h(2) h'(2)] by (simp add: XXHash64_hash_def xx_digest_def)
qed

lemma shows_key_view: "shows_key key v \<Longrightarrow> view (sv_mem v) (sv_data v) (sv_length v) = Inr key"
  using window_view [of "sv_mem v" "sv_data v" key 0 "length key"] by (simp add: shows_key_def)

lemma own_hashers_hash:
  "xx_hash (own_hashers d std) = xx_digest" "std_hash (own_hashers d std) = std"
  "city_hash (own_hashers d std) key seed = digest (\<lambda>m s len. CityHash64WithSeed m s len seed) key"
  "farm_hash (own_hashers d std) key seed = digest (\<lambda>m s len. Hash64WithSeed d m s len seed) key"
  by (simp_all add: own_hashers_def)

lemma shows_key_hashes:
  assumes "shows_key key v"
  shows "length (h_garbage E) = 32 \<Longrightarrow> view_xx E v seed = Inr (xx_digest key seed)"
    and "view_std E v = Inr (h_std E key)"
    and "CityHash64WithSeed (sv_mem v) (sv_data v) (sv_length v) seed =
      Inr (digest (\<lambda>m s len. CityHash64WithSeed m s len seed) key)"
    and "Hash64WithSeed d (sv_mem v) (sv_data v) (sv_length v) seed =
      Inr (digest (\<lambda>m s len. Hash64WithSeed d m s len seed) key)"
proof -
  have w: "window (sv_mem v) (sv_data v) key" "sv_length v = length key" "length key + 32 < 2 ^ 64"
    using assms by (simp_all add: shows_key_def)
  show "length (h_garbage E) = 32 \<Longrightarrow> view_xx E v seed = Inr (xx_digest key seed)" "view_std E v = Inr (h_std E key)"
    using XXHash64_hash_digest [OF w(3)] by (simp_all add: view_xx_def view_std_def shows_key_view [OF assms])
  show "CityHash64WithSeed (sv_mem v) (sv_data v) (sv_length v) seed =
      Inr (digest (\<lambda>m s len. CityHash64WithSeed m s len seed) key)"
    by (rule city64_seed.window_digest [OF w(1,2)])
  show "Hash64WithSeed d (sv_mem v) (sv_data v) (sv_length v) seed =
      Inr (digest (\<lambda>m s len. Hash64WithSeed d m s len seed) key)"
    by (rule farm64_seed.window_digest [OF w(1,2)])
qed

lemma BloomFilter_Insert_eq:
  assumes "shows_key key v" "length g = 32"
  shows "BloomFilter_Insert \<lparr>h_debug = d, h_std = std, h_garbage = g\<rparr> N v f = bf_Insert (own_hashers d std) N key f"
  using assms(2)
  by (simp add: BloomFilter_Insert_def bf_Insert_def Let_def own_hashers_hash shows_key_hashes [OF assms(1)])

lemma BloomFilter_IsMatch_eq:
  assumes "shows_key key v" "length g = 32"
  shows "BloomFilter_IsMatch \<lparr>h_debug = d, h_std = std, h_garbage = g\<rparr> N v f = bf_IsMatch (own_hashers d std) N key f"
  using assms(2)
  by (simp add: BloomFilter_IsMatch_def bf_IsMatch_def Let_def own_hashers_hash shows_key_hashes [OF assms(1)] cong: if_cong)

lemma BloomFilter_Inserts_eq:
  "list_all2 (\<lambda>(g, v) key. length g = 32 \<and> shows_key key v) stored keys \<Longrightarrow>
    BloomFilter_Inserts d std N stored f = key_filter.inserts (bf_Insert (own_hashers d std) N) keys f"
proof (induction stored arbitrary: keys f)
  case (Cons gv stored)
  obtain g v where gv: "gv = (g, v)" by fastforce
  with Cons.prems obtain key rest where keys: "keys = key # rest" "length g = 32" "shows_key key v"
    "list_all2 (\<lambda>(g, v) key. length g = 32 \<and> shows_key key v) stored rest"
    by (auto simp: list_all2_Cons1)
  then show ?case
    using gv ext [of "BloomFilter_Inserts d std N stored", OF Cons.IH [OF keys(4)]] by (simp add: BloomFilter_Insert_eq)
qed simp

text \<open>A short key has the same hash in CityHash and in \<open>farmhashna\<close>.\<close>

lemma short_key_same: "len \<le> 32 \<Longrightarrow> Hash64WithSeed False m s len seed = CityHash64WithSeed m s len seed"
  by (simp add: Hash64WithSeed_def na_Hash64WithSeed_def na_Hash64WithSeeds_def na_Hash64_def CityHash64WithSeed_def
      CityHash64WithSeeds_def CityHash64_def na_short DebugTweak_def rbind_assoc)

section \<open>Properties\<close>

text \<open>Property C12. The filter finds every key stored in it, wherever the key lies: after insertions from views
  into any memories, in either build, a query with another view of one of the keys answers that it may be present;
  what the hash objects on the stack held before does not matter, and no hash function reads outside a view.\<close>

theorem filter_finds_stored_keys:
  assumes "list_all2 (\<lambda>(g, v) key. length g = 32 \<and> shows_key key v) stored keys"
    and "shows_key key v" and "key \<in> set keys" and "length g = 32"
  shows "\<exists>f. BloomFilter_Inserts d std kBloomFilterDefaultSize stored
        (BloomFilter_ctor kBloomFilterDefaultSize) = Inr f \<and>
      BloomFilter_IsMatch \<lparr>h_debug = d, h_std = std, h_garbage = g\<rparr> kBloomFilterDefaultSize v f = Inr True"
  using bloom.no_false_negative [OF BloomFilter_ctor_ok, of "own_hashers d std" keys] assms(3)
  by (simp add: BloomFilter_Inserts_eq [OF assms(1)] BloomFilter_IsMatch_eq [OF assms(2,4)]) blast

theorem filter_finds_stored_keys_witness:
  "\<exists>f. BloomFilter_Inserts True (\<lambda>k. 5) kBloomFilterDefaultSize
        [(replicate 32 1, \<lparr>sv_mem = [9, 97, 98, 9], sv_data = 1, sv_length = 2\<rparr>),
         (replicate 32 2, \<lparr>sv_mem = [99], sv_data = 0, sv_length = 1\<rparr>)]
        (BloomFilter_ctor kBloomFilterDefaultSize) = Inr f \<and>
      BloomFilter_IsMatch \<lparr>h_debug = True, h_std = (\<lambda>k. 5), h_garbage = replicate 32 3\<rparr> kBloomFilterDefaultSize
        \<lparr>sv_mem = [97, 98, 0], sv_data = 0, sv_length = 2\<rparr> f = Inr True"
  by (rule filter_finds_stored_keys [of _ "[[97, 98], [99]]" "[97, 98]"]) (simp_all add: shows_key_def window_def)

text \<open>Property C38. In a build with \<open>NDEBUG\<close> the filter uses three hash functions, not four: for a key of at most
  32 bytes CityHash and FarmHash compute the same value, so an insertion sets, and a query tests, at most three
  different bits.\<close>

theorem release_build_sets_three_bits:
  assumes "length key \<le> 32"
  shows "farm_hash (own_hashers False std) key seed = city_hash (own_hashers False std) key seed \<and>
    card (bf_positions (own_hashers False std) N key seed) \<le> 3"
proof -
  have "farm_hash (own_hashers False std) key seed = city_hash (own_hashers False std) key seed"
    using assms by (simp add: own_hashers_hash digest_def short_key_same)
  then show ?thesis by (simp add: bf_positions_def card_insert_if)
qed

theorem release_build_sets_three_bits_witness:
  "farm_hash (own_hashers False (\<lambda>k. 0)) [97, 98] 12 = city_hash (own_hashers False (\<lambda>k. 0)) [97, 98] 12 \<and>
    card (bf_positions (own_hashers False (\<lambda>k. 0)) kBloomFilterDefaultSize [97, 98] 12) \<le> 3"
  by (rule release_build_sets_three_bits) simp

end
