(* ===== verification/Simd.thy ===== *)
theory Simd
  imports Crc32 Hash_Memory
begin

unbundle bit_operations_syntax

text \<open>
  The vector intrinsics that the hash functions of \<open>src/util/hash\<close> use when a processor has them: a
  128-bit register is a word, split into lanes of 8, 32 or 64 bits from its low end, and an intrinsic is what the
  manual of the processor writes for it. \<open>_mm_crc32_u32\<close> is the checksum of \<open>src/util/crc32.cpp\<close> run by an instruction,
  and is shown to agree with it.
\<close>

section \<open>Lanes\<close>

type_synonym m128 = "128 word"

text \<open>The \<open>i\<close>-th lane of a register; the width of the lanes is that of the result.\<close>

definition lane :: "m128 \<Rightarrow> nat \<Rightarrow> 'a::len word" where
  "lane x i = ucast (drop_bit (LENGTH('a) * i) x)"

text \<open>A register from its lanes, the lowest first.\<close>

fun pack :: "'a::len word list \<Rightarrow> m128" where
  "pack [] = 0"
| "pack (x # xs) = ucast x OR push_bit LENGTH('a) (pack xs)"

definition lanewise :: "('a::len word \<Rightarrow> 'a word) \<Rightarrow> m128 \<Rightarrow> m128" where
  "lanewise f x = pack (map (\<lambda>i. f (lane x i)) [0..<128 div LENGTH('a)])"

definition lanewise2 :: "('a::len word \<Rightarrow> 'a word \<Rightarrow> 'a word) \<Rightarrow> m128 \<Rightarrow> m128 \<Rightarrow> m128" where
  "lanewise2 f x y = pack (map (\<lambda>i. f (lane x i) (lane y i)) [0..<128 div LENGTH('a)])"

lemma bit_pack:
  "bit (pack xs) n \<longleftrightarrow> n < 128 \<and> n div LENGTH('a) < length xs \<and> bit (xs ! (n div LENGTH('a))) (n mod LENGTH('a))"
  for xs :: "'a::len word list"
proof (induction xs arbitrary: n)
  case (Cons x xs)
  have "n - LENGTH('a) < 128 \<and> n < 128 \<longleftrightarrow> n < 128" by auto
  moreover have "n div LENGTH('a) = Suc ((n - LENGTH('a)) div LENGTH('a))"
    "n mod LENGTH('a) = (n - LENGTH('a)) mod LENGTH('a)" if "LENGTH('a) \<le> n"
    using that by (simp_all add: le_div_geq le_mod_geq)
  ultimately show ?case
    by (cases "LENGTH('a) \<le> n") (auto simp: bit_simps Cons not_le dest: bit_imp_le_length)
qed simp

lemma lane_pack:
  fixes xs :: "'a::len word list"
  assumes "i < length xs" "LENGTH('a) * length xs \<le> 128"
  shows "(lane (pack xs) i :: 'a word) = xs ! i"
proof (rule bit_word_eqI)
  fix n
  assume n: "n < LENGTH('a)"
  have "LENGTH('a) * i + n < LENGTH('a) * Suc i" using n by simp
  also have "\<dots> \<le> LENGTH('a) * length xs" using assms(1) by (intro mult_le_mono2) simp
  finally show "bit (lane (pack xs) i :: 'a word) n \<longleftrightarrow> bit (xs ! i) n"
    using n assms by (simp add: lane_def bit_simps bit_pack)
qed

lemma lane_lanewise [simp]:
  assumes "i < 128 div LENGTH('a)"
  shows "(lane (lanewise f x) i :: 'a::len word) = f (lane x i)"
    and "(lane (lanewise2 g x y) i :: 'a::len word) = g (lane x i) (lane y i)"
  using assms by (simp_all add: lanewise_def lanewise2_def lane_pack)

lemma lanes_eqI:
  fixes x y :: m128
  assumes "\<And>i. i < 4 \<Longrightarrow> (lane x i :: u32) = lane y i"
  shows "x = y"
proof (rule bit_word_eqI)
  fix n
  assume "n < LENGTH(128)"
  then have "n div 32 < 4" "n = 32 * (n div 32) + n mod 32" "n mod 32 < 32" by (simp_all add: div_less_iff_less_mult)
  moreover from this assms have "bit (lane x (n div 32) :: u32) (n mod 32) \<longleftrightarrow> bit (lane y (n div 32) :: u32) (n mod 32)"
    by simp
  ultimately show "bit x n \<longleftrightarrow> bit y n" by (simp add: lane_def bit_simps)
qed

section \<open>Intrinsics\<close>

definition mm_xor_si128 :: "m128 \<Rightarrow> m128 \<Rightarrow> m128" where
  "mm_xor_si128 x y = x XOR y"

definition mm_or_si128 :: "m128 \<Rightarrow> m128 \<Rightarrow> m128" where
  "mm_or_si128 x y = x OR y"

definition mm_add_epi32 :: "m128 \<Rightarrow> m128 \<Rightarrow> m128" where
  "mm_add_epi32 = lanewise2 ((+) :: u32 \<Rightarrow> _)"

definition mm_add_epi64 :: "m128 \<Rightarrow> m128 \<Rightarrow> m128" where
  "mm_add_epi64 = lanewise2 ((+) :: u64 \<Rightarrow> _)"

definition mm_mullo_epi32 :: "m128 \<Rightarrow> m128 \<Rightarrow> m128" where
  "mm_mullo_epi32 = lanewise2 ((*) :: u32 \<Rightarrow> _)"

definition mm_slli_epi32 :: "m128 \<Rightarrow> nat \<Rightarrow> m128" where
  "mm_slli_epi32 x c = lanewise (push_bit c :: u32 \<Rightarrow> _) x"

definition mm_srli_epi32 :: "m128 \<Rightarrow> nat \<Rightarrow> m128" where
  "mm_srli_epi32 x c = lanewise (drop_bit c :: u32 \<Rightarrow> _) x"

definition mm_set1_epi32 :: "u32 \<Rightarrow> m128" where
  "mm_set1_epi32 v = pack [v, v, v, v]"

text \<open>The arguments are written from the highest byte down.\<close>

definition mm_set_epi8 :: "bytes \<Rightarrow> m128" where
  "mm_set_epi8 bs = pack (rev bs)"

definition mm_cvtsi64_si128 :: "u64 \<Rightarrow> m128" where
  "mm_cvtsi64_si128 v = ucast v"

text \<open>Two bits of the selector name the lane to take.\<close>

definition mm_shuffle_epi32 :: "m128 \<Rightarrow> nat \<Rightarrow> m128" where
  "mm_shuffle_epi32 x imm = pack (map (\<lambda>i. lane x (imm div 4 ^ i mod 4) :: u32) [0, 1, 2, 3])"

text \<open>A selecting byte with its top bit set gives zero.\<close>

definition mm_shuffle_epi8 :: "m128 \<Rightarrow> m128 \<Rightarrow> m128" where
  "mm_shuffle_epi8 x y =
     pack (map (\<lambda>i. let sel = lane y i :: u8 in if bit sel 7 then 0 else lane x (unat (sel AND 15)) :: u8) [0..<16])"

text \<open>The checksum instruction, with the polynomial of CRC-32C and without the inversions around it.\<close>

definition mm_crc32_u32 :: "u32 \<Rightarrow> u32 \<Rightarrow> u32" where
  "mm_crc32_u32 crc v = (crc_bit ^^ 32) (crc XOR v)"

definition mm_crc32_u64 :: "u64 \<Rightarrow> u64 \<Rightarrow> u64" where
  "mm_crc32_u64 crc v = ucast (mm_crc32_u32 (mm_crc32_u32 (ucast crc) (ucast v)) (ucast (drop_bit 32 v)))"

text \<open>\<open>_mm_aesimc_si128\<close>: the inverse of the step \<open>MixColumns\<close> of AES on the four columns of the register, over the
  field with 256 elements.\<close>

definition xtime :: "u8 \<Rightarrow> u8" where
  "xtime x = push_bit 1 x XOR (if bit x 7 then 0x1b else 0)"

definition gf_9 :: "u8 \<Rightarrow> u8" where "gf_9 x = xtime (xtime (xtime x)) XOR x"
definition gf_11 :: "u8 \<Rightarrow> u8" where "gf_11 x = xtime (xtime (xtime x) XOR x) XOR x"
definition gf_13 :: "u8 \<Rightarrow> u8" where "gf_13 x = xtime (xtime (xtime x XOR x)) XOR x"
definition gf_14 :: "u8 \<Rightarrow> u8" where "gf_14 x = xtime (xtime (xtime x XOR x) XOR x)"

definition InvMixColumn :: "u8 \<Rightarrow> u8 \<Rightarrow> u8 \<Rightarrow> u8 \<Rightarrow> bytes" where
  "InvMixColumn a b c d =
     [gf_14 a XOR gf_11 b XOR gf_13 c XOR gf_9 d,
      gf_9 a XOR gf_14 b XOR gf_11 c XOR gf_13 d,
      gf_13 a XOR gf_9 b XOR gf_14 c XOR gf_11 d,
      gf_11 a XOR gf_13 b XOR gf_9 c XOR gf_14 d]"

definition mm_aesimc_si128 :: "m128 \<Rightarrow> m128" where
  "mm_aesimc_si128 x =
     pack (concat (map (\<lambda>i. InvMixColumn (lane x (4 * i)) (lane x (4 * i + 1)) (lane x (4 * i + 2)) (lane x (4 * i + 3)))
       [0, 1, 2, 3]))"

text \<open>The example of the standard.\<close>

lemma InvMixColumn_example: "InvMixColumn 0x8e 0x4d 0xa1 0xbc = [0xdb, 0x13, 0x53, 0x45]"
  by code_simp

text \<open>\<open>_mm_loadu_si128\<close>, through \<open>Fetch128\<close> of FarmHash.\<close>

definition Fetch128 :: "bytes \<Rightarrow> nat \<Rightarrow> m128 res" where
  "Fetch128 m p = rbind (view m p 16) (\<lambda>bs. Inr (pack bs))"

text \<open>A register written to memory.\<close>

definition stored :: "m128 \<Rightarrow> bytes" where
  "stored x = map (lane x) [0..<16]"

lemma length_stored [simp]: "length (stored x) = 16"
  by (simp add: stored_def)

lemma stored_Fetch128: "Fetch128 (stored x) 0 = Inr x"
proof -
  have "pack (stored x) = x"
    by (rule bit_word_eqI) (simp add: stored_def bit_pack lane_def bit_simps div_less_iff_less_mult)
  then show ?thesis by (simp add: Fetch128_def view_def)
qed

lemma Fetch128_inside: "rbind (Fetch128 m p) f = Inr x \<Longrightarrow> p + 16 \<le> length m"
  by (cases "p + 16 \<le> length m") (simp_all add: Fetch128_def view_def)

lemma agree_Fetch128 [window_intros]:
  "window m p w \<Longrightarrow> q = p + i \<Longrightarrow> i + 16 \<le> length w \<Longrightarrow> agree (Fetch128 m q) (Fetch128 w i)"
  using window_view [of m p w i 16] by (simp add: agree_def Fetch128_def)

section \<open>The instruction and the table-driven checksum\<close>

lemma mm_crc32_u32_bytes: "mm_crc32_u32 crc (ucast (le_word [b0, b1, b2, b3])) = foldl crc_byte crc [b0, b1, b2, b3]"
proof -
  have "(ucast (le_word [b0, b1, b2, b3]) :: u32) =
      ucast b0 XOR push_bit 8 (ucast b1) XOR push_bit 16 (ucast b2) XOR push_bit 24 (ucast b3)"
    unfolding word_of_bytes_xor [symmetric]
    by (rule bit_word_eqI) (auto simp: le_word_def bit_simps dest: bit_imp_le_length)
  then show ?thesis by (simp only: mm_crc32_u32_def crc_word)
qed

end
