(* ===== verification/Farm_Te.thy ===== *)
theory Farm_Te
  imports Simd Farm_Hash
begin

unbundle bit_operations_syntax

text \<open>
  \<open>farmhashte\<close> and \<open>farmhashnt\<close> of \<open>src/util/hash/farmhash.cpp\<close>: the 64-bit hash that mixes twelve vector
  registers over chunks of 256 bytes, and its 32-bit truncation. Which of the two versions of a function exists is
  decided when the program is compiled; the record \<open>build\<close> holds what the preprocessor asks. A version without the
  instructions stops the program on purpose.
\<close>

section \<open>Builds\<close>

record build =
  debug_mode :: bool
  can_use_sse41 :: bool
  can_use_sse42 :: bool
  can_use_aesni :: bool
  x86_64 :: bool

text \<open>\<open>FARMHASH_DIE_IF_MISCONFIGURED\<close> writes to one of the first 17 addresses.\<close>

definition die_if_misconfigured :: "nat \<Rightarrow> unit res" where
  "die_if_misconfigured len = Inl (if len mod 17 = 0 then NullDeref else OutOfBounds)"

section \<open>The 64-bit hash\<close>

definition te_Add :: "m128 \<Rightarrow> m128 \<Rightarrow> m128" where "te_Add x y = mm_add_epi64 x y"
definition te_Xor :: "m128 \<Rightarrow> m128 \<Rightarrow> m128" where "te_Xor x y = mm_xor_si128 x y"
definition te_Mul :: "m128 \<Rightarrow> m128 \<Rightarrow> m128" where "te_Mul x y = mm_mullo_epi32 x y"
definition te_Shuf :: "m128 \<Rightarrow> m128 \<Rightarrow> m128" where "te_Shuf x y = mm_shuffle_epi8 y x"

definition kShuf :: m128 where
  "kShuf = mm_set_epi8 [4, 11, 10, 5, 8, 15, 6, 9, 12, 2, 14, 13, 0, 7, 3, 1]"

definition kMult :: m128 where
  "kMult = mm_set_epi8 [0xbd, 0xd6, 0x33, 0x39, 0x45, 0x54, 0xfa, 0x03,
                        0x34, 0x3e, 0x33, 0xed, 0xcc, 0x9e, 0x2d, 0x51]"

record te_state =
  r0 :: m128
  r1 :: m128
  r2 :: m128
  r3 :: m128
  r4 :: m128
  r5 :: m128
  r6 :: m128
  r7 :: m128
  r8 :: m128
  r9 :: m128
  r10 :: m128
  r11 :: m128

definition te_init :: "u64 \<Rightarrow> u64 \<Rightarrow> te_state" where
  "te_init seed0 seed1 =
     (let seed2 = (seed0 + 113) * (seed1 + 9);
          seed3 = (Rotate seed0 23 + 27) * (Rotate seed1 30 + 111);
          d0 = mm_cvtsi64_si128 seed0;
          d1 = mm_cvtsi64_si128 seed1;
          d2 = te_Shuf kShuf d0;
          d3 = te_Shuf kShuf d1;
          d4 = te_Xor d0 d1;
          d5 = te_Xor d1 d2;
          d6 = te_Xor d2 d4;
          d7 = mm_set1_epi32 (ucast (drop_bit 32 seed2));
          d8 = te_Mul kMult d2;
          d9 = mm_set1_epi32 (ucast (drop_bit 32 seed3));
          d10 = mm_set1_epi32 (ucast seed3);
          d11 = te_Add d2 (mm_set1_epi32 (ucast seed2)) in
      \<lparr>r0 = d0, r1 = d1, r2 = d2, r3 = d3, r4 = d4, r5 = d5,
        r6 = d6, r7 = d7, r8 = d8, r9 = d9, r10 = d10, r11 = d11\<rparr>)"

text \<open>The body of the loop: sixteen loads, each followed by its mixing.\<close>

definition te_body :: "bytes \<Rightarrow> nat \<Rightarrow> te_state \<Rightarrow> te_state res" where
  "te_body m s st =
     (let d0 = r0 st; d1 = r1 st; d2 = r2 st; d3 = r3 st; d4 = r4 st; d5 = r5 st;
          d6 = r6 st; d7 = r7 st; d8 = r8 st; d9 = r9 st; d10 = r10 st; d11 = r11 st in
      rbind (Fetch128 m s) (\<lambda>z.
      let d0 = te_Add d0 z; d1 = te_Shuf kShuf d1; d2 = te_Xor d2 d0; d4 = te_Xor d4 z; d4 = te_Xor d4 d1;
          (d0, d6) = (d6, d0) in
      rbind (Fetch128 m (s + 16)) (\<lambda>z.
      let d5 = te_Add d5 z; d6 = te_Shuf kShuf d6; d8 = te_Shuf kShuf d8; d7 = te_Xor d7 d5; d0 = te_Xor d0 z;
          d0 = te_Xor d0 d6; (d5, d11) = (d11, d5) in
      rbind (Fetch128 m (s + 32)) (\<lambda>z.
      let d1 = te_Add d1 z; d2 = te_Shuf kShuf d2; d4 = te_Shuf kShuf d4; d5 = te_Xor d5 z; d5 = te_Xor d5 d2;
          (d10, d4) = (d4, d10) in
      rbind (Fetch128 m (s + 48)) (\<lambda>z.
      let d6 = te_Add d6 z; d7 = te_Shuf kShuf d7; d0 = te_Shuf kShuf d0; d8 = te_Xor d8 d6; d1 = te_Xor d1 z;
          d1 = te_Add d1 d7 in
      rbind (Fetch128 m (s + 64)) (\<lambda>z.
      let d2 = te_Add d2 z; d5 = te_Shuf kShuf d5; d4 = te_Add d4 d2; d6 = te_Xor d6 z; d6 = te_Xor d6 d11;
          (d8, d2) = (d2, d8) in
      rbind (Fetch128 m (s + 80)) (\<lambda>z.
      let d7 = te_Xor d7 z; d8 = te_Shuf kShuf d8; d1 = te_Shuf kShuf d1; d0 = te_Add d0 d7; d2 = te_Add d2 z;
          d2 = te_Add d2 d8; (d1, d7) = (d7, d1) in
      rbind (Fetch128 m (s + 96)) (\<lambda>z.
      let d4 = te_Shuf kShuf d4; d6 = te_Shuf kShuf d6; d8 = te_Mul kMult d8; d5 = te_Xor d5 d11;
          d7 = te_Xor d7 z; d7 = te_Add d7 d4; (d6, d0) = (d0, d6) in
      rbind (Fetch128 m (s + 112)) (\<lambda>z.
      let d8 = te_Add d8 z; d0 = te_Shuf kShuf d0; d2 = te_Shuf kShuf d2; d1 = te_Xor d1 d8;
          d10 = te_Xor d10 z; d10 = te_Xor d10 d0; (d11, d5) = (d5, d11) in
      rbind (Fetch128 m (s + 128)) (\<lambda>z.
      let d4 = te_Add d4 z; d5 = te_Shuf kShuf d5; d7 = te_Shuf kShuf d7; d6 = te_Add d6 d4; d8 = te_Xor d8 z;
          d8 = te_Xor d8 d5; (d4, d10) = (d10, d4) in
      rbind (Fetch128 m (s + 144)) (\<lambda>z.
      let d0 = te_Add d0 z; d1 = te_Shuf kShuf d1; d2 = te_Add d2 d0; d4 = te_Xor d4 z; d4 = te_Xor d4 d1 in
      rbind (Fetch128 m (s + 160)) (\<lambda>z.
      let d5 = te_Add d5 z; d6 = te_Shuf kShuf d6; d8 = te_Shuf kShuf d8; d7 = te_Xor d7 d5; d0 = te_Xor d0 z;
          d0 = te_Xor d0 d6; (d2, d8) = (d8, d2) in
      rbind (Fetch128 m (s + 176)) (\<lambda>z.
      let d1 = te_Add d1 z; d2 = te_Shuf kShuf d2; d4 = te_Shuf kShuf d4; d5 = te_Mul kMult d5;
          d5 = te_Xor d5 z; d5 = te_Xor d5 d2; (d7, d1) = (d1, d7) in
      rbind (Fetch128 m (s + 192)) (\<lambda>z.
      let d6 = te_Add d6 z; d7 = te_Shuf kShuf d7; d0 = te_Shuf kShuf d0; d8 = te_Add d8 d6; d1 = te_Xor d1 z;
          d1 = te_Xor d1 d7; (d0, d6) = (d6, d0) in
      rbind (Fetch128 m (s + 208)) (\<lambda>z.
      let d2 = te_Add d2 z; d5 = te_Shuf kShuf d5; d4 = te_Xor d4 d2; d6 = te_Xor d6 z; d6 = te_Xor d6 d9;
          (d5, d11) = (d11, d5) in
      rbind (Fetch128 m (s + 224)) (\<lambda>z.
      let d7 = te_Add d7 z; d8 = te_Shuf kShuf d8; d1 = te_Shuf kShuf d1; d0 = te_Xor d0 d7; d2 = te_Xor d2 z;
          d2 = te_Xor d2 d8; (d10, d4) = (d4, d10) in
      rbind (Fetch128 m (s + 240)) (\<lambda>z.
      let d3 = te_Add d3 z; d4 = te_Shuf kShuf d4; d6 = te_Shuf kShuf d6; d7 = te_Mul kMult d7;
          d5 = te_Add d5 d3; d7 = te_Xor d7 z; d7 = te_Xor d7 d4; (d3, d9) = (d9, d3) in
      Inr \<lparr>r0 = d0, r1 = d1, r2 = d2, r3 = d3, r4 = d4, r5 = d5,
        r6 = d6, r7 = d7, r8 = d8, r9 = d9, r10 = d10, r11 = d11\<rparr>)))))))))))))))))"

lemma te_body_inside: "te_body m s st = Inr st' \<Longrightarrow> s + 16 \<le> length m"
  unfolding te_body_def Let_def by (rule Fetch128_inside)

function te_loop :: "bytes \<Rightarrow> nat \<Rightarrow> nat \<Rightarrow> te_state \<Rightarrow> te_state res" where
  "te_loop m s e st =
     rbind (te_body m s st) (\<lambda>st. if s + 256 \<noteq> e then te_loop m (s + 256) e st else Inr st)"
  by pat_completeness auto

termination
  by (relation "measure (\<lambda>(m, s, e, st). length m - s)") (auto dest: te_body_inside)

declare te_loop.simps [simp del]

text \<open>The last steps on the registers, up to the array \<open>t\<close>.\<close>

definition te_array :: "te_state \<Rightarrow> bytes" where
  "te_array st =
     (let d0 = te_Mul kMult (te_Shuf kShuf (te_Mul kMult (r0 st)));
          d3 = te_Mul kMult (te_Shuf kShuf (te_Mul kMult (r3 st)));
          d9 = te_Mul kMult (te_Shuf kShuf (te_Mul kMult (r9 st)));
          d1 = te_Mul kMult (te_Shuf kShuf (te_Mul kMult (r1 st)));
          d0 = te_Add (r11 st) d0;
          d3 = te_Xor (r7 st) d3;
          d9 = te_Add (r8 st) d9;
          d1 = te_Add (r10 st) d1;
          d4 = te_Add d3 (r4 st);
          d5 = te_Add d9 (r5 st);
          d6 = te_Xor d1 (r6 st);
          d2 = te_Add d0 (r2 st) in
      concat (map stored [d0, d3, d9, d1, d4, d5, d6, d2]))"

text \<open>The selector of \<open>_mm_shuffle_epi32\<close> is \<open>(0 << 6) + (3 << 4) + (2 << 2) + (1 << 0)\<close>.\<close>

definition te_Hash64Long :: "bytes \<Rightarrow> nat \<Rightarrow> nat \<Rightarrow> u64 \<Rightarrow> u64 \<Rightarrow> u64 res" where
  "te_Hash64Long m s n seed0 seed1 =
     (let e = s + n div 256 * 256 in
      rbind (te_loop m s e (te_init seed0 seed1)) (\<lambda>st.
      let st = st\<lparr>r6 := te_Add (te_Mul kMult (r6 st)) (mm_cvtsi64_si128 (of_nat n))\<rparr> in
      rbind (if n mod 256 \<noteq> 0 then
               let d7 = te_Add (mm_shuffle_epi32 (r8 st) 57) (r7 st) in
               rbind (xo_Hash64 m e (n mod 256)) (\<lambda>t.
               let d8 = te_Add (te_Mul kMult (r8 st)) (mm_cvtsi64_si128 t) in
               Inr (st\<lparr>r7 := d7, r8 := d8\<rparr>))
             else Inr st) (\<lambda>st.
      xo_Hash64 (te_array st) 0 128)))"

text \<open>The functions of a build without the instructions. A key is an address inside a memory, so that \<open>s\<close> is not \<open>NULL\<close>.\<close>

definition te_refuse_Hash64 :: "nat \<Rightarrow> u64 res" where
  "te_refuse_Hash64 len = rbind (die_if_misconfigured len) (\<lambda>_. Inr (of_nat len))"

definition te_refuse_Hash64WithSeed :: "nat \<Rightarrow> u64 \<Rightarrow> u64 res" where
  "te_refuse_Hash64WithSeed len seed =
     rbind (die_if_misconfigured len) (\<lambda>_. rbind (te_refuse_Hash64 len) (\<lambda>h. Inr (seed + h)))"

definition te_refuse_Hash64WithSeeds :: "nat \<Rightarrow> u64 \<Rightarrow> u64 \<Rightarrow> u64 res" where
  "te_refuse_Hash64WithSeeds len seed0 seed1 =
     rbind (die_if_misconfigured len) (\<lambda>_. rbind (te_refuse_Hash64 len) (\<lambda>h. Inr (seed0 + seed1 + h)))"

definition te_Hash64 :: "build \<Rightarrow> bytes \<Rightarrow> nat \<Rightarrow> nat \<Rightarrow> u64 res" where
  "te_Hash64 B m s len =
     (if \<not> can_use_sse41 B \<or> \<not> x86_64 B then te_refuse_Hash64 len
      else if len \<ge> 512 then te_Hash64Long m s len k2 k1 else xo_Hash64 m s len)"

definition te_Hash64WithSeed :: "build \<Rightarrow> bytes \<Rightarrow> nat \<Rightarrow> nat \<Rightarrow> u64 \<Rightarrow> u64 res" where
  "te_Hash64WithSeed B m s len seed =
     (if \<not> can_use_sse41 B \<or> \<not> x86_64 B then te_refuse_Hash64WithSeed len seed
      else if len \<ge> 512 then te_Hash64Long m s len k1 seed else xo_Hash64WithSeed m s len seed)"

definition te_Hash64WithSeeds :: "build \<Rightarrow> bytes \<Rightarrow> nat \<Rightarrow> nat \<Rightarrow> u64 \<Rightarrow> u64 \<Rightarrow> u64 res" where
  "te_Hash64WithSeeds B m s len seed0 seed1 =
     (if \<not> can_use_sse41 B \<or> \<not> x86_64 B then te_refuse_Hash64WithSeeds len seed0 seed1
      else if len \<ge> 512 then te_Hash64Long m s len seed0 seed1 else xo_Hash64WithSeeds m s len seed0 seed1)"

section \<open>The 32-bit hash\<close>

definition nt_refuse_Hash32 :: "nat \<Rightarrow> u32 res" where
  "nt_refuse_Hash32 len = rbind (die_if_misconfigured len) (\<lambda>_. Inr (of_nat len))"

definition nt_refuse_Hash32WithSeed :: "nat \<Rightarrow> u32 \<Rightarrow> u32 res" where
  "nt_refuse_Hash32WithSeed len seed =
     rbind (die_if_misconfigured len) (\<lambda>_. rbind (nt_refuse_Hash32 len) (\<lambda>h. Inr (seed + h)))"

definition nt_Hash32 :: "build \<Rightarrow> bytes \<Rightarrow> nat \<Rightarrow> nat \<Rightarrow> u32 res" where
  "nt_Hash32 B m s len =
     (if \<not> can_use_sse41 B \<or> \<not> x86_64 B then nt_refuse_Hash32 len
      else rbind (te_Hash64 B m s len) (\<lambda>h. Inr (ucast h)))"

definition nt_Hash32WithSeed :: "build \<Rightarrow> bytes \<Rightarrow> nat \<Rightarrow> nat \<Rightarrow> u32 \<Rightarrow> u32 res" where
  "nt_Hash32WithSeed B m s len seed =
     (if \<not> can_use_sse41 B \<or> \<not> x86_64 B then nt_refuse_Hash32WithSeed len seed
      else rbind (te_Hash64WithSeed B m s len (ucast seed)) (\<lambda>h. Inr (ucast h)))"

section \<open>Every load is inside the key\<close>

lemma agree_te_body [window_intros]:
  "window m p w \<Longrightarrow> q = p + k \<Longrightarrow> k + 256 \<le> length w \<Longrightarrow> agree (te_body m q st) (te_body w k st)"
  unfolding te_body_def Let_def case_prod_conv by (intro agree_bind agree_Inr agree_Fetch128; assumption?; simp)

lemma agree_te_loop [window_intros]:
  assumes "window m p w" "q = p + k" "e = p + e'" "e' = k + 256 * n" "0 < n" "e' \<le> length w"
  shows "agree (te_loop m q e st) (te_loop w k e' st)"
  using assms
proof (induction n arbitrary: q k st)
  case (Suc n)
  have "agree (te_loop m (q + 256) e st') (te_loop w (k + 256) e' st')" if "k + 256 \<noteq> e'" for st'
    using Suc.prems that by (intro Suc.IH) simp_all
  with Suc.prems show ?case
    by (subst (1 2) te_loop.simps) (intro agree_bind agree_te_body; simp add: agree_Inr)
qed simp

lemma length_te_array [simp]: "length (te_array st) = 128"
  by (simp add: te_array_def Let_def)

lemma xo_Hash64_whole: "n = length t \<Longrightarrow> agree (xo_Hash64 t 0 n) (xo_Hash64 t 0 n)"
  by (rule agree_xo_Hash64 [of t 0 t]) (simp_all add: window_def)

lemma agree_te_Hash64Long [window_intros]:
  assumes "window m p w" "q = p + k" "256 \<le> n" "k + n \<le> length w"
  shows "agree (te_Hash64Long m q n seed0 seed1) (te_Hash64Long w k n seed0 seed1)"
proof -
  have n: "n div 256 * 256 + n mod 256 = n" "0 < n div 256" "256 * (n div 256) = n div 256 * 256"
    using assms(3) by (simp_all add: div_greater_zero_iff)
  show ?thesis unfolding te_Hash64Long_def
    by (intro agree_Let_address window_intros xo_Hash64_whole agree_te_loop [where n = "n div 256"];
        (rule assms(1))?; use assms n in \<open>simp add: add.assoc\<close>)
qed

text \<open>A build that has the instructions.\<close>

lemma agree_te_Hash64 [window_intros]:
  assumes "window m p w" "q = p + k" "k + len \<le> length w" "can_use_sse41 B" "x86_64 B"
  shows "agree (te_Hash64 B m q len) (te_Hash64 B w k len)"
    and "agree (te_Hash64WithSeeds B m q len seed0 seed1) (te_Hash64WithSeeds B w k len seed0 seed1)"
    and "agree (te_Hash64WithSeed B m q len seed) (te_Hash64WithSeed B w k len seed)"
  using assms agree_te_Hash64Long [of m p w q k len] agree_xo_Hash64 [OF assms(1-3)]
    agree_uo_Hash64WithSeeds [OF assms(1-3)] agree_na_Hash64WithSeeds [OF assms(1-3)]
  by (simp_all add: te_Hash64_def te_Hash64WithSeeds_def te_Hash64WithSeed_def xo_Hash64WithSeeds_def
      xo_Hash64WithSeed_def uo_Hash64WithSeed_def na_Hash64WithSeed_def)

lemma agree_nt_Hash32 [window_intros]:
  assumes "window m p w" "q = p + k" "k + len \<le> length w" "can_use_sse41 B" "x86_64 B"
  shows "agree (nt_Hash32 B m q len) (nt_Hash32 B w k len)"
    and "agree (nt_Hash32WithSeed B m q len seed) (nt_Hash32WithSeed B w k len seed)"
  using assms agree_te_Hash64 [OF assms] by (auto simp: nt_Hash32_def nt_Hash32WithSeed_def intro!: agree_bind agree_Inr)

end
