(* ===== verification/Farm_Crc.thy ===== *)
theory Farm_Crc
  imports Farm_Te
begin

unbundle bit_operations_syntax

text \<open>
  \<open>farmhashsu\<close> and \<open>farmhashsa\<close> of \<open>src/util/hash/farmhash.cpp\<close>: 32-bit hashes on vector registers that
  finish with the checksum instruction; \<open>farmhashsu\<close> also uses an instruction of AES. Helpers that
  both namespaces spell out in the same way are defined once.
\<close>

section \<open>Four 32-bit lanes\<close>

definition v_Add :: "m128 \<Rightarrow> m128 \<Rightarrow> m128" where "v_Add x y = mm_add_epi32 x y"
definition v_Xor :: "m128 \<Rightarrow> m128 \<Rightarrow> m128" where "v_Xor x y = mm_xor_si128 x y"
definition v_Or :: "m128 \<Rightarrow> m128 \<Rightarrow> m128" where "v_Or x y = mm_or_si128 x y"
definition v_Mul :: "m128 \<Rightarrow> m128 \<Rightarrow> m128" where "v_Mul x y = mm_mullo_epi32 x y"
definition v_Mul5 :: "m128 \<Rightarrow> m128" where "v_Mul5 x = v_Add x (mm_slli_epi32 x 2)"

definition v_RotateLeft :: "m128 \<Rightarrow> nat \<Rightarrow> m128" where
  "v_RotateLeft x c = v_Or (mm_slli_epi32 x c) (mm_srli_epi32 x (32 - c))"

definition Rol17 :: "m128 \<Rightarrow> m128" where "Rol17 x = v_RotateLeft x 17"
definition Rol19 :: "m128 \<Rightarrow> m128" where "Rol19 x = v_RotateLeft x 19"

definition Shuffle0321 :: "m128 \<Rightarrow> m128" where
  "Shuffle0321 x = mm_shuffle_epi32 x 57"

definition Mulc1 :: "m128 \<Rightarrow> m128" where "Mulc1 x = v_Mul x (mm_set1_epi32 c1)"
definition Mulc2 :: "m128 \<Rightarrow> m128" where "Mulc2 x = v_Mul x (mm_set1_epi32 c2)"

text \<open>The macro \<open>Murk(a, h)\<close>, which also uses the variable \<open>k\<close>.\<close>

definition Murk :: "m128 \<Rightarrow> m128 \<Rightarrow> m128 \<Rightarrow> m128" where
  "Murk k a h = v_Add k (v_Mul5 (Rol19 (v_Xor (Mulc2 (Rol17 (Mulc1 a))) h)))"

text \<open>The end of both hashes: the registers in memory, read back in words of 32 bits.\<close>

definition crc_finish :: "m128 \<Rightarrow> m128 \<Rightarrow> m128 \<Rightarrow> m128 \<Rightarrow> u32 res" where
  "crc_finish f g k h =
     (let b = stored f @ stored g @ stored k @ stored h in
      rbind (Fetch32 b 0) (\<lambda>x.
      rbind (Fetch32 b 4) (\<lambda>y.
      rbind (Fetch32 b 8) (\<lambda>z.
      rbind (Fetch32 b 12) (\<lambda>t. let x = mm_crc32_u32 x t in
      rbind (Fetch32 b 16) (\<lambda>t. let y = mm_crc32_u32 y t in
      rbind (Fetch32 b 20) (\<lambda>t. let z = mm_crc32_u32 (z * c1) t in
      rbind (Fetch32 b 24) (\<lambda>t. let x = mm_crc32_u32 x t in
      rbind (Fetch32 b 28) (\<lambda>t. let y = mm_crc32_u32 (y * c1) t; o' = y in
      rbind (Fetch32 b 32) (\<lambda>t. let z = mm_crc32_u32 z t in
      rbind (Fetch32 b 36) (\<lambda>t. let x = mm_crc32_u32 (x * c1) t in
      rbind (Fetch32 b 40) (\<lambda>t. let y = mm_crc32_u32 y t in
      rbind (Fetch32 b 44) (\<lambda>t. let z = mm_crc32_u32 (z * c1) t in
      rbind (Fetch32 b 48) (\<lambda>t. let x = mm_crc32_u32 x t in
      rbind (Fetch32 b 52) (\<lambda>t. let y = mm_crc32_u32 (y * c1) t in
      rbind (Fetch32 b 56) (\<lambda>t. let z = mm_crc32_u32 z t in
      rbind (Fetch32 b 60) (\<lambda>t. let x = mm_crc32_u32 x t in
      Inr ((o' - x + y - z) * c1))))))))))))))))))"

text \<open>Keys of at most 24 bytes, and seeds on them, are hashed as by \<open>farmhashmk\<close>.\<close>

definition v_Hash32Len0to24 :: "bytes \<Rightarrow> nat \<Rightarrow> nat \<Rightarrow> u32 res" where
  "v_Hash32Len0to24 m s len =
     (if len \<le> 12 then
        if len \<le> 4 then mk_Hash32Len0to4 m s len 0 else mk_Hash32Len5to12 m s len 0
      else mk_Hash32Len13to24 m s len 0)"

section \<open>\<open>farmhashsu\<close>\<close>

record su_state =
  vf :: m128
  vg :: m128
  vh :: m128
  vk :: m128
  vq :: m128

definition su_Hash32Len25to39 :: "bytes \<Rightarrow> nat \<Rightarrow> nat \<Rightarrow> u32 res" where
  "su_Hash32Len25to39 m s len =
     (let seed = 81; a = of_nat len; b = seed * c2; c = a + b in
      rbind (Fetch32 m (s + len - 4)) (\<lambda>x. let a = a + x in
      rbind (Fetch32 m (s + len - 20)) (\<lambda>x. let b = b + x in
      rbind (Fetch32 m (s + len - 16)) (\<lambda>x. let c = c + x; d = a;
        a = Rotate32 a 21;
        a = Mur a (Mur b (mm_crc32_u32 c d)) in
      rbind (Fetch32 m (s + len - 12)) (\<lambda>x. let a = a + x in
      rbind (Fetch32 m (s + len - 8)) (\<lambda>x. let b = b + x;
        d = d + a;
        a = a + d;
        b = Mur b d * c2;
        a = mm_crc32_u32 a (b + c) in
      rbind (mk_Hash32Len13to24 m s ((len + 1) div 2) a) (\<lambda>t. Inr (t + b))))))))"

text \<open>The variables before the first load; \<open>q\<close> is set later.\<close>

definition su_init :: "su_state" where
  "su_init =
     (let seed = 81; g = mm_set1_epi32 (c1 * seed) in
      \<lparr>vf = g, vg = g, vh = mm_set1_epi32 seed, vk = mm_set1_epi32 0xe6546b64, vq = g\<rparr>)"

definition su_Hash32Len40to79 :: "bytes \<Rightarrow> nat \<Rightarrow> nat \<Rightarrow> su_state \<Rightarrow> su_state res" where
  "su_Hash32Len40to79 m s len st =
     (let f = vf st; g = vg st; h = vh st; k = vk st in
      rbind (Fetch128 m s) (\<lambda>a.
      rbind (Fetch128 m (s + 16)) (\<lambda>b.
      rbind (Fetch128 m (s + (len - 15) div 2)) (\<lambda>c.
      rbind (Fetch128 m (s + len - 32)) (\<lambda>d.
      rbind (Fetch128 m (s + len - 16)) (\<lambda>e.
      let h = v_Add h a;
          g = v_Add g b;
          q = g;
          g = Shuffle0321 g;
          f = v_Add f c;
          be = v_Add b (Mulc1 e);
          h = v_Add h f;
          f = v_Add f h;
          h = v_Add (Murk k d h) e;
          k = v_Xor k (mm_shuffle_epi8 g f);
          g = v_Add (v_Xor c g) a;
          f = v_Add (v_Xor be f) d;
          k = v_Add k be;
          k = v_Add k (mm_shuffle_epi8 f h);
          f = v_Add f g;
          g = v_Add g f;
          g = v_Add (mm_set1_epi32 (of_nat len)) (Mulc1 g) in
      Inr \<lparr>vf = f, vg = g, vh = h, vk = k, vq = q\<rparr>))))))"

definition su_Chunk :: "bytes \<Rightarrow> nat \<Rightarrow> su_state \<Rightarrow> su_state res" where
  "su_Chunk m s st =
     (let f = vf st; g = vg st; h = vh st; k = vk st; q = vq st in
      rbind (Fetch128 m s) (\<lambda>a.
      rbind (Fetch128 m (s + 16)) (\<lambda>b.
      rbind (Fetch128 m (s + 32)) (\<lambda>c.
      rbind (Fetch128 m (s + 48)) (\<lambda>d.
      rbind (Fetch128 m (s + 64)) (\<lambda>e.
      let h = v_Add h a;
          g = v_Add g b;
          g = Shuffle0321 g;
          f = v_Add f c;
          be = v_Add b (Mulc1 e);
          h = v_Add h f;
          f = v_Add f h;
          h = v_Add h d;
          q = v_Add q e;
          h = Rol17 h;
          h = Mulc1 h;
          k = v_Xor k (mm_shuffle_epi8 g f);
          g = v_Add (v_Xor c g) a;
          f = v_Add (v_Xor be f) d;
          (f, q) = (q, f);
          q = mm_aesimc_si128 q;
          k = v_Add k be;
          k = v_Add k (mm_shuffle_epi8 f h);
          f = v_Add f g;
          g = v_Add g f;
          f = Mulc1 f in
      Inr \<lparr>vf = f, vg = g, vh = h, vk = k, vq = q\<rparr>))))))"

fun su_loop :: "bytes \<Rightarrow> nat \<Rightarrow> nat \<Rightarrow> su_state \<Rightarrow> (nat \<times> su_state) res" where
  "su_loop m s 0 st = Inr (s, st)"
| "su_loop m s (Suc iters) st = rbind (su_Chunk m s st) (su_loop m (s + 80) iters)"

definition su_Hash32Len80 :: "bytes \<Rightarrow> nat \<Rightarrow> nat \<Rightarrow> su_state \<Rightarrow> su_state res" where
  "su_Hash32Len80 m s len st =
     (let iters = (len - 1) div 80;
          len = len - iters * 80;
          st = st\<lparr>vq := vg st\<rparr> in
      rbind (su_loop m s iters st) (\<lambda>(s, st).
      if len \<noteq> 0 then
        let st = st\<lparr>vh := v_Add (vh st) (mm_set1_epi32 (of_nat len))\<rparr>;
            s = s + len - 80 in
        su_Chunk m s st
      else Inr st))"

definition su_finish :: "su_state \<Rightarrow> u32 res" where
  "su_finish st =
     (let f = vf st; g = vg st; h = vh st; k = vk st; q = vq st;
          g = Shuffle0321 g;
          k = v_Xor k g;
          k = v_Xor k q;
          h = v_Xor h q;
          f = Mulc1 f;
          k = Mulc2 k;
          g = Mulc1 g;
          h = Mulc2 h;
          k = v_Add k (mm_shuffle_epi8 g f);
          h = v_Add h f;
          f = v_Add f h;
          g = v_Add g k;
          k = v_Add k g;
          k = v_Xor k (mm_shuffle_epi8 f h) in
      crc_finish f g k h)"

definition su_refuse_Hash32 :: "nat \<Rightarrow> u32 res" where
  "su_refuse_Hash32 len = rbind (die_if_misconfigured len) (\<lambda>_. Inr (of_nat len))"

definition su_refuse_Hash32WithSeed :: "nat \<Rightarrow> u32 \<Rightarrow> u32 res" where
  "su_refuse_Hash32WithSeed len seed =
     rbind (die_if_misconfigured len) (\<lambda>_. rbind (su_refuse_Hash32 len) (\<lambda>h. Inr (seed + h)))"

definition su_Hash32 :: "build \<Rightarrow> bytes \<Rightarrow> nat \<Rightarrow> nat \<Rightarrow> u32 res" where
  "su_Hash32 B m s len =
     (if \<not> can_use_sse42 B \<or> \<not> can_use_aesni B then su_refuse_Hash32 len
      else if len \<le> 24 then v_Hash32Len0to24 m s len
      else if len < 40 then su_Hash32Len25to39 m s len
      else
        rbind (if len < 80 then su_Hash32Len40to79 m s len su_init else su_Hash32Len80 m s len su_init) su_finish)"

definition su_Hash32WithSeed :: "build \<Rightarrow> bytes \<Rightarrow> nat \<Rightarrow> nat \<Rightarrow> u32 \<Rightarrow> u32 res" where
  "su_Hash32WithSeed B m s len seed =
     (if \<not> can_use_sse42 B \<or> \<not> can_use_aesni B then su_refuse_Hash32WithSeed len seed
      else if len \<le> 24 then
        if len \<ge> 13 then mk_Hash32Len13to24 m s len (seed * c1)
        else if len \<ge> 5 then mk_Hash32Len5to12 m s len seed
        else mk_Hash32Len0to4 m s len seed
      else
        rbind (mk_Hash32Len13to24 m s 24 (seed XOR of_nat len)) (\<lambda>h.
        rbind (su_Hash32 B m (s + 24) (len - 24)) (\<lambda>t.
        Inr (mm_crc32_u32 (t + seed) h))))"

section \<open>\<open>farmhashsa\<close>\<close>

record sa_state =
  wf :: m128
  wg :: m128
  wh :: m128
  wk :: m128

definition sa_Hash32Len25to39 :: "bytes \<Rightarrow> nat \<Rightarrow> nat \<Rightarrow> u32 res" where
  "sa_Hash32Len25to39 m s len =
     (let seed = 81; a = of_nat len; b = seed * c2; c = a + b in
      rbind (Fetch32 m (s + len - 4)) (\<lambda>x. let a = a + x in
      rbind (Fetch32 m (s + len - 20)) (\<lambda>x. let b = b + x in
      rbind (Fetch32 m (s + len - 16)) (\<lambda>x. let c = c + x; d = a;
        a = Rotate32 a 21;
        a = Mur a (Mur b (Mur c d)) in
      rbind (Fetch32 m (s + len - 12)) (\<lambda>x. let a = a + x in
      rbind (Fetch32 m (s + len - 8)) (\<lambda>x. let b = b + x;
        d = d + a;
        a = a + d;
        b = Mur b d * c2;
        a = mm_crc32_u32 a (b + c) in
      rbind (mk_Hash32Len13to24 m s ((len + 1) div 2) a) (\<lambda>t. Inr (t + b))))))))"

definition sa_init :: "sa_state" where
  "sa_init =
     (let seed = 81; g = mm_set1_epi32 (c1 * seed) in
      \<lparr>wf = g, wg = g, wh = mm_set1_epi32 seed, wk = mm_set1_epi32 0xe6546b64\<rparr>)"

text \<open>The steps that follow the loads: in the branch for less than 80 bytes and, up to its last line, in \<open>Chunk\<close>. The
  variables \<open>f\<close>, \<open>g\<close>, \<open>h\<close> and \<open>k\<close> after them.\<close>

definition sa_mix :: "m128 \<Rightarrow> m128 \<Rightarrow> m128 \<Rightarrow> m128 \<Rightarrow> m128 \<Rightarrow> sa_state \<Rightarrow> m128 \<times> m128 \<times> m128 \<times> m128" where
  "sa_mix a b c d e st =
     (let f = wf st; g = wg st; h = wh st; k = wk st;
          h = v_Add h a;
          g = v_Add g b;
          g = Shuffle0321 g;
          f = v_Add f c;
          be = v_Add b (Mulc1 e);
          h = v_Add h f;
          f = v_Add f h;
          h = v_Add (Murk k d h) e;
          k = v_Xor k (mm_shuffle_epi8 g f);
          g = v_Add (v_Xor c g) a;
          f = v_Add (v_Xor be f) d;
          k = v_Add k be;
          k = v_Add k (mm_shuffle_epi8 f h);
          f = v_Add f g;
          g = v_Add g f in
      (f, g, h, k))"

definition sa_Hash32Len40to79 :: "bytes \<Rightarrow> nat \<Rightarrow> nat \<Rightarrow> sa_state \<Rightarrow> sa_state res" where
  "sa_Hash32Len40to79 m s len st =
     rbind (Fetch128 m s) (\<lambda>a.
     rbind (Fetch128 m (s + 16)) (\<lambda>b.
     rbind (Fetch128 m (s + (len - 15) div 2)) (\<lambda>c.
     rbind (Fetch128 m (s + len - 32)) (\<lambda>d.
     rbind (Fetch128 m (s + len - 16)) (\<lambda>e.
     let (f, g, h, k) = sa_mix a b c d e st;
         g = v_Add (mm_set1_epi32 (of_nat len)) (Mulc1 g) in
     Inr \<lparr>wf = f, wg = g, wh = h, wk = k\<rparr>)))))"

definition sa_Chunk :: "bytes \<Rightarrow> nat \<Rightarrow> sa_state \<Rightarrow> sa_state res" where
  "sa_Chunk m s st =
     rbind (Fetch128 m s) (\<lambda>a.
     rbind (Fetch128 m (s + 16)) (\<lambda>b.
     rbind (Fetch128 m (s + 32)) (\<lambda>c.
     rbind (Fetch128 m (s + 48)) (\<lambda>d.
     rbind (Fetch128 m (s + 64)) (\<lambda>e.
     let (f, g, h, k) = sa_mix a b c d e st;
         f = Mulc1 f in
     Inr \<lparr>wf = f, wg = g, wh = h, wk = k\<rparr>)))))"

fun sa_loop :: "bytes \<Rightarrow> nat \<Rightarrow> nat \<Rightarrow> sa_state \<Rightarrow> (nat \<times> sa_state) res" where
  "sa_loop m s 0 st = Inr (s, st)"
| "sa_loop m s (Suc iters) st = rbind (sa_Chunk m s st) (sa_loop m (s + 80) iters)"

definition sa_Hash32Len80 :: "bytes \<Rightarrow> nat \<Rightarrow> nat \<Rightarrow> sa_state \<Rightarrow> sa_state res" where
  "sa_Hash32Len80 m s len st =
     (let iters = (len - 1) div 80;
          len = len - iters * 80 in
      rbind (sa_loop m s iters st) (\<lambda>(s, st).
      if len \<noteq> 0 then
        let st = st\<lparr>wh := v_Add (wh st) (mm_set1_epi32 (of_nat len))\<rparr>;
            s = s + len - 80 in
        sa_Chunk m s st
      else Inr st))"

definition sa_finish :: "sa_state \<Rightarrow> u32 res" where
  "sa_finish st =
     (let f = wf st; g = wg st; h = wh st; k = wk st;
          g = Shuffle0321 g;
          k = v_Xor k g;
          f = Mulc1 f;
          k = Mulc2 k;
          g = Mulc1 g;
          h = Mulc2 h;
          k = v_Add k (mm_shuffle_epi8 g f);
          h = v_Add h f;
          f = v_Add f h;
          g = v_Add g k;
          k = v_Add k g;
          k = v_Xor k (mm_shuffle_epi8 f h) in
      crc_finish f g k h)"

definition sa_refuse_Hash32 :: "nat \<Rightarrow> u32 res" where
  "sa_refuse_Hash32 len = rbind (die_if_misconfigured len) (\<lambda>_. Inr (of_nat len))"

definition sa_refuse_Hash32WithSeed :: "nat \<Rightarrow> u32 \<Rightarrow> u32 res" where
  "sa_refuse_Hash32WithSeed len seed =
     rbind (die_if_misconfigured len) (\<lambda>_. rbind (sa_refuse_Hash32 len) (\<lambda>h. Inr (seed + h)))"

definition sa_Hash32 :: "build \<Rightarrow> bytes \<Rightarrow> nat \<Rightarrow> nat \<Rightarrow> u32 res" where
  "sa_Hash32 B m s len =
     (if \<not> can_use_sse42 B then sa_refuse_Hash32 len
      else if len \<le> 24 then v_Hash32Len0to24 m s len
      else if len < 40 then sa_Hash32Len25to39 m s len
      else
        rbind (if len < 80 then sa_Hash32Len40to79 m s len sa_init else sa_Hash32Len80 m s len sa_init) sa_finish)"

definition sa_Hash32WithSeed :: "build \<Rightarrow> bytes \<Rightarrow> nat \<Rightarrow> nat \<Rightarrow> u32 \<Rightarrow> u32 res" where
  "sa_Hash32WithSeed B m s len seed =
     (if \<not> can_use_sse42 B then sa_refuse_Hash32WithSeed len seed
      else if len \<le> 24 then
        if len \<ge> 13 then mk_Hash32Len13to24 m s len (seed * c1)
        else if len \<ge> 5 then mk_Hash32Len5to12 m s len seed
        else mk_Hash32Len0to4 m s len seed
      else
        rbind (mk_Hash32Len13to24 m s 24 (seed XOR of_nat len)) (\<lambda>h.
        rbind (sa_Hash32 B m (s + 24) (len - 24)) (\<lambda>t.
        Inr (mm_crc32_u32 (t + seed) h))))"

section \<open>Every load is inside the key\<close>

lemma crc_finish_returns: "agree (crc_finish f g k h) (crc_finish f g k h)"
proof -
  let ?b = "stored f @ stored g @ stored k @ stored h"
  have "window ?b 0 ?b" "length ?b = 64" by (simp_all add: window_def)
  then show ?thesis unfolding crc_finish_def Let_def
    by (intro agree_bind agree_Inr agree_Fetch32 [of ?b 0 ?b]; simp)
qed

lemma finish_returns: "agree (su_finish st) (su_finish st)" "agree (sa_finish st') (sa_finish st')"
  by (simp_all add: su_finish_def sa_finish_def Let_def crc_finish_returns)

lemma agree_v_Hash32Len0to24 [window_intros]:
  assumes "window m p w" "q = p + k" "k + len \<le> length w"
  shows "agree (v_Hash32Len0to24 m q len) (v_Hash32Len0to24 w k len)"
  using agree_mk_short [OF assms] by (simp add: v_Hash32Len0to24_def)

lemma agree_Hash32Len25to39 [window_intros]:
  assumes "window m p w" "q = p + k" "25 \<le> len" "k + len \<le> length w"
  shows "agree (su_Hash32Len25to39 m q len) (su_Hash32Len25to39 w k len)"
    and "agree (sa_Hash32Len25to39 m q len) (sa_Hash32Len25to39 w k len)"
  unfolding su_Hash32Len25to39_def sa_Hash32Len25to39_def
  by (intro agree_Let_address window_intros; (rule assms(1))?; use assms in \<open>simp add: add.assoc\<close>)+

lemma agree_Hash32Len40to79 [window_intros]:
  assumes "window m p w" "q = p + k" "40 \<le> len" "k + len \<le> length w"
  shows "agree (su_Hash32Len40to79 m q len st) (su_Hash32Len40to79 w k len st)"
    and "agree (sa_Hash32Len40to79 m q len st') (sa_Hash32Len40to79 w k len st')"
  unfolding su_Hash32Len40to79_def sa_Hash32Len40to79_def
  by (intro agree_Let_address window_intros; (rule assms(1))?; use assms in \<open>simp add: add.assoc\<close>)+

lemma agree_Chunk [window_intros]:
  assumes "window m p w" "q = p + k" "k + 80 \<le> length w"
  shows "agree (su_Chunk m q st) (su_Chunk w k st)" and "agree (sa_Chunk m q st') (sa_Chunk w k st')"
  unfolding su_Chunk_def sa_Chunk_def Let_def case_prod_beta
  by (intro agree_bind agree_Inr agree_Fetch128 [OF assms(1)]; use assms in simp)+

text \<open>The loops return the address behind the chunks.\<close>

lemma loop_agree:
  assumes "window m p w" "q = p + k" "k + 80 * n \<le> length w"
  shows "\<exists>x. su_loop m q n st = Inr (q + 80 * n, x) \<and> su_loop w k n st = Inr (k + 80 * n, x)"
    and "\<exists>x. sa_loop m q n st' = Inr (q + 80 * n, x) \<and> sa_loop w k n st' = Inr (k + 80 * n, x)"
  using assms
proof (induction n arbitrary: q k st st')
  case (Suc n)
  { case 1
    then obtain x where "su_Chunk m q st = Inr x" "su_Chunk w k st = Inr x"
      by (auto elim!: agreeE [OF agree_Chunk(1) [of m p w q k st]])
    with 1 Suc.IH(1) [of "q + 80" "k + 80" x] show ?case by (simp add: algebra_simps)
  next
    case 2
    then obtain x where "sa_Chunk m q st' = Inr x" "sa_Chunk w k st' = Inr x"
      by (auto elim!: agreeE [OF agree_Chunk(2) [of m p w q k st']])
    with 2 Suc.IH(2) [of "q + 80" "k + 80" x] show ?case by (simp add: algebra_simps) }
qed simp_all

lemma agree_Hash32Len80 [window_intros]:
  assumes "window m p w" "q = p + k" "80 \<le> len" "k + len \<le> length w"
  shows "agree (su_Hash32Len80 m q len st) (su_Hash32Len80 w k len st)"
    and "agree (sa_Hash32Len80 m q len st') (sa_Hash32Len80 w k len st')"
proof -
  define n r where "n = (len - 1) div 80" and "r = len - n * 80"
  have n: "80 * n + r = len" "n * 80 = 80 * n" "80 * n \<le> len" using assms(3) by (simp_all add: n_def r_def)
  have le: "k + 80 * n \<le> length w" "k + (80 * n + r - 80) + 80 \<le> length w" "q + 80 * n + r - 80 = p + (k + (80 * n + r - 80))"
    "k + 80 * n + r - 80 = k + (80 * n + r - 80)"
    using assms n by simp_all
  have defs: "su_Hash32Len80 m s len st = rbind (su_loop m s n (st\<lparr>vq := vg st\<rparr>)) (\<lambda>(s, st).
      if r \<noteq> 0 then su_Chunk m (s + r - 80) (st\<lparr>vh := v_Add (vh st) (mm_set1_epi32 (of_nat r))\<rparr>) else Inr st)"
    "sa_Hash32Len80 m s len st' = rbind (sa_loop m s n st') (\<lambda>(s, st).
      if r \<noteq> 0 then sa_Chunk m (s + r - 80) (st\<lparr>wh := v_Add (wh st) (mm_set1_epi32 (of_nat r))\<rparr>) else Inr st)"
    for m s
    unfolding su_Hash32Len80_def sa_Hash32Len80_def Let_def n_def [symmetric] r_def [symmetric] by (rule refl)+
  show "agree (su_Hash32Len80 m q len st) (su_Hash32Len80 w k len st)"
    using loop_agree(1) [OF assms(1,2) le(1), of "st\<lparr>vq := vg st\<rparr>"]
    by (auto simp: defs le(3,4) intro!: agree_Chunk [OF assms(1)] agree_Inr le(2))
  show "agree (sa_Hash32Len80 m q len st') (sa_Hash32Len80 w k len st')"
    using loop_agree(2) [OF assms(1,2) le(1), of st']
    by (auto simp: defs le(3,4) intro!: agree_Chunk [OF assms(1)] agree_Inr le(2))
qed

lemma agree_su_Hash32 [window_intros]:
  "window m p w \<Longrightarrow> q = p + k \<Longrightarrow> k + len \<le> length w \<Longrightarrow> can_use_sse42 B \<Longrightarrow> can_use_aesni B \<Longrightarrow>
    agree (su_Hash32 B m q len) (su_Hash32 B w k len)"
  by (auto simp: su_Hash32_def intro!: agree_bind finish_returns window_intros)

lemma agree_sa_Hash32 [window_intros]:
  "window m p w \<Longrightarrow> q = p + k \<Longrightarrow> k + len \<le> length w \<Longrightarrow> can_use_sse42 B \<Longrightarrow>
    agree (sa_Hash32 B m q len) (sa_Hash32 B w k len)"
  by (auto simp: sa_Hash32_def intro!: agree_bind finish_returns window_intros)

lemma agree_crc_Hash32WithSeed [window_intros]:
  assumes "window m p w" "q = p + k" "k + len \<le> length w" "can_use_sse42 B"
  shows "can_use_aesni B \<Longrightarrow> agree (su_Hash32WithSeed B m q len seed) (su_Hash32WithSeed B w k len seed)"
    and "agree (sa_Hash32WithSeed B m q len seed) (sa_Hash32WithSeed B w k len seed)"
  using assms by (auto simp: su_Hash32WithSeed_def sa_Hash32WithSeed_def intro!: window_intros)

end
