(* ===== verification/City_Crc.thy ===== *)
theory City_Crc
  imports Simd City_Hash
begin

unbundle bit_operations_syntax

text \<open>
  The section of \<open>src/util/hash/city_hash.cpp\<close> for processors with SSE 4.2: \<open>CityHashCrc256\<close>, which mixes
  eleven 64-bit variables with the checksum instruction, and the 128-bit hashes on top of it. The array
  \<open>result\<close> of four words that the functions fill is their value.
\<close>

section \<open>Chunks\<close>

record crc_state =
  sa :: u64
  sb :: u64
  sc :: u64
  sd :: u64
  se :: u64
  sf :: u64
  sg :: u64
  sh :: u64
  sx :: u64
  sy :: u64
  sz :: u64

text \<open>The macro \<open>CHUNK(r)\<close> without its last step, \<open>s += 40\<close>.\<close>

definition CHUNK :: "nat \<Rightarrow> bytes \<Rightarrow> nat \<Rightarrow> crc_state \<Rightarrow> crc_state res" where
  "CHUNK r m s st =
     (let a = sa st; b = sb st; c = sc st; d = sd st; e = se st; f = sf st; g = sg st; h = sh st;
          x = sx st; y = sy st; z = sz st;
          (x, z, y) = PERMUTE3 x z y in
      rbind (Fetch64 m s) (\<lambda>t. let b = b + t in
      rbind (Fetch64 m (s + 8)) (\<lambda>t. let c = c + t in
      rbind (Fetch64 m (s + 16)) (\<lambda>t. let d = d + t in
      rbind (Fetch64 m (s + 24)) (\<lambda>t. let e = e + t in
      rbind (Fetch64 m (s + 32)) (\<lambda>t. let f = f + t;
        a = a + b;
        h = h + f;
        b = b + c;
        f = f + d;
        g = g + e;
        e = e + z;
        g = g + x;
        z = mm_crc32_u64 z (b + g);
        y = mm_crc32_u64 y (e + h);
        x = mm_crc32_u64 x (f + a);
        e = Rotate e r;
        c = c + e in
      Inr \<lparr>sa = a, sb = b, sc = c, sd = d, se = e, sf = f, sg = g, sh = h, sx = x, sy = y, sz = z\<rparr>))))))"

text \<open>The body of the first loop: six chunks, each followed by a permutation of three variables.\<close>

definition Crc256_body :: "bytes \<Rightarrow> nat \<Rightarrow> crc_state \<Rightarrow> crc_state res" where
  "Crc256_body m s st =
     rbind (CHUNK 0 m s st) (\<lambda>st.
     let (a, h, c) = PERMUTE3 (sa st) (sh st) (sc st); st = st\<lparr>sa := a, sh := h, sc := c\<rparr> in
     rbind (CHUNK 33 m (s + 40) st) (\<lambda>st.
     let (a, h, f) = PERMUTE3 (sa st) (sh st) (sf st); st = st\<lparr>sa := a, sh := h, sf := f\<rparr> in
     rbind (CHUNK 0 m (s + 80) st) (\<lambda>st.
     let (b, h, f) = PERMUTE3 (sb st) (sh st) (sf st); st = st\<lparr>sb := b, sh := h, sf := f\<rparr> in
     rbind (CHUNK 42 m (s + 120) st) (\<lambda>st.
     let (b, h, d) = PERMUTE3 (sb st) (sh st) (sd st); st = st\<lparr>sb := b, sh := h, sd := d\<rparr> in
     rbind (CHUNK 0 m (s + 160) st) (\<lambda>st.
     let (b, h, e) = PERMUTE3 (sb st) (sh st) (se st); st = st\<lparr>sb := b, sh := h, se := e\<rparr> in
     rbind (CHUNK 33 m (s + 200) st) (\<lambda>st.
     let (a, h, e) = PERMUTE3 (sa st) (sh st) (se st); st = st\<lparr>sa := a, sh := h, se := e\<rparr> in
     Inr st))))))"

text \<open>\<open>iters\<close> is positive, so that the decrement does not wrap. The address behind the chunks is part of the result.\<close>

fun Crc256_loop :: "bytes \<Rightarrow> nat \<Rightarrow> nat \<Rightarrow> crc_state \<Rightarrow> (nat \<times> crc_state) res" where
  "Crc256_loop m s iters st =
     rbind (Crc256_body m s st) (\<lambda>st.
     if iters - 1 > 0 then Crc256_loop m (s + 240) (iters - 1) st else Inr (s + 240, st))"

declare Crc256_loop.simps [simp del]

definition Crc256_twist :: "nat \<Rightarrow> nat \<Rightarrow> nat \<Rightarrow> nat \<Rightarrow> crc_state \<Rightarrow> crc_state" where
  "Crc256_twist i j k l st =
     st\<lparr>se := se st XOR Rotate (sa st) i, sh := sh st + Rotate (sb st) j,
        sg := sg st XOR Rotate (sc st) k, sf := sf st + Rotate (sd st) l\<rparr>"

fun Crc256_rest :: "bytes \<Rightarrow> nat \<Rightarrow> nat \<Rightarrow> crc_state \<Rightarrow> (nat \<times> nat \<times> crc_state) res" where
  "Crc256_rest m s len st =
     (if len \<ge> 40 then
        rbind (CHUNK 29 m s st) (\<lambda>st.
        let st = Crc256_twist 20 30 40 34 st;
            (c, h, g) = PERMUTE3 (sc st) (sh st) (sg st) in
        Crc256_rest m (s + 40) (len - 40) (st\<lparr>sc := c, sh := h, sg := g\<rparr>))
      else Inr (s, len, st))"

declare Crc256_rest.simps [simp del]

section \<open>The hash functions\<close>

text \<open>The three loops over the key: of 240 bytes, of 40 bytes, and the last 40 bytes again where some are left.\<close>

definition Crc256_run :: "bytes \<Rightarrow> nat \<Rightarrow> nat \<Rightarrow> crc_state \<Rightarrow> crc_state res" where
  "Crc256_run m s len st =
     rbind (Crc256_loop m s (len div 240) st) (\<lambda>(s, st).
     rbind (Crc256_rest m s (len - len div 240 * 240) st) (\<lambda>(s, len, st).
     if len > 0 then
       let s = s + len - 40 in
       rbind (CHUNK 33 m s st) (\<lambda>st. Inr (Crc256_twist 43 42 41 40 st))
     else Inr st))"

text \<open>The steps behind the loops; \<open>result0\<close> and \<open>result1\<close> were set before them.\<close>

definition Crc256_end :: "u64 \<Rightarrow> u64 \<Rightarrow> crc_state \<Rightarrow> u64 list" where
  "Crc256_end result0 result1 st =
     (let a = sa st; b = sb st; c = sc st; d = sd st; e = se st; f = sf st; g = sg st; h = sh st;
          x = sx st; y = sy st; z = sz st;
          result0 = result0 XOR h;
          result1 = result1 XOR g;
          g = g + h;
          a = HashLen16 a (g + z);
          x = x + push_bit 32 y;
          b = b + x;
          c = HashLen16 c z + h;
          d = HashLen16 d (e + result0);
          g = g + e;
          h = h + HashLen16 x f;
          e = HashLen16 a d + g;
          z = HashLen16 b c + a;
          y = HashLen16 g h + c;
          result0 = e + z + y + x;
          a = ShiftMix ((a + y) * k0) * k0 + b;
          result1 = result1 + (a + result0);
          a = ShiftMix (a * k0) * k0 + c;
          result2 = a + result1;
          a = ShiftMix ((a + e) * k0) * k0;
          result3 = a + result2 in
      [result0, result1, result2, result3])"

text \<open>Requires \<open>len >= 240\<close>.\<close>

definition CityHashCrc256Long :: "bytes \<Rightarrow> nat \<Rightarrow> nat \<Rightarrow> u32 \<Rightarrow> u64 list res" where
  "CityHashCrc256Long m s len seed =
     rbind (Fetch64 m (s + 56)) (\<lambda>t. let a = t + k0 in
     rbind (Fetch64 m (s + 96)) (\<lambda>t. let b = t + k0; result0 = HashLen16 b (of_nat len); c = result0 in
     rbind (Fetch64 m (s + 120)) (\<lambda>t. let result1 = t * k0 + of_nat len; d = result1 in
     rbind (Fetch64 m (s + 184)) (\<lambda>t. let e = t + ucast seed; f = 0; g = 0; h = c + d; x = ucast seed; y = 0; z = 0 in
     rbind (Crc256_run m s len
       \<lparr>sa = a, sb = b, sc = c, sd = d, se = e, sf = f, sg = g, sh = h, sx = x, sy = y, sz = z\<rparr>) (\<lambda>st.
     Inr (Crc256_end result0 result1 st))))))"

text \<open>Requires \<open>len < 240\<close>: the key is copied to a buffer on the stack.\<close>

definition CityHashCrc256Short :: "bytes \<Rightarrow> nat \<Rightarrow> nat \<Rightarrow> u64 list res" where
  "CityHashCrc256Short m s len =
     rbind (view m s len) (\<lambda>key.
     let buf = key @ replicate (240 - len) 0 in
     CityHashCrc256Long buf 0 240 (NOT (of_nat len)))"

definition CityHashCrc256 :: "bytes \<Rightarrow> nat \<Rightarrow> nat \<Rightarrow> u64 list res" where
  "CityHashCrc256 m s len =
     (if len \<ge> 240 then CityHashCrc256Long m s len 0 else CityHashCrc256Short m s len)"

definition CityHashCrc128WithSeed :: "bytes \<Rightarrow> nat \<Rightarrow> nat \<Rightarrow> uint128 \<Rightarrow> uint128 res" where
  "CityHashCrc128WithSeed m s len seed =
     (if len \<le> 900 then CityHash128WithSeed m s len seed
      else
        rbind (CityHashCrc256 m s len) (\<lambda>result.
        rbind (rd result 0) (\<lambda>result0.
        rbind (rd result 1) (\<lambda>result1.
        rbind (rd result 2) (\<lambda>result2.
        rbind (rd result 3) (\<lambda>result3.
        let u = Uint128High64 seed + result0;
            v = Uint128Low64 seed + result1 in
        Inr (HashLen16 u (v + result2), HashLen16 (Rotate v 32) (u * k0 + result3))))))))"

definition CityHashCrc128 :: "bytes \<Rightarrow> nat \<Rightarrow> nat \<Rightarrow> uint128 res" where
  "CityHashCrc128 m s len =
     (if len \<le> 900 then CityHash128 m s len
      else
        rbind (CityHashCrc256 m s len) (\<lambda>result.
        rbind (rd result 2) (\<lambda>result2.
        rbind (rd result 3) (\<lambda>result3. Inr (result2, result3)))))"

section \<open>Every load is inside the key\<close>

lemma agree_CHUNK [window_intros]:
  "window m p w \<Longrightarrow> q = p + k \<Longrightarrow> k + 40 \<le> length w \<Longrightarrow> agree (CHUNK r m q st) (CHUNK r w k st)"
  unfolding CHUNK_def by (intro window_intros; assumption?; simp)

lemma agree_Crc256_body [window_intros]:
  "window m p w \<Longrightarrow> q = p + k \<Longrightarrow> k + 240 \<le> length w \<Longrightarrow> agree (Crc256_body m q st) (Crc256_body w k st)"
  unfolding Crc256_body_def by (intro window_intros; assumption?; simp)

text \<open>The loops also return the address behind the bytes they took.\<close>

lemma Crc256_loop_agree:
  assumes "window m p w" "q = p + k" "0 < n" "k + 240 * n \<le> length w"
  shows "\<exists>st'. Crc256_loop m q n st = Inr (q + 240 * n, st') \<and> Crc256_loop w k n st = Inr (k + 240 * n, st')"
  using assms
proof (induction n arbitrary: q k st rule: less_induct)
  case (less n)
  then obtain st1 where st1: "Crc256_body m q st = Inr st1" "Crc256_body w k st = Inr st1"
    by (auto elim!: agreeE [OF agree_Crc256_body [of m p w q k st]])
  show ?case
  proof (cases "n = 1")
    case False
    have "240 + 240 * (n - 1) = 240 * n" using less.prems by (cases n) simp_all
    with False show ?thesis using less.IH [of "n - 1" "q + 240" "k + 240" st1] less.prems st1
      by (subst (1 2) Crc256_loop.simps) (simp add: add.assoc)
  qed (use st1 in \<open>subst (1 2) Crc256_loop.simps; simp\<close>)
qed

lemma Crc256_rest_agree:
  assumes "window m p w" "q = p + k" "k + len \<le> length w"
  shows "\<exists>st'. Crc256_rest m q len st = Inr (q + len div 40 * 40, len mod 40, st') \<and>
    Crc256_rest w k len st = Inr (k + len div 40 * 40, len mod 40, st')"
  using assms
proof (induction len arbitrary: q k st rule: less_induct)
  case (less len)
  show ?case
  proof (cases "len \<ge> 40")
    case True
    then obtain st1 where st1: "CHUNK 29 m q st = Inr st1" "CHUNK 29 w k st = Inr st1"
      using less.prems by (auto elim!: agreeE [OF agree_CHUNK [of m p w q k 29 st]])
    moreover have "len div 40 * 40 = 40 + (len - 40) div 40 * 40" "len mod 40 = (len - 40) mod 40"
      using True by (simp_all add: le_div_geq le_mod_geq)
    ultimately show ?thesis using less.IH [of "len - 40" "q + 40" "k + 40"] less.prems True
      by (subst (1 2) Crc256_rest.simps) (simp add: Let_def case_prod_beta add.assoc)
  qed (subst (1 2) Crc256_rest.simps; simp)
qed

lemma agree_Crc256_run [window_intros]:
  assumes "window m p w" "q = p + k" "240 \<le> len" "k + len \<le> length w"
  shows "agree (Crc256_run m q len st) (Crc256_run w k len st)"
proof -
  define n r where "n = len div 240" and "r = len - n * 240"
  have n: "0 < n" "240 * n + r = len" using assms(3) by (simp_all add: n_def r_def div_greater_zero_iff mult.commute)
  obtain st1 where st1: "Crc256_loop m q n st = Inr (q + 240 * n, st1)" "Crc256_loop w k n st = Inr (k + 240 * n, st1)"
    using Crc256_loop_agree [of m p w q k n st] assms n by auto
  obtain st2 where st2:
    "Crc256_rest m (q + 240 * n) r st1 = Inr (q + 240 * n + r div 40 * 40, r mod 40, st2)"
    "Crc256_rest w (k + 240 * n) r st1 = Inr (k + 240 * n + r div 40 * 40, r mod 40, st2)"
    using Crc256_rest_agree [of m p w "q + 240 * n" "k + 240 * n" r st1] assms n by auto
  have "240 * n + r div 40 * 40 + r mod 40 = len" "40 \<le> 240 * n" using n by simp_all
  then have "agree (CHUNK 33 m (q + 240 * n + r div 40 * 40 + r mod 40 - 40) st2)
      (CHUNK 33 w (k + 240 * n + r div 40 * 40 + r mod 40 - 40) st2)"
    using assms by (intro agree_CHUNK [OF assms(1)]) simp_all
  then show ?thesis unfolding Crc256_run_def n_def [symmetric] r_def [symmetric] st1 rbind.simps split_conv st2 Let_def
    by (intro agree_if agree_bind agree_Inr)
qed

lemma agree_CityHashCrc256Long [window_intros]:
  "window m p w \<Longrightarrow> q = p + k \<Longrightarrow> 240 \<le> len \<Longrightarrow> k + len \<le> length w \<Longrightarrow>
    agree (CityHashCrc256Long m q len seed) (CityHashCrc256Long w k len seed)"
  unfolding CityHashCrc256Long_def by (intro window_intros; assumption?; simp)

text \<open>The buffer of a short key is a memory of its own.\<close>

lemma agree_CityHashCrc256 [window_intros]:
  assumes "window m p w" "q = p + k" "k + len \<le> length w"
  shows "agree (CityHashCrc256 m q len) (CityHashCrc256 w k len)"
proof (cases "240 \<le> len")
  case True
  with assms show ?thesis unfolding CityHashCrc256_def by (simp add: agree_CityHashCrc256Long)
next
  case False
  define b where "b = take len (drop k w) @ replicate (240 - len) (0 :: u8)"
  have "length b = 240" using False assms(3) by (simp add: b_def)
  then have "agree (CityHashCrc256Long b 0 240 seed) (CityHashCrc256Long b 0 240 seed)" for seed
    by (intro agree_CityHashCrc256Long [of b 0 b]) (simp_all add: window_def)
  with False show ?thesis
    using window_view [OF assms(1,3)] assms(2) by (simp add: CityHashCrc256_def CityHashCrc256Short_def b_def)
qed

lemma length_CityHashCrc256: "CityHashCrc256 m s len = Inr result \<Longrightarrow> length result = 4"
  by (auto simp: CityHashCrc256_def CityHashCrc256Short_def CityHashCrc256Long_def Crc256_end_def Let_def
      rbind_eq_Inr_iff split: if_splits)

lemma agree_CityHashCrc128 [window_intros]:
  assumes "window m p w" "q = p + k" "k + len \<le> length w"
  shows "agree (CityHashCrc128 m q len) (CityHashCrc128 w k len)"
    and "agree (CityHashCrc128WithSeed m q len seed) (CityHashCrc128WithSeed w k len seed)"
proof -
  obtain result where r: "CityHashCrc256 m q len = Inr result" "CityHashCrc256 w k len = Inr result"
    using agree_CityHashCrc256 [OF assms] by (auto elim: agreeE)
  have "length result = 4" using r(1) by (rule length_CityHashCrc256)
  then have read: "rd result i = Inr (result ! i)" if "i < 4" for i using that by simp
  show "agree (CityHashCrc128 m q len) (CityHashCrc128 w k len)"
    using agree_CityHash128 [OF assms] r read by (simp add: CityHashCrc128_def agree_Inr)
  show "agree (CityHashCrc128WithSeed m q len seed) (CityHashCrc128WithSeed w k len seed)"
    using agree_CityHash128WithSeed [OF assms, of seed] r read by (simp add: CityHashCrc128WithSeed_def Let_def agree_Inr)
qed

interpretation city_crc256: key_hash CityHashCrc256
  by unfold_locales (intro window_intros; simp)

interpretation city_crc128: key_hash CityHashCrc128
  by unfold_locales (intro window_intros; simp)

interpretation city_crc128_seed: key_hash "\<lambda>m s len. CityHashCrc128WithSeed m s len seed" for seed
  by unfold_locales (intro window_intros; simp)

end
