(* ===== verification/Farm_Select.thy ===== *)
theory Farm_Select
  imports Farm_Crc City_Crc Farm_Cc
begin

unbundle bit_operations_syntax

text \<open>
  The functions of \<open>src/util/hash/farmhash.hpp\<close> whose implementation depends on the build, and the templates that
  pass a string on to them. A hash is taken from \<open>farmhashnt\<close>, \<open>farmhashsu\<close>, \<open>farmhashsa\<close> or \<open>farmhashmk\<close>, and from
  \<open>farmhashte\<close> or \<open>farmhashxo\<close>, depending on the instructions that the build may use.
\<close>

section \<open>Selection\<close>

definition farm_Hash32 :: "build \<Rightarrow> bytes \<Rightarrow> nat \<Rightarrow> nat \<Rightarrow> u32 res" where
  "farm_Hash32 B m s len =
     rbind (if can_use_sse41 B \<and> x86_64 B then nt_Hash32 B m s len
            else if can_use_sse42 B \<and> can_use_aesni B then su_Hash32 B m s len
            else if can_use_sse42 B then sa_Hash32 B m s len
            else mk_Hash32 m s len) (\<lambda>h. Inr (DebugTweak32 (debug_mode B) h))"

definition farm_Hash32WithSeed :: "build \<Rightarrow> bytes \<Rightarrow> nat \<Rightarrow> nat \<Rightarrow> u32 \<Rightarrow> u32 res" where
  "farm_Hash32WithSeed B m s len seed =
     rbind (if can_use_sse41 B \<and> x86_64 B then nt_Hash32WithSeed B m s len seed
            else if can_use_sse42 B \<and> can_use_aesni B then su_Hash32WithSeed B m s len seed
            else if can_use_sse42 B then sa_Hash32WithSeed B m s len seed
            else mk_Hash32WithSeed m s len seed) (\<lambda>h. Inr (DebugTweak32 (debug_mode B) h))"

definition farm_Hash64 :: "build \<Rightarrow> bytes \<Rightarrow> nat \<Rightarrow> nat \<Rightarrow> u64 res" where
  "farm_Hash64 B m s len =
     rbind (if can_use_sse42 B \<and> x86_64 B then te_Hash64 B m s len
            else xo_Hash64 m s len) (\<lambda>h. Inr (DebugTweak (debug_mode B) h))"

text \<open>\<open>sizeof(size_t)\<close> is 8 on the platforms of the program.\<close>

definition farm_Hash :: "build \<Rightarrow> bytes \<Rightarrow> nat \<Rightarrow> nat \<Rightarrow> u64 res" where
  "farm_Hash B m s len = farm_Hash64 B m s len"

section \<open>Strings\<close>

text \<open>The templates on a string of characters: its data, terminated by a zero, and its length. The size of a character,
  which they assert, is 1.\<close>

definition str_Hash :: "build \<Rightarrow> bytes \<Rightarrow> u64 res" where
  "str_Hash B s = farm_Hash B (c_str s) 0 (length s)"

definition str_Hash32 :: "build \<Rightarrow> bytes \<Rightarrow> u32 res" where
  "str_Hash32 B s = farm_Hash32 B (c_str s) 0 (length s)"

definition str_Hash32WithSeed :: "build \<Rightarrow> bytes \<Rightarrow> u32 \<Rightarrow> u32 res" where
  "str_Hash32WithSeed B s seed = farm_Hash32WithSeed B (c_str s) 0 (length s) seed"

definition str_Hash64 :: "build \<Rightarrow> bytes \<Rightarrow> u64 res" where
  "str_Hash64 B s = farm_Hash64 B (c_str s) 0 (length s)"

definition str_Hash64WithSeed :: "build \<Rightarrow> bytes \<Rightarrow> u64 \<Rightarrow> u64 res" where
  "str_Hash64WithSeed B s seed = Hash64WithSeed (debug_mode B) (c_str s) 0 (length s) seed"

definition str_Hash64WithSeeds :: "build \<Rightarrow> bytes \<Rightarrow> u64 \<Rightarrow> u64 \<Rightarrow> u64 res" where
  "str_Hash64WithSeeds B s seed0 seed1 = Hash64WithSeeds (debug_mode B) (c_str s) 0 (length s) seed0 seed1"

definition str_Hash128 :: "build \<Rightarrow> bytes \<Rightarrow> uint128 res" where
  "str_Hash128 B s = farm_Hash128 (debug_mode B) (c_str s) 0 (length s)"

definition str_Fingerprint32 :: "bytes \<Rightarrow> u32 res" where
  "str_Fingerprint32 s = Fingerprint32 (c_str s) 0 (length s)"

definition str_Fingerprint64 :: "bytes \<Rightarrow> u64 res" where
  "str_Fingerprint64 s = Fingerprint64 (c_str s) 0 (length s)"

definition str_Fingerprint128 :: "bytes \<Rightarrow> uint128 res" where
  "str_Fingerprint128 s = Fingerprint128 (c_str s) 0 (length s)"

section \<open>Every load is inside the key\<close>

lemma agree_farm_Hash32:
  assumes "window m p w" "q = p + k" "k + len \<le> length w"
  shows "agree (farm_Hash32 B m q len) (farm_Hash32 B w k len)"
    and "agree (farm_Hash32WithSeed B m q len seed) (farm_Hash32WithSeed B w k len seed)"
  using assms by (auto simp: farm_Hash32_def farm_Hash32WithSeed_def intro!: window_intros)

interpretation farm32: key_hash "farm_Hash32 B" for B
  by unfold_locales (rule agree_farm_Hash32(1) [OF _ refl])

interpretation farm32_seed: key_hash "\<lambda>m s len. farm_Hash32WithSeed B m s len seed" for B seed
  by unfold_locales (rule agree_farm_Hash32(2) [OF _ refl])

text \<open>\<open>Hash64\<close> asks for SSE 4.2 where \<open>farmhashte\<close> asks for SSE 4.1.\<close>

definition misconfigured :: "build \<Rightarrow> bool" where
  "misconfigured B \<longleftrightarrow> x86_64 B \<and> can_use_sse42 B \<and> \<not> can_use_sse41 B"

lemma farm_Hash64_misconfigured:
  "misconfigured B \<Longrightarrow> farm_Hash64 B m s len = Inl (if len mod 17 = 0 then NullDeref else OutOfBounds)"
  by (simp add: misconfigured_def farm_Hash64_def te_Hash64_def te_refuse_Hash64_def die_if_misconfigured_def)

lemma key_hash_farm_Hash64: "\<not> misconfigured B \<Longrightarrow> key_hash (farm_Hash64 B)"
  by unfold_locales (auto simp: misconfigured_def farm_Hash64_def intro!: window_intros)

lemma farm_Hash64_short:
  "\<not> misconfigured B \<Longrightarrow> len < 512 \<Longrightarrow>
    farm_Hash64 B m s len = rbind (xo_Hash64 m s len) (\<lambda>h. Inr (DebugTweak (debug_mode B) h))"
  by (simp add: misconfigured_def farm_Hash64_def te_Hash64_def)

text \<open>\<open>Hash64\<close> of a key of less than 512 bytes does not depend on the instructions that a build may use.\<close>

lemma short_keys_hash_alike:
  assumes "\<not> misconfigured B" "\<not> misconfigured B'" "debug_mode B = debug_mode B'" "len < 512"
  shows "farm_Hash64 B m s len = farm_Hash64 B' m s len"
  using assms by (simp add: farm_Hash64_short)

section \<open>Properties\<close>

text \<open>Property C13. The hash functions read the bytes of their key only: on a memory that holds the key
  between other bytes, the eight entry points \<open>CityHash32\<close>, \<open>CityHash128\<close>, \<open>CityHash64WithSeed\<close>, \<open>CityHashCrc256\<close>
  and \<open>CityHashCrc128\<close> of CityHash and \<open>Hash64WithSeed\<close>, \<open>Hash32\<close> and \<open>Hash64\<close> of FarmHash return the value they
  give on the key alone, for every length of key, every seed and every build; no load leaves the key and no assertion fails. The only
  exception is \<open>Hash64\<close> in a build for x86-64 that may use SSE 4.2 and not SSE 4.1, which
  stops the program with a write to one of the first 17 addresses.\<close>

theorem hashes_read_key_only:
  "CityHash32 (pre @ key @ post) (length pre) (length key) = Inr (digest CityHash32 key) \<and>
   CityHash128 (pre @ key @ post) (length pre) (length key) = Inr (digest CityHash128 key) \<and>
   CityHash64WithSeed (pre @ key @ post) (length pre) (length key) seed =
     Inr (digest (\<lambda>m s len. CityHash64WithSeed m s len seed) key) \<and>
   CityHashCrc256 (pre @ key @ post) (length pre) (length key) = Inr (digest CityHashCrc256 key) \<and>
   CityHashCrc128 (pre @ key @ post) (length pre) (length key) = Inr (digest CityHashCrc128 key) \<and>
   Hash64WithSeed (debug_mode B) (pre @ key @ post) (length pre) (length key) seed =
     Inr (digest (\<lambda>m s len. Hash64WithSeed (debug_mode B) m s len seed) key) \<and>
   farm_Hash32 B (pre @ key @ post) (length pre) (length key) = Inr (digest (farm_Hash32 B) key) \<and>
   farm_Hash64 B (pre @ key @ post) (length pre) (length key) =
     (if misconfigured B then Inl (if length key mod 17 = 0 then NullDeref else OutOfBounds)
      else Inr (digest (farm_Hash64 B) key))"
  by (intro conjI city32.inside city128.inside city64_seed.inside city_crc256.inside city_crc128.inside
      farm64_seed.inside farm32.inside)
    (simp add: farm_Hash64_misconfigured key_hash.inside [OF key_hash_farm_Hash64])

end
