(* ===== verification/Db_Run.thy ===== *)
theory Db_Run
  imports Export_Db
begin

text \<open>
  Clients and workers together. A run of the database is a sequence of requests of clients and rounds
  of the workers' threads, in any order. The specification is a map per shard in which the first write of
  a key wins; \<open>serve\<close> says what a shard answers to its requests.
\<close>

section \<open>Runs\<close>

text \<open>A round of worker \<open>i\<close> on the parts the database owns.\<close>

definition DB_round :: "'t db_env \<Rightarrow> nat \<Rightarrow> u64 \<Rightarrow> nat \<Rightarrow> 't DB \<Rightarrow> ('t DB \<times> db_event list) res" where
  "DB_round E i garbage uses d =
     rbind (deref_ptr (shared_memtable d)) (\<lambda>sh.
     rbind (deref_ptr (memviewtable_manager d)) (\<lambda>mgr.
     rbind (deref_ptr (db_comp_actor d)) (\<lambda>cact.
     rbind (rd (taskworkers sh) i) (\<lambda>w.
     rbind (TaskWorker_round (d_bt E) (d_hash E) garbage uses w mgr cact) (\<lambda>(w, mgr, cact, ev).
       Inr (d\<lparr>shared_memtable := Some (sh\<lparr>taskworkers := (taskworkers sh)[i := w]\<rparr>),
              memviewtable_manager := Some mgr, db_comp_actor := Some cact\<rparr>, ev))))))"

datatype db_step = Client db_op | Round nat u64 nat

text \<open>The events of a run carry the number of the worker.\<close>

fun DB_steps :: "'t db_env \<Rightarrow> db_step list \<Rightarrow> 't DB \<Rightarrow> ('t DB \<times> (nat \<times> db_event) list) res" where
  "DB_steps E [] d = Inr (d, [])"
| "DB_steps E (Client x # xs) d = rbind (DB_op E x d) (DB_steps E xs)"
| "DB_steps E (Round i garbage uses # xs) d =
     rbind (DB_round E i garbage uses d) (\<lambda>(d, ev).
     rbind (DB_steps E xs d) (\<lambda>(d, evs). Inr (d, map (Pair i) ev @ evs)))"

section \<open>What a shard answers\<close>

definition reply :: "(bytes \<rightharpoonup> bytes) \<Rightarrow> GetContext \<Rightarrow> GetContext" where
  "reply m g = (case m (get_key g) of
      None \<Rightarrow> g\<lparr>get_code := setCode kNotFound (get_code g)\<rparr>
    | Some v \<Rightarrow> g\<lparr>get_value := v, get_code := setCode kOk (get_code g)\<rparr>)"

definition kv_put :: "SetContext \<Rightarrow> (bytes \<rightharpoonup> bytes) \<Rightarrow> (bytes \<rightharpoonup> bytes)" where
  "kv_put c m = (if m (set_key c) = None then m(set_key c \<mapsto> recalled c) else m)"

fun kv_task :: "Memtask \<Rightarrow> (bytes \<rightharpoonup> bytes) \<Rightarrow> (bytes \<rightharpoonup> bytes)" where
  "kv_task (SetTask c) m = kv_put c m"
| "kv_task t m = m"

fun kv_event :: "Memtask \<Rightarrow> (bytes \<rightharpoonup> bytes) \<Rightarrow> db_event list" where
  "kv_event (GetTask g) m = callback (reply m g) @ [GetDone (reply m g)]"
| "kv_event t m = []"

fun serve :: "(bytes \<rightharpoonup> bytes) \<Rightarrow> Memtask list \<Rightarrow> db_event list" where
  "serve m [] = []"
| "serve m (t # ts) = kv_event t m @ serve (kv_task t m) ts"

definition kv_after :: "(bytes \<rightharpoonup> bytes) \<Rightarrow> Memtask list \<Rightarrow> (bytes \<rightharpoonup> bytes)" where
  "kv_after m ts = fold kv_task ts m"

fun got :: "Memtask \<Rightarrow> bytes list" where
  "got (GetTask g) = [get_key g]"
| "got t = []"

fun weight :: "Memtask \<Rightarrow> nat" where
  "weight (SetTask c) = length (stored_rec c)"
| "weight t = 0"

text \<open>A set whose value can be read back: its number takes at most one byte more than the length of the value.\<close>

definition readable :: "SetContext \<Rightarrow> bool" where
  "readable c \<longleftrightarrow> storable c \<and> varintLength (set_number c) \<le> varintLength (size64 (set_value c)) + 1"

lemma readable_answer: "readable c \<Longrightarrow> set_answer c g = Inr (g\<lparr>get_value := recalled c, get_code := setCode kOk (get_code g)\<rparr>)"
  by (simp add: readable_def set_answer_def)

lemma aligned_readable: "aligned c \<Longrightarrow> readable c"
  using aligned_storable(1) by (simp add: readable_def aligned_def)

lemma length_recalled: "length (recalled c) \<le> length (set_value c)"
  by (simp add: recalled_def Let_def)

text \<open>Requests the worker handles well; \<open>cold\<close> is the size of the cache's first segment.\<close>

fun fine :: "u32 \<Rightarrow> Memtask \<Rightarrow> bool" where
  "fine cold (SetTask c) \<longleftrightarrow> readable c \<and> unat cold + length (set_key c) + length (set_value c) \<le> 2 ^ 32"
| "fine cold (GetTask g) \<longleftrightarrow> unat cold + length (get_key g) < 2 ^ 32"
| "fine cold (DeleteTask d) \<longleftrightarrow> False"
| "fine cold (SnapShotTask s) \<longleftrightarrow> True"

lemma serve_append: "serve m (ts @ us) = serve m ts @ serve (kv_after m ts) us"
  by (induction ts arbitrary: m) (simp_all add: kv_after_def)

lemma kv_after_append: "kv_after m (ts @ us) = kv_after (kv_after m ts) us"
  by (simp add: kv_after_def)

section \<open>A worker\<close>

text \<open>The memtable holds the map, the cache holds keys that were asked for.\<close>

definition holds :: "'t btree_api \<Rightarrow> hashers \<Rightarrow> u32 \<Rightarrow> (bytes \<rightharpoonup> bytes) \<Rightarrow> 't Memtable \<Rightarrow> bool" where
  "holds B H cold m mt \<longleftrightarrow> btree_set.mt_ok B H mt \<and>
     (\<forall>k. m k = None \<longrightarrow> btree_set.entry_of B mt k = None) \<and>
     (\<forall>k v. m k = Some v \<longrightarrow> (\<exists>c. fine cold (SetTask c) \<and> set_key c = k \<and> recalled c = v \<and>
        btree_set.entry_of B mt k = Some (stored_rec c)))"

definition cache_fine :: "u32 \<Rightarrow> u32 \<Rightarrow> bytes set \<Rightarrow> kLRUCache \<Rightarrow> bool" where
  "cache_fine cold hot ks c \<longleftrightarrow> lru_reach cold hot c \<and> dom (cache_map c) \<subseteq> ks"

lemma holds_Some:
  assumes "holds B H cold m mt" "m k = Some v"
  obtains c where "fine cold (SetTask c)" "set_key c = k" "recalled c = v" "btree_set.entry_of B mt k = Some (stored_rec c)"
  using assms unfolding holds_def by blast

lemma holds_get:
  assumes "btree_set B" "holds B H cold m mt" "short (get_key g)"
  shows "Memtable_Get B H g mt = Inr (reply m g)"
proof (cases "m (get_key g)")
  case None
  then show ?thesis
    using btree_set.Memtable_Get_entry_of [OF assms(1) _ assms(3), of H mt] assms(2) by (simp add: holds_def reply_def)
next
  case (Some v)
  obtain c where "readable c" "recalled c = v" "btree_set.entry_of B mt (get_key g) = Some (stored_rec c)"
    using holds_Some [OF assms(2) Some] by auto
  then show ?thesis
    using btree_set.Memtable_Get_entry_of [OF assms(1) _ assms(3), of H mt] assms(2) Some
    by (simp add: holds_def reply_def Get_decode_stored readable_answer) (simp add: readable_def storable_def
        Get_decode_stored readable_answer)
qed

lemma Memtable_Set_memSize:
  assumes "Memtable_Set B H c mt = Inr mt'" "Set_entry c = Inr e"
  shows "unat (memSize mt') \<le> unat (memSize mt) + length e \<and> memtable_number mt' = memtable_number mt"
proof -
  have "unat (memSize mt + of_nat (length e)) \<le> unat (memSize mt) + length e"
    by (simp add: unat_word_ariths unat_of_nat mod_simps)
  then show ?thesis
    using assms by (auto simp: Memtable_Set_def rbind_eq_Inr_iff Let_def)
qed

lemma holds_set:
  assumes "btree_set B" "holds B H cold m mt" "fine cold (SetTask c)"
  shows "\<exists>mt'. Memtable_Set B H c mt = Inr mt' \<and> holds B H cold (kv_put c m) mt' \<and>
    unat (memSize mt') \<le> unat (memSize mt) + length (stored_rec c) \<and> memtable_number mt' = memtable_number mt"
proof -
  have c: "readable c" "short (set_key c)" "Set_entry c = Inr (stored_rec c)"
    using assms(3) Set_entry_eq by (auto simp: readable_def storable_def)
  obtain r where r: "stored_rec c = rec_head (set_key c) @ r" using stored_rec_head by blast
  have ok: "btree_set.mt_ok B H mt" using assms(2) by (simp add: holds_def)
  obtain mt' where mt': "Memtable_Set B H c mt = Inr mt'" "btree_set.mt_ok B H mt'"
    "btree_set.entry_of B mt' = (if btree_set.entry_of B mt (set_key c) = None
      then (btree_set.entry_of B mt)(set_key c \<mapsto> stored_rec c) else btree_set.entry_of B mt)"
    using btree_set.Memtable_Set_entry_of [OF assms(1) ok c(2,3) r] by blast
  have "m (set_key c) = None \<longleftrightarrow> btree_set.entry_of B mt (set_key c) = None"
    using assms(2) holds_Some [OF assms(2)] by (cases "m (set_key c)") (simp add: holds_def, fastforce)
  then have "holds B H cold (kv_put c m) mt'"
    using assms(2,3) mt'(2,3) by (auto simp: holds_def kv_put_def)
  then show ?thesis using mt'(1) Memtable_Set_memSize [OF mt'(1) c(3)] by blast
qed

text \<open>The cache on a key nobody asked for.\<close>

lemma cache_ok_dom: "cache_ok c \<Longrightarrow> dom (cache_map c) = dom (lru_lookup c)"
proof (intro set_eqI iffI)
  fix k assume ok: "cache_ok c" and "k \<in> dom (cache_map c)"
  then obtain g it where p: "cache_map c k = Some (g, it)" by auto
  show "k \<in> dom (lru_lookup c)" using lru_entry [OF ok p] by blast
next
  fix k assume "k \<in> dom (lru_lookup c)"
  then show "k \<in> dom (cache_map c)" by (cases "cache_map c k") (simp_all add: lru_lookup_def dom_def)
qed

lemma cache_fine_miss:
  "cache_fine cold hot ks c \<Longrightarrow> k \<notin> ks \<Longrightarrow> lru_get k v e c = Inr (False, v, e, c)"
  by (auto simp: cache_fine_def lru_get_def dom_def split: option.split)

lemma cache_fine_set:
  assumes "cache_fine cold hot ks c" "k \<notin> ks" "unat cold + length k + length v \<le> 2 ^ 32"
  shows "\<exists>c'. lru_set k v c = Inr c' \<and> cache_fine cold hot (insert k ks) c'"
proof -
  have none: "cache_map c k = None" using assms(1,2) by (auto simp: cache_fine_def)
  have ok: "cache_ok c" "below_limits c" "limits_fit c" "max_probation_mem_size c = cold"
    using lru_reach_ok assms(1) by (auto simp: cache_fine_def)
  obtain c' where c': "lru_set k v c = Inr c'" "cache_ok c'" "lru_lookup c' \<subseteq>\<^sub>m (lru_lookup c)(k \<mapsto> (True, v))"
    using lru_set_fresh [OF ok(1-3) none, of v] ok(4) assms(3) by auto
  have "dom (cache_map c') \<subseteq> insert k (dom (cache_map c))"
    using map_le_implies_dom_le [OF c'(3)] cache_ok_dom [OF ok(1)] cache_ok_dom [OF c'(2)] by simp
  moreover have "lru_reach cold hot c'"
    using reach_set [OF _ none assms(3) c'(1)] assms(1) by (simp add: cache_fine_def)
  ultimately show ?thesis using c'(1) assms(1) by (auto simp: cache_fine_def)
qed

lemma cache_fine_erase:
  assumes "cache_fine cold hot ks c" "k \<notin> ks" "unat cold + length k \<le> 2 ^ 32"
  shows "\<exists>c'. setEraseRecord k c = Inr c' \<and> cache_fine cold hot (insert k ks) c'"
proof -
  have none: "cache_map c k = None" using assms(1,2) by (auto simp: cache_fine_def)
  have ok: "cache_ok c" "below_limits c" "limits_fit c" "max_probation_mem_size c = cold"
    using lru_reach_ok assms(1) by (auto simp: cache_fine_def)
  obtain c' where c': "setEraseRecord k c = Inr c'" "cache_ok c'" "lru_lookup c' \<subseteq>\<^sub>m (lru_lookup c)(k \<mapsto> (False, []))"
    using setEraseRecord_fresh [OF ok(1-3) none] ok(4) assms(3) by auto
  have "dom (cache_map c') \<subseteq> insert k (dom (cache_map c))"
    using map_le_implies_dom_le [OF c'(3)] cache_ok_dom [OF ok(1)] cache_ok_dom [OF c'(2)] by simp
  moreover have "lru_reach cold hot c'"
    using reach_erase [OF _ none assms(3) c'(1)] assms(1) by (simp add: cache_fine_def)
  ultimately show ?thesis using c'(1) assms(1) by (auto simp: cache_fine_def)
qed

text \<open>The invariant of worker \<open>i\<close> between two tasks.\<close>

definition worker_fine ::
  "'t btree_api \<Rightarrow> hashers \<Rightarrow> u32 \<Rightarrow> u32 \<Rightarrow> nat \<Rightarrow> (bytes \<rightharpoonup> bytes) \<Rightarrow> bytes set \<Rightarrow> nat \<Rightarrow> 't TaskWorker \<Rightarrow> bool" where
  "worker_fine B H cold hot i m ks sz w \<longleftrightarrow> holds B H cold m (tw_memtable w) \<and> cache_fine cold hot ks (klrucache w) \<and>
     unat (memSize (tw_memtable w)) \<le> sz \<and> getMemNumber (tw_memtable w) = of_nat i \<and>
     readonly_memtable_vec w = [] \<and> remove_N w = preRemove_N w \<and> tw_memview w"

text \<open>No tables have been flushed: the view manager as it was created.\<close>

definition no_views :: "nat \<Rightarrow> 't MemTableViewManager \<Rightarrow> bool" where
  "no_views n mgr \<longleftrightarrow> mem_all_vec mgr = replicate n \<lparr>memtable_vec = [], vv_mtx = False, isCompaction = False\<rparr>"

lemma handle_get_serves:
  assumes "btree_set B" "worker_fine B H cold hot i m ks sz w" "no_views n mgr" "i < n" "n < 2 ^ 32"
    and "fine cold (GetTask g)" "get_key g \<notin> ks"
  shows "\<exists>lru. handle_get B H g w mgr = Inr (w\<lparr>klrucache := lru\<rparr>, mgr, kv_event (GetTask g) m) \<and>
    cache_fine cold hot (insert (get_key g) ks) lru"
proof -
  have w: "holds B H cold m (tw_memtable w)" "cache_fine cold hot ks (klrucache w)"
    "getMemNumber (tw_memtable w) = of_nat i" "readonly_memtable_vec w = []" "tw_memview w"
    using assms(2) by (simp_all add: worker_fine_def)
  have g: "short (get_key g)" "unat cold + length (get_key g) \<le> 2 ^ 32" using assms(6) by (simp_all add: short_def)
  note get = holds_get [OF assms(1) w(1) g(1)]
  have views: "getRequest B H (of_nat i) x mgr = Inr (x, mgr)" for x
    using assms(3-5) by (intro getRequest_no_views [OF _ refl]) (simp_all add: no_views_def unat_of_nat)
  show ?thesis
  proof (cases "m (get_key g)")
    case None
    obtain lru where "setEraseRecord (get_key g) (klrucache w) = Inr lru"
      "cache_fine cold hot (insert (get_key g) ks) lru"
      using cache_fine_erase [OF w(2) assms(7) g(2)] by blast
    then show ?thesis
      using get None w(3-5) views cache_fine_miss [OF w(2) assms(7)]
      by (intro exI [of _ lru]) (simp add: handle_get_def reply_def found_def Let_def)
  next
    case (Some v)
    obtain c where "fine cold (SetTask c)" "set_key c = get_key g" "recalled c = v"
      using holds_Some [OF w(1) Some] by blast
    then have "unat cold + length (get_key g) + length v \<le> 2 ^ 32" using length_recalled [of c] by auto
    from cache_fine_set [OF w(2) assms(7) this] obtain lru where "lru_set (get_key g) v (klrucache w) = Inr lru"
      "cache_fine cold hot (insert (get_key g) ks) lru" by blast
    then show ?thesis
      using get Some w(3-5) cache_fine_miss [OF w(2) assms(7)]
      by (intro exI [of _ lru]) (simp add: handle_get_def reply_def found_def Let_def)
  qed
qed

lemma handle_task_serves:
  assumes "btree_set B" "worker_fine B H cold hot i m ks sz w" "no_views n mgr" "i < n" "n < 2 ^ 32"
    and "fine cold t" "set (got t) \<inter> ks = {}"
  shows "\<exists>mt lru. handle_task B H t w mgr = Inr (w\<lparr>tw_memtable := mt, klrucache := lru\<rparr>, mgr, kv_event t m) \<and>
    worker_fine B H cold hot i (kv_task t m) (set (got t) \<union> ks) (sz + weight t) (w\<lparr>tw_memtable := mt, klrucache := lru\<rparr>)"
proof (cases t)
  case (SetTask c)
  have "holds B H cold m (tw_memtable w)" using assms(2) by (simp add: worker_fine_def)
  from holds_set [OF assms(1) this, of c] assms(6) SetTask obtain mt where
    "Memtable_Set B H c (tw_memtable w) = Inr mt" "holds B H cold (kv_put c m) mt"
    "unat (memSize mt) \<le> unat (memSize (tw_memtable w)) + length (stored_rec c)" "memtable_number mt = memtable_number (tw_memtable w)"
    by auto
  then show ?thesis
    using assms(2) SetTask
    by (intro exI [of _ mt] exI [of _ "klrucache w"]) (auto simp: worker_fine_def getMemNumber_def)
next
  case (GetTask g)
  then obtain lru where "handle_get B H g w mgr = Inr (w\<lparr>klrucache := lru\<rparr>, mgr, kv_event (GetTask g) m)"
    "cache_fine cold hot (insert (get_key g) ks) lru"
    using handle_get_serves [OF assms(1-5), of g] assms(6,7) by auto
  then show ?thesis
    using assms(2) GetTask
    by (intro exI [of _ "tw_memtable w"] exI [of _ lru]) (auto simp: worker_fine_def)
next
  case (SnapShotTask s)
  then show ?thesis
    using assms(2) by (intro exI [of _ "tw_memtable w"] exI [of _ "klrucache w"]) (auto simp: worker_fine_def)
qed (use assms(6) in simp)

lemma handle_tasks_serve:
  assumes "btree_set B" "no_views n mgr" "i < n" "n < 2 ^ 32"
    and "worker_fine B H cold hot i m ks sz w" "list_all (fine cold) ts"
    and "distinct (concat (map got ts))" "set (concat (map got ts)) \<inter> ks = {}"
  shows "\<exists>mt lru. handle_tasks B H ts w mgr = Inr (w\<lparr>tw_memtable := mt, klrucache := lru\<rparr>, mgr, serve m ts) \<and>
    worker_fine B H cold hot i (kv_after m ts) (set (concat (map got ts)) \<union> ks) (sz + sum_list (map weight ts))
      (w\<lparr>tw_memtable := mt, klrucache := lru\<rparr>)"
  using assms(5-8)
proof (induction ts arbitrary: w m ks sz)
  case Nil
  then show ?case by (intro exI [of _ "tw_memtable w"] exI [of _ "klrucache w"]) (simp add: kv_after_def)
next
  case (Cons t ts)
  obtain mt lru where 1: "handle_task B H t w mgr = Inr (w\<lparr>tw_memtable := mt, klrucache := lru\<rparr>, mgr, kv_event t m)"
    "worker_fine B H cold hot i (kv_task t m) (set (got t) \<union> ks) (sz + weight t) (w\<lparr>tw_memtable := mt, klrucache := lru\<rparr>)"
    using handle_task_serves [OF assms(1) Cons.prems(1) assms(2-4), of t] Cons.prems by auto
  have "set (concat (map got ts)) \<inter> (set (got t) \<union> ks) = {}" using Cons.prems(3,4) by auto
  from Cons.IH [OF 1(2) _ _ this] Cons.prems obtain mt' lru' where
    "handle_tasks B H ts (w\<lparr>tw_memtable := mt, klrucache := lru\<rparr>) mgr =
       Inr (w\<lparr>tw_memtable := mt', klrucache := lru'\<rparr>, mgr, serve (kv_task t m) ts)"
    "worker_fine B H cold hot i (kv_after (kv_task t m) ts) (set (concat (map got ts)) \<union> (set (got t) \<union> ks))
      (sz + weight t + sum_list (map weight ts)) (w\<lparr>tw_memtable := mt', klrucache := lru'\<rparr>)"
    by auto
  then show ?case
    using 1(1) by (intro exI [of _ mt'] exI [of _ lru']) (simp add: kv_after_def Un_ac add_ac)
qed

text \<open>A round below the size limit serves the queue and rotates nothing.\<close>

lemma round_serves:
  assumes "btree_set B" "no_views n mgr" "i < n" "n < 2 ^ 32"
    and "worker_fine B H cold hot i m ks sz w" "handle_vec w = []" "list_all (fine cold) (bg_handle_vec w)"
    and "distinct (concat (map got (bg_handle_vec w)))" "set (concat (map got (bg_handle_vec w))) \<inter> ks = {}"
    and "sz + sum_list (map weight (bg_handle_vec w)) < unat (maxMemTableSize w)"
  shows "\<exists>w'. TaskWorker_round B H garbage uses w mgr cact = Inr (w', mgr, cact, serve m (bg_handle_vec w)) \<and>
    worker_fine B H cold hot i (kv_after m (bg_handle_vec w)) (set (concat (map got (bg_handle_vec w))) \<union> ks)
      (sz + sum_list (map weight (bg_handle_vec w))) w' \<and>
    handle_vec w' = [] \<and> bg_handle_vec w' = [] \<and> maxMemTableSize w' = maxMemTableSize w"
proof -
  let ?ts = "bg_handle_vec w" and ?w = "w\<lparr>handle_vec := bg_handle_vec w, bg_handle_vec := []\<rparr>"
  have "worker_fine B H cold hot i m ks sz ?w" using assms(5) by (simp add: worker_fine_def)
  from handle_tasks_serve [OF assms(1-4) this assms(7-9)] obtain mt lru where
    h: "handle_tasks B H ?ts ?w mgr = Inr (?w\<lparr>tw_memtable := mt, klrucache := lru\<rparr>, mgr, serve m ?ts)" and
    ok: "worker_fine B H cold hot i (kv_after m ?ts) (set (concat (map got ?ts)) \<union> ks) (sz + sum_list (map weight ?ts))
      (?w\<lparr>tw_memtable := mt, klrucache := lru\<rparr>)"
    by blast
  have mt: "getMemNumber mt = of_nat i" "unat (memSize mt) < unat (maxMemTableSize w)" "tw_memview w" "remove_N w = preRemove_N w"
    using ok assms(10) by (simp_all add: worker_fine_def)
  have "rd (mem_all_vec mgr) (unat (of_nat i :: u32)) = Inr \<lparr>memtable_vec = [], vv_mtx = False, isCompaction = False\<rparr>"
    using assms(2-4) by (simp add: no_views_def unat_of_nat rd_def)
  then have "TaskWorker_round B H garbage uses w mgr cact =
      Inr (?w\<lparr>tw_memtable := mt, klrucache := lru, handle_vec := []\<rparr>, mgr, cact, serve m ?ts)"
    using h mt assms(6)
    by (simp add: TaskWorker_round_def Let_def getMemViewVecSize_def drop_flushed_def rotate_memtable_def getMemSize_def
        word_le_nat_alt)
  then show ?thesis using ok by (simp add: worker_fine_def)
qed

section \<open>The database\<close>

fun op_task :: "db_op \<Rightarrow> Memtask" where
  "op_task (OpSet c) = SetTask c"
| "op_task (OpGet g) = GetTask g"
| "op_task (OpDelete x) = DeleteTask x"
| "op_task (OpSnapshot sn) = SnapShotTask sn"

fun op_key :: "db_op \<Rightarrow> bytes" where
  "op_key (OpSet c) = set_key c"
| "op_key (OpGet g) = get_key g"
| "op_key (OpDelete x) = del_key x"
| "op_key (OpSnapshot sn) = []"

fun op_log :: "db_op \<Rightarrow> nat" where
  "op_log (OpSet c) = length (set_key c) + length (set_value c) + 25"
| "op_log x = 0"

fun set_or_get :: "db_op \<Rightarrow> bool" where
  "set_or_get (OpSet c) = True"
| "set_or_get (OpGet g) = True"
| "set_or_get x = False"

text \<open>The requests of shard \<open>i\<close> of \<open>n\<close>, and those that its rounds in a run get to see.\<close>

definition for_shard :: "hashers \<Rightarrow> nat \<Rightarrow> nat \<Rightarrow> db_op \<Rightarrow> Memtask list" where
  "for_shard H n i x = (if unat (std_hash H (op_key x)) mod n = i then [op_task x] else [])"

fun clients :: "db_step list \<Rightarrow> db_op list" where
  "clients [] = []"
| "clients (Client x # xs) = x # clients xs"
| "clients (Round i garbage uses # xs) = clients xs"

fun served :: "hashers \<Rightarrow> nat \<Rightarrow> nat \<Rightarrow> Memtask list \<Rightarrow> db_step list \<Rightarrow> Memtask list" where
  "served H n i pending [] = []"
| "served H n i pending (Client x # xs) = served H n i (pending @ for_shard H n i x) xs"
| "served H n i pending (Round j garbage uses # xs) =
     (if j = i then pending @ served H n i [] xs else served H n i pending xs)"

text \<open>Nothing is served out of order or twice.\<close>

lemma served_prefix:
  "\<exists>rest. pending @ concat (map (for_shard H n i) (clients xs)) = served H n i pending xs @ rest"
  by (induction H n i pending xs rule: served.induct) auto

text \<open>All requests of a shard are fine, no key is asked for twice, and the memtable has room.\<close>

definition tasks_fine :: "u32 \<Rightarrow> nat \<Rightarrow> Memtask list \<Rightarrow> bool" where
  "tasks_fine cold limit ts \<longleftrightarrow> list_all (fine cold) ts \<and> distinct (concat (map got ts)) \<and> sum_list (map weight ts) < limit"

definition db_fine ::
  "'t db_env \<Rightarrow> u32 \<Rightarrow> u32 \<Rightarrow> nat \<Rightarrow> nat \<Rightarrow> 't DB \<Rightarrow> db_spec \<Rightarrow> (nat \<Rightarrow> Memtask list) \<Rightarrow> bool" where
  "db_fine E cold hot limit n d s done \<longleftrightarrow> implements d s \<and> length (sp_queues s) = n \<and>
     (\<exists>sh mgr cact. shared_memtable d = Some sh \<and> memviewtable_manager d = Some mgr \<and> db_comp_actor d = Some cact \<and>
        no_views n mgr \<and> n < 2 ^ 32 \<and> length (taskworkers sh) = n \<and>
        (\<forall>i<n. worker_fine (d_bt E) (d_hash E) cold hot i (kv_after Map.empty (done i)) (set (concat (map got (done i))))
           (sum_list (map weight (done i))) (taskworkers sh ! i) \<and>
          handle_vec (taskworkers sh ! i) = [] \<and> unat (maxMemTableSize (taskworkers sh ! i)) = limit))"

text \<open>A request only changes the queue of its shard.\<close>

definition same_but_queue :: "'t TaskWorker \<Rightarrow> 't TaskWorker \<Rightarrow> bool" where
  "same_but_queue w w' \<longleftrightarrow> (\<exists>q. w' = w\<lparr>bg_handle_vec := q\<rparr>)"

lemma same_but_queue_refl [simp]: "same_but_queue w w"
  unfolding same_but_queue_def by (intro exI [of _ "bg_handle_vec w"]) simp

lemma add_to_workers:
  assumes "add_to j t sh = Inr sh'"
  shows "length (taskworkers sh') = length (taskworkers sh) \<and>
    (\<forall>i < length (taskworkers sh). same_but_queue (taskworkers sh ! i) (taskworkers sh' ! i))"
  using assms
  by (auto simp: add_to_def rbind_eq_Inr_iff rd_def addTask_def nth_list_update split: if_splits)
    (auto simp: same_but_queue_def)

lemma DB_op_workers:
  assumes "DB_op E x d = Inr d'" "set_or_get x" "shared_memtable d = Some sh"
  shows "\<exists>sh'. shared_memtable d' = Some sh' \<and> memviewtable_manager d' = memviewtable_manager d \<and>
    db_comp_actor d' = db_comp_actor d \<and> length (taskworkers sh') = length (taskworkers sh) \<and>
    (\<forall>i < length (taskworkers sh). same_but_queue (taskworkers sh ! i) (taskworkers sh' ! i))"
  using assms add_to_workers
  by (cases x) (fastforce simp: DB_Set_def DB_Get_def rbind_eq_Inr_iff deref_ptr_def SharedMemtable_Set_def
      SharedMemtable_Get_def case_prod_beta)+

lemma worker_fine_queue:
  "worker_fine B H cold hot i m ks sz w \<Longrightarrow> same_but_queue w w' \<Longrightarrow> worker_fine B H cold hot i m ks sz w' \<and>
     handle_vec w' = handle_vec w \<and> maxMemTableSize w' = maxMemTableSize w"
  by (auto simp: same_but_queue_def worker_fine_def)

lemma worker_queue:
  assumes "implements d s" "shared_memtable d = Some sh" "i < length (taskworkers sh)"
  shows "bg_handle_vec (taskworkers sh ! i) = sp_queues s ! i"
  using assms by (auto simp: implements_def) (metis nth_map)

lemma spec_op_queues:
  assumes "set_or_get x" "i < length (sp_queues s)"
  shows "sp_queues (spec_op E x s) ! i = sp_queues s ! i @ for_shard (d_hash E) (length (sp_queues s)) i x"
  using assms by (cases x) (auto simp: enqueue_def log_write_def home_def for_shard_def nth_list_update)

lemma spec_op_lengths:
  assumes "set_or_get x"
  shows "length (sp_queues (spec_op E x s)) = length (sp_queues s)"
    "length (concat (sp_log (spec_op E x s))) = length (concat (sp_log s)) + op_log x"
  using assms by (cases x; simp add: enqueue_def log_write_def length_set_log)+

lemma client_fine:
  assumes "db_fine E cold hot limit n d s done" "set_or_get x" "d_write E = write_all"
    and "length (concat (sp_log s)) + op_log x < unat kDefaultWalLogSize"
  shows "\<exists>d'. DB_op E x d = Inr d' \<and> db_fine E cold hot limit n d' (spec_op E x s) done"
proof -
  obtain sh mgr cact where d: "shared_memtable d = Some sh" "memviewtable_manager d = Some mgr" "db_comp_actor d = Some cact"
    "no_views n mgr" "n < 2 ^ 32" "length (taskworkers sh) = n" "implements d s" "length (sp_queues s) = n"
    and w: "\<And>i. i < n \<Longrightarrow> worker_fine (d_bt E) (d_hash E) cold hot i (kv_after Map.empty (done i))
        (set (concat (map got (done i)))) (sum_list (map weight (done i))) (taskworkers sh ! i) \<and>
      handle_vec (taskworkers sh ! i) = [] \<and> unat (maxMemTableSize (taskworkers sh ! i)) = limit"
    using assms(1) unfolding db_fine_def by blast
  have "length (concat (sp_log (spec_op E x s))) < unat kDefaultWalLogSize"
    using assms(4) by (simp only: spec_op_lengths(2) [OF assms(2)])
  from DB_op_refines [OF d(7) assms(3) this]
  obtain d' where d': "DB_op E x d = Inr d'" "implements d' (spec_op E x s)" by blast
  obtain sh' where sh': "shared_memtable d' = Some sh'" "memviewtable_manager d' = Some mgr" "db_comp_actor d' = Some cact"
    "length (taskworkers sh') = n" "\<And>i. i < n \<Longrightarrow> same_but_queue (taskworkers sh ! i) (taskworkers sh' ! i)"
    using DB_op_workers [OF d'(1) assms(2) d(1)] d(2,3,6) by auto
  have "worker_fine (d_bt E) (d_hash E) cold hot i (kv_after Map.empty (done i))
        (set (concat (map got (done i)))) (sum_list (map weight (done i))) (taskworkers sh' ! i) \<and>
      handle_vec (taskworkers sh' ! i) = [] \<and> unat (maxMemTableSize (taskworkers sh' ! i)) = limit" if "i < n" for i
    using worker_fine_queue [OF conjunct1 [OF w [OF that]] sh'(5) [OF that]] w [OF that] by simp
  then show ?thesis
    using d' sh' d(4,5,8) spec_op_lengths(1) [OF assms(2), of E s] unfolding db_fine_def by auto
qed

definition done_round :: "nat \<Rightarrow> db_spec \<Rightarrow> db_spec" where
  "done_round i s = s\<lparr>sp_queues := (sp_queues s)[i := []]\<rparr>"

lemma round_fine:
  assumes "btree_set (d_bt E)" "db_fine E cold hot limit n d s done" "i < n"
    and "tasks_fine cold limit (done i @ sp_queues s ! i)"
  shows "\<exists>d'. DB_round E i garbage uses d = Inr (d', serve (kv_after Map.empty (done i)) (sp_queues s ! i)) \<and>
    db_fine E cold hot limit n d' (done_round i s) (done(i := done i @ sp_queues s ! i))"
proof -
  obtain sh mgr cact where d: "shared_memtable d = Some sh" "memviewtable_manager d = Some mgr" "db_comp_actor d = Some cact"
    "no_views n mgr" "n < 2 ^ 32" "length (taskworkers sh) = n" "implements d s" "length (sp_queues s) = n"
    and w: "\<And>i. i < n \<Longrightarrow> worker_fine (d_bt E) (d_hash E) cold hot i (kv_after Map.empty (done i))
        (set (concat (map got (done i)))) (sum_list (map weight (done i))) (taskworkers sh ! i) \<and>
      handle_vec (taskworkers sh ! i) = [] \<and> unat (maxMemTableSize (taskworkers sh ! i)) = limit"
    using assms(2) unfolding db_fine_def by blast
  let ?q = "sp_queues s ! i"
  have q: "bg_handle_vec (taskworkers sh ! i) = ?q" using worker_queue [OF d(7,1)] d(6) assms(3) by simp
  note wi = conjunct1 [OF w [OF assms(3)]]
  have t: "list_all (fine cold) ?q" "distinct (concat (map got ?q))"
    "set (concat (map got ?q)) \<inter> set (concat (map got (done i))) = {}"
    "sum_list (map weight (done i)) + sum_list (map weight ?q) < limit"
    using assms(4) by (auto simp: tasks_fine_def)
  obtain w' where w': "TaskWorker_round (d_bt E) (d_hash E) garbage uses (taskworkers sh ! i) mgr cact =
      Inr (w', mgr, cact, serve (kv_after Map.empty (done i)) ?q)"
    "worker_fine (d_bt E) (d_hash E) cold hot i (kv_after (kv_after Map.empty (done i)) ?q)
      (set (concat (map got ?q)) \<union> set (concat (map got (done i))))
      (sum_list (map weight (done i)) + sum_list (map weight ?q)) w'"
    "handle_vec w' = []" "bg_handle_vec w' = []" "maxMemTableSize w' = maxMemTableSize (taskworkers sh ! i)"
    using round_serves [OF assms(1) d(4) assms(3) d(5) wi, where garbage = garbage and uses = uses and cact = cact] w [OF assms(3)] t
    unfolding q by auto
  let ?sh = "sh\<lparr>taskworkers := (taskworkers sh)[i := w']\<rparr>"
  let ?d = "d\<lparr>shared_memtable := Some ?sh, memviewtable_manager := Some mgr, db_comp_actor := Some cact\<rparr>"
  have "DB_round E i garbage uses d = Inr (?d, serve (kv_after Map.empty (done i)) ?q)"
    using d(1-3,6) w'(1) assms(3) by (simp add: DB_round_def deref_ptr_def)
  moreover have "implements ?d (done_round i s)"
    using d(1,7) w'(4) by (auto simp: implements_def done_round_def map_update)
  moreover have "worker_fine (d_bt E) (d_hash E) cold hot j (kv_after Map.empty ((done(i := done i @ ?q)) j))
        (set (concat (map got ((done(i := done i @ ?q)) j)))) (sum_list (map weight ((done(i := done i @ ?q)) j)))
        (taskworkers ?sh ! j) \<and>
      handle_vec (taskworkers ?sh ! j) = [] \<and> unat (maxMemTableSize (taskworkers ?sh ! j)) = limit" if "j < n" for j
    using w [OF that] w'(2,3,5) w [OF assms(3)] that d(6)
    by (cases "j = i") (simp_all add: kv_after_append Un_commute)
  ultimately show ?thesis
    using d(4-6,8) unfolding db_fine_def by (auto simp: done_round_def)
qed

fun step_fine :: "nat \<Rightarrow> db_step \<Rightarrow> bool" where
  "step_fine n (Client x) = set_or_get x"
| "step_fine n (Round i garbage uses) = (i < n)"

lemma tasks_fine_prefix: "tasks_fine cold limit (ts @ us) \<Longrightarrow> tasks_fine cold limit ts"
  by (auto simp: tasks_fine_def)

lemma DB_steps_serve:
  assumes "btree_set (d_bt E)" "d_write E = write_all"
    and "db_fine E cold hot limit n d s done" "list_all (step_fine n) xs"
    and "length (concat (sp_log s)) + sum_list (map op_log (clients xs)) < unat kDefaultWalLogSize"
    and "\<And>i. i < n \<Longrightarrow> tasks_fine cold limit
      (done i @ sp_queues s ! i @ concat (map (for_shard (d_hash E) n i) (clients xs)))"
  shows "\<exists>d' ev. DB_steps E xs d = Inr (d', ev) \<and> (\<forall>i<n. map snd (filter (\<lambda>e. fst e = i) ev) =
    serve (kv_after Map.empty (done i)) (served (d_hash E) n i (sp_queues s ! i) xs))"
  using assms(3-6)
proof (induction xs arbitrary: d s "done")
  case Nil
  then show ?case by simp
next
  case (Cons x xs)
  have n: "length (sp_queues s) = n" using Cons.prems(1) by (simp add: db_fine_def)
  show ?case
  proof (cases x)
    case (Client y)
    then have y: "set_or_get y" using Cons.prems(2) by simp
    obtain d1 where d1: "DB_op E y d = Inr d1" "db_fine E cold hot limit n d1 (spec_op E y s) done"
      using client_fine [OF Cons.prems(1) y assms(2)] Cons.prems(3) Client by auto
    have q: "sp_queues (spec_op E y s) ! i = sp_queues s ! i @ for_shard (d_hash E) n i y" if "i < n" for i
      using spec_op_queues [OF y, of i s E] that n by simp
    from Cons.IH [OF d1(2)] show ?thesis
      using Cons.prems(2-4) Client d1(1) q spec_op_lengths(2) [OF y, of E s] by simp
  next
    case (Round i garbage uses)
    then have i: "i < n" using Cons.prems(2) by simp
    have "tasks_fine cold limit (done i @ sp_queues s ! i)"
      using Cons.prems(4) [OF i] tasks_fine_prefix [of cold limit "done i @ sp_queues s ! i"] by simp
    from round_fine [OF assms(1) Cons.prems(1) i this, of garbage uses] obtain d1 where
      d1: "DB_round E i garbage uses d = Inr (d1, serve (kv_after Map.empty (done i)) (sp_queues s ! i))"
      "db_fine E cold hot limit n d1 (done_round i s) (done(i := done i @ sp_queues s ! i))"
      by blast
    have q: "sp_queues (done_round i s) ! j = (if j = i then [] else sp_queues s ! j)" if "j < n" for j
      using that n by (simp add: done_round_def nth_list_update)
    have "tasks_fine cold limit ((done(i := done i @ sp_queues s ! i)) j @ sp_queues (done_round i s) ! j @
        concat (map (for_shard (d_hash E) n j) (clients xs)))" if "j < n" for j
      using Cons.prems(4) [OF that] q [OF that] Round by (cases "j = i") simp_all
    from Cons.IH [OF d1(2) _ _ this] obtain d2 ev where d2: "DB_steps E xs d1 = Inr (d2, ev)"
      "\<forall>j<n. map snd (filter (\<lambda>e. fst e = j) ev) = serve (kv_after Map.empty ((done(i := done i @ sp_queues s ! i)) j))
        (served (d_hash E) n j (sp_queues (done_round i s) ! j) xs)"
      using Cons.prems(2,3) Round by (auto simp: done_round_def)
    let ?ev = "map (Pair i) (serve (kv_after Map.empty (done i)) (sp_queues s ! i)) @ ev"
    have "map snd (filter (\<lambda>e. fst e = j) ?ev) =
        serve (kv_after Map.empty (done j)) (served (d_hash E) n j (sp_queues s ! j) (x # xs))" if "j < n" for j
      using d2(2) that q [OF that] Round
      by (auto simp: comp_def filter_map serve_append kv_after_append)
    then show ?thesis using d1(1) d2(1) Round by auto
  qed
qed

text \<open>The requests of a shard are some of all.\<close>

lemma tasks_fine_shard:
  assumes "tasks_fine c l (map op_task xs)"
  shows "tasks_fine c l (concat (map (for_shard H n i) xs))"
proof -
  have sub: "set (concat (map got (concat (map (for_shard H n i) xs)))) \<subseteq> set (concat (map got (map op_task xs)))" for xs
    by (auto simp: for_shard_def split: if_splits)
  have "list_all (fine c) (concat (map (for_shard H n i) xs))"
    using assms by (induction xs) (auto simp: tasks_fine_def for_shard_def)
  moreover have "distinct (concat (map got (concat (map (for_shard H n i) xs))))"
    if "distinct (concat (map got (map op_task xs)))" for xs
    using that
  proof (induction xs)
    case (Cons x xs)
    then show ?case using sub [of xs] by (auto simp: for_shard_def)
  qed simp
  moreover have "sum_list (map weight (concat (map (for_shard H n i) xs))) \<le> sum_list (map weight (map op_task xs))"
    by (induction xs) (auto simp: for_shard_def)
  ultimately show ?thesis using assms by (auto simp: tasks_fine_def)
qed

section \<open>The start\<close>

lemma DB_Init_workers:
  assumes "DB_Init E cfg (DB_ctor g gc) = Inr (True, d)"
  shows "\<exists>sh mgr cact. shared_memtable d = Some sh \<and> memviewtable_manager d = Some mgr \<and> db_comp_actor d = Some cact \<and>
    no_views (unat (memtable_N cfg)) mgr \<and>
    taskworkers sh = map (\<lambda>i. (TaskWorker_make (d_bt E) (d_worker E) cfg False i)\<lparr>tw_compactor := True, tw_memview := True,
      tw_isRunning := True\<rparr>) [0..<unat (memtable_N cfg)]"
  using assms
  by (auto simp: DB_Init_def NewDBimp_def DB_ctor_def SharedMemtable_Init_def sh_SetCompactorRef_def SetMemTableViewRef_def
      SharedMemtable_Run_def rbind_eq_Inr_iff Let_def case_prod_beta comp_def no_views_def MemTableViewManager_Init_def)

lemma cache_start:
  assumes "5 \<le> unat s" "g3 = 0" "g4 = 0"
  shows "cache_fine (s div 5) ((s div 5) * 4) {} (kLRUCache_Init (s div 5) ((s div 5) * 4) (kLRUCache_default g1 g2 g3 g4))"
proof -
  have d: "unat (s div 5) = unat s div 5" by (simp add: unat_div)
  have "unat s < 4294967296" using unat_u32_less [of s] by simp
  moreover define q where "q = unat s div 5"
  moreover have "q * 5 \<le> unat s" by (simp add: q_def div_times_less_eq_dividend)
  ultimately have "q * 4 < 4294967296" "q + q * 4 \<le> 4294967296" by linarith+
  then have "unat s div 5 * 4 < 4294967296" "unat s div 5 + unat s div 5 * 4 \<le> 4294967296" by (simp_all only: q_def)
  moreover from this have m: "unat ((s div 5) * 4) = unat s div 5 * 4" by (simp add: unat_word_ariths d)
  moreover have "0 < unat s div 5" using assms(1) by (simp add: div_greater_zero_iff)
  ultimately have "lru_reach (s div 5) ((s div 5) * 4) (kLRUCache_ctor (s div 5) ((s div 5) * 4))"
    by (intro reach_ctor) (simp_all only: word_less_nat_alt d m unat_0, simp_all)
  moreover have "kLRUCache_Init (s div 5) ((s div 5) * 4) (kLRUCache_default g1 g2 g3 g4) =
      kLRUCache_ctor (s div 5) ((s div 5) * 4)"
    using assms(2,3) by (simp add: kLRUCache_Init_def kLRUCache_default_def kLRUCache_ctor_def)
  ultimately show ?thesis by (simp add: cache_fine_def kLRUCache_ctor_def)
qed

lemma holds_start: "btree_set B \<Longrightarrow> holds B H cold Map.empty (setNumber i (Memtable_ctor B g))"
  using btree_set.mt_ok_ctor [of B H g]
  by (simp add: holds_def setNumber_def btree_set.mt_ok_def btree_set.entry_of_def)

lemma DB_Init_fine:
  assumes "btree_set (d_bt E)" "d_opened E = (fd, [])" "fd > 0" "d_ring_init E = 0" "memtable_N cfg \<noteq> 0"
    and "5 \<le> unat (lru_cache_size cfg)" "probation_memory_usage (klrucache (d_worker E)) = 0"
    and "protected_memory_usage (klrucache (d_worker E)) = 0"
  defines "cold \<equiv> lru_cache_size cfg div 5"
  shows "\<exists>d. DB_Init E cfg (DB_ctor g gc) = Inr (True, d) \<and>
    db_fine E cold (cold * 4) (unat (memtable_trigger_size cfg)) (unat (memtable_N cfg)) d (spec_init (memtable_N cfg)) (\<lambda>_. [])"
proof -
  obtain d where d: "DB_Init E cfg (DB_ctor g gc) = Inr (True, d)" "implements d (spec_init (memtable_N cfg))"
    using DB_Init_implements [OF assms(2-5)] by blast
  have "worker_fine (d_bt E) (d_hash E) cold (cold * 4) i Map.empty {} 0
      ((TaskWorker_make (d_bt E) (d_worker E) cfg False i)\<lparr>tw_compactor := True, tw_memview := True, tw_isRunning := True\<rparr>)" for i
    using holds_start [OF assms(1)] cache_start [OF assms(6-8)]
    by (simp add: worker_fine_def TaskWorker_make_def cold_def getMemNumber_def setNumber_def Memtable_ctor_def)
  then have "worker_fine (d_bt E) (d_hash E) cold (cold * 4) i Map.empty {} 0
      ((TaskWorker_make (d_bt E) (d_worker E) cfg False i)\<lparr>tw_compactor := True, tw_memview := True, tw_isRunning := True\<rparr>)" for i .
  then show ?thesis
    using d DB_Init_workers [OF d(1)] unat_u32_less [of "memtable_N cfg"]
    by (auto simp: db_fine_def spec_init_def kv_after_def) (auto simp: TaskWorker_make_def)
qed

section \<open>Properties\<close>

text \<open>Property C1. Opened on an empty log, however requests to set and get and the rounds of the workers interleave,
  nothing fails and every worker answers the requests of its shard that its rounds have seen, in the order the clients
  made them, like a map in which the first write of a key wins: a get ends with what the record of the first set before
  it gives back (\<open>recalled\<close>, the value itself when its sequence number takes as many bytes as its length), or with
  \<open>kNotFound\<close>. This holds for requests without deletions, snapshots and repeated gets of one key (a second get of a key
  meets the cache, which may answer it wrongly), whose records fit and can be read back (\<open>readable\<close>), whose keys and
  values stay within the 32-bit counters of the cache, and which together stay below the size of a memtable and of the log, on files that take every write, and when the uninitialised counters of the
  caches happen to be zero.\<close>

theorem database_serves_clients:
  assumes "btree_set (d_bt E)" and "d_opened E = (fd, [])" and "fd > 0" and "d_ring_init E = 0" and "memtable_N cfg \<noteq> 0"
    and "d_write E = write_all" and "5 \<le> unat (lru_cache_size cfg)"
    and "probation_memory_usage (klrucache (d_worker E)) = 0" and "protected_memory_usage (klrucache (d_worker E)) = 0"
    and "list_all (step_fine (unat (memtable_N cfg))) steps"
    and "tasks_fine (lru_cache_size cfg div 5) (unat (memtable_trigger_size cfg)) (map op_task (clients steps))"
    and "sum_list (map op_log (clients steps)) < unat kDefaultWalLogSize"
  shows "\<exists>d0 d ev. DB_Init E cfg (DB_ctor g gc) = Inr (True, d0) \<and> DB_steps E steps d0 = Inr (d, ev) \<and>
    (\<forall>i < unat (memtable_N cfg). map snd (filter (\<lambda>e. fst e = i) ev) =
      serve Map.empty (served (d_hash E) (unat (memtable_N cfg)) i [] steps))"
proof -
  let ?n = "unat (memtable_N cfg)" and ?cold = "lru_cache_size cfg div 5" and ?s = "spec_init (memtable_N cfg)"
  obtain d0 where d0: "DB_Init E cfg (DB_ctor g gc) = Inr (True, d0)"
    "db_fine E ?cold (?cold * 4) (unat (memtable_trigger_size cfg)) ?n d0 ?s (\<lambda>_. [])"
    using DB_Init_fine [OF assms(1-5,7-9)] by blast
  have s: "sp_log ?s = []" "i < ?n \<Longrightarrow> sp_queues ?s ! i = []" for i by (simp_all add: spec_init_def)
  have "tasks_fine ?cold (unat (memtable_trigger_size cfg))
      ([] @ sp_queues ?s ! i @ concat (map (for_shard (d_hash E) ?n i) (clients steps)))" if "i < ?n" for i
    using tasks_fine_shard [OF assms(11)] s(2) [OF that] by simp
  from DB_steps_serve [OF assms(1,6) d0(2) assms(10) _ this] show ?thesis
    using d0(1) assms(12) s by (auto simp: kv_after_def)
qed

text \<open>A set, a get of its key and a get of another key, with a round after each get.\<close>

definition example_steps :: "db_step list" where
  "example_steps = [Client (OpSet (example_set [97] [1])), Client (OpGet (GetContext_ctor 0 [97])), Round 1 0 3,
     Client (OpGet (GetContext_ctor 0 [98])), Round 1 0 3]"

theorem database_serves_clients_witness:
  "\<exists>d0 d ev. DB_Init example_db_env example_config (DB_ctor 0 example_config) = Inr (True, d0) \<and>
    DB_steps example_db_env example_steps d0 = Inr (d, ev) \<and> map snd (filter (\<lambda>e. fst e = 1) ev) =
      [GetDone ((GetContext_ctor 0 [97])\<lparr>get_value := [1], get_code := setCode kOk Status_ctor\<rparr>),
       GetDone ((GetContext_ctor 0 [98])\<lparr>get_code := setCode kNotFound Status_ctor\<rparr>)]"
proof -
  let ?n = "unat (memtable_N example_config)"
  have n: "?n = 2" by (simp add: example_config_def)
  have a: "aligned (example_set [97] [1])" by (rule example_aligned) simp_all
  then have r: "recalled (example_set [97] [1]) = [1]" "stored_rec (example_set [97] [1]) = set_rec (example_set [97] [1])"
    "readable (example_set [97] [1])"
    using aligned_storable(2) aligned_readable by (simp_all add: recalled_same aligned_def) (simp add: example_set_def)
  have serve: "serve Map.empty (served (d_hash example_db_env) 2 1 [] example_steps) =
      [GetDone ((GetContext_ctor 0 [97])\<lparr>get_value := [1], get_code := setCode kOk Status_ctor\<rparr>),
       GetDone ((GetContext_ctor 0 [98])\<lparr>get_code := setCode kNotFound Status_ctor\<rparr>)]"
    using r by (simp add: example_steps_def for_shard_def example_db_env_def example_hashers_def kv_put_def reply_def
        example_set_def GetContext_ctor_def callback_def)
  have h: "d_opened example_db_env = (3, [])" "(3 :: int) > 0" "d_ring_init example_db_env = 0"
    "memtable_N example_config \<noteq> 0" "d_write example_db_env = write_all" "5 \<le> unat (lru_cache_size example_config)"
    "probation_memory_usage (klrucache (d_worker example_db_env)) = 0"
    "protected_memory_usage (klrucache (d_worker example_db_env)) = 0"
    by (simp_all add: example_db_env_def example_config_def DBConfig_default_def example_task_worker_def kLRUCache_ctor_def)
  have "tasks_fine (lru_cache_size example_config div 5) (unat (memtable_trigger_size example_config))
      (map op_task (clients example_steps))"
    using r by (simp add: tasks_fine_def example_steps_def example_config_def DBConfig_default_def example_set_def GetContext_ctor_def unat_div
        set_rec_def rec_head_def length_encodeVarint64 varintLength_leb encodeVarint32_def)
  moreover have "list_all (step_fine ?n) example_steps" "sum_list (map op_log (clients example_steps)) < unat kDefaultWalLogSize"
    by (simp_all add: n example_steps_def example_set_def kDefaultWalLogSize_def)
  moreover have "btree_set (d_bt example_db_env)"
    using sorted_list.btree_set_axioms by (simp add: example_db_env_def)
  ultimately obtain d0 d ev where "DB_Init example_db_env example_config (DB_ctor 0 example_config) = Inr (True, d0)"
    "DB_steps example_db_env example_steps d0 = Inr (d, ev)"
    "\<forall>i < ?n. map snd (filter (\<lambda>e. fst e = i) ev) = serve Map.empty (served (d_hash example_db_env) ?n i [] example_steps)"
    using database_serves_clients [where E = example_db_env and cfg = example_config and g = 0 and gc = example_config
        and steps = example_steps and fd = 3] h by blast
  then show ?thesis using serve n by auto
qed

end
