(* ===== verification/Backtrace.thy ===== *)
theory Backtrace
  imports Logging
begin

text \<open>
  Stack traces and signals: \<open>src/base/backtrace.hpp\<close> and \<open>SignalExecute\<close> of
  \<open>src/base/log/logthread.cpp\<close>. The lines that \<open>backtrace_symbols\<close> returns (or its null pointer) and the
  demangler are arguments; a line is a C string without its terminator. \<open>exit\<close> runs the
  destructors of the calling thread's \<open>LogImp\<close> and of the log thread. The handler runs in the interrupted thread, on
  top of whatever it was doing: the state of the log it starts from has the mutex of the thread's buffer held when the thread
  was interrupted inside \<open>LogMent\<close>. The functions of the C library that the handler calls are taken to return.
\<close>

section \<open>Stack traces\<close>

text \<open>The last opening parenthesis and the last plus of a line.\<close>

fun scan_frame :: "bytes \<Rightarrow> nat \<Rightarrow> nat option \<Rightarrow> nat option \<Rightarrow> nat option \<times> nat option" where
  "scan_frame [] p left_par plus_sign = (left_par, plus_sign)"
| "scan_frame (c # cs) p left_par plus_sign =
     (if c = 40 then scan_frame cs (Suc p) (Some p) plus_sign
      else if c = 43 then scan_frame cs (Suc p) left_par (Some p)
      else scan_frame cs (Suc p) left_par plus_sign)"

text \<open>
  One frame. While the demangler runs, the plus is replaced by a terminator: the name it sees ends there, or at the
  end of the line when the plus is in front of the parenthesis.
\<close>

definition trace_frame :: "bool \<Rightarrow> (bytes \<Rightarrow> bytes option) \<Rightarrow> bytes \<Rightarrow> bytes" where
  "trace_frame demangle cxa_demangle str =
     (let fallback = str @ [10] in
      if demangle then
        case scan_frame str 0 None None of
          (Some left_par, Some plus_sign) \<Rightarrow>
            let name = drop (left_par + 1) (if left_par < plus_sign then take plus_sign str else str) in
            (case cxa_demangle name of
               Some demangled \<Rightarrow> take (left_par + 1) str @ demangled @ drop plus_sign str @ [10]
             | None \<Rightarrow> fallback)
        | _ \<Rightarrow> fallback
      else fallback)"

text \<open>The frame of \<open>stackTrace\<close> itself is skipped.\<close>

definition stackTrace :: "bool \<Rightarrow> (bytes \<Rightarrow> bytes option) \<Rightarrow> bytes list option \<Rightarrow> bytes" where
  "stackTrace demangle cxa_demangle symbols = (case symbols of
       None \<Rightarrow> []
     | Some strings \<Rightarrow> concat (map (trace_frame demangle cxa_demangle) (drop 1 strings)))"

section \<open>Signals\<close>

text \<open>The signals of Linux, the names as they are logged, and the lines of the calls of \<open>LOG_ERROR\<close>.\<close>

definition signal_case :: "int \<Rightarrow> (bytes \<times> nat) option" where
  "signal_case signal =
     (if signal = 2 then Some ([83, 73, 71, 73, 78, 84], 25)
      else if signal = 3 then Some ([83, 73, 71, 81, 85, 73, 84], 30)
      else if signal = 7 then Some ([83, 73, 71, 66, 85, 83], 35)
      else if signal = 11 then Some ([83, 73, 71, 83, 69, 71, 86], 40)
      else if signal = 4 then Some ([83, 73, 71, 73, 76, 76], 45)
      else if signal = 6 then Some ([83, 73, 71, 65, 66, 82, 84], 50)
      else None)"

text \<open>\<open>logthread.cpp\<close>; the text is the name, a colon, a line end and the trace.\<close>

definition signal_site :: "bytes \<Rightarrow> nat \<Rightarrow> bytes \<Rightarrow> log_site" where
  "signal_site name line error_log =
     \<lparr>ls_file = [108, 111, 103, 116, 104, 114, 101, 97, 100, 46, 99, 112, 112], ls_line = line, ls_lev = kError,
      ls_ment = name @ [58, 10] @ error_log\<rparr>"

text \<open>
  A call of \<open>LOG_ERROR\<close> by a thread: through its own logger, or, when the thread logs for the first time,
  through one that is constructed then. The index of the logger is part of the result.
\<close>

definition LOG_ERROR ::
  "(u64 \<Rightarrow> tm) \<Rightarrow> TimeStamp \<Rightarrow> Logger \<Rightarrow> nat option \<Rightarrow> log_site \<Rightarrow> LogThread \<Rightarrow> (nat \<times> LogThread) res" where
  "LOG_ERROR gmtime now garbage logimp s t =
     rbind (case logimp of
         Some i \<Rightarrow> Inr (i, t)
       | None \<Rightarrow> rbind (LogImp_ctor garbage t) (\<lambda>t'. Inr (length (loggers t), t'))) (\<lambda>(i, t).
     rbind (rd (loggers t) i) (\<lambda>l.
     rbind (LogMent gmtime now s (sumWrites t) l) (\<lambda>(l, out).
       Inr (i, t\<lparr>loggers := (loggers t)[i := l]\<rparr>))))"

text \<open>\<open>exit\<close> in a thread with logger \<open>i\<close>; the destructor of the log thread is \<open>Stop\<close>.\<close>

definition process_exit :: "(bytes \<Rightarrow> nat) \<Rightarrow> nat \<Rightarrow> LogThread \<Rightarrow> LogThread res" where
  "process_exit fw i t =
     rbind (rd (loggers t) i) (\<lambda>l. LogThread_Stop fw (t\<lparr>loggers := (loggers t)[i := LogImp_dtor l]\<rparr>))"

text \<open>The exit status, if the process exits, and the state of the log.\<close>

definition SignalExecute ::
  "(u64 \<Rightarrow> tm) \<Rightarrow> TimeStamp \<Rightarrow> Logger \<Rightarrow> (bytes \<Rightarrow> nat) \<Rightarrow> (bytes \<Rightarrow> bytes option) \<Rightarrow> bytes list option \<Rightarrow>
    nat option \<Rightarrow> int \<Rightarrow> LogThread \<Rightarrow> (int option \<times> LogThread) res" where
  "SignalExecute gmtime now garbage fw cxa_demangle symbols logimp signal t =
     (case signal_case signal of
        None \<Rightarrow> Inr (None, t)
      | Some (name, line) \<Rightarrow>
          let error_log = stackTrace True cxa_demangle symbols in
          rbind (LOG_ERROR gmtime now garbage logimp (signal_site name line error_log) t) (\<lambda>(i, t).
          rbind (process_exit fw i t) (\<lambda>t. Inr (Some (-1), t))))"

section \<open>Lemmas\<close>

lemma scan_frame_skip:
  "40 \<notin> set xs \<Longrightarrow> 43 \<notin> set xs \<Longrightarrow> scan_frame (xs @ ys) p lp pl = scan_frame ys (p + length xs) lp pl"
  by (induction xs arbitrary: p) auto

text \<open>A line \<open>module(name+offset) [address]\<close> gets its name demangled.\<close>

lemma trace_frame_demangled:
  assumes "40 \<notin> set module" "43 \<notin> set module" "40 \<notin> set name" "43 \<notin> set name" "40 \<notin> set rest" "43 \<notin> set rest"
    and "dem name = Some d"
  shows "trace_frame True dem (module @ [40] @ name @ [43] @ rest) = module @ [40] @ d @ [43] @ rest @ [10]"
proof -
  have "scan_frame (module @ [40] @ name @ [43] @ rest) 0 None None =
      (Some (length module), Some (length module + 1 + length name))"
    using assms(1-4) scan_frame_skip [OF assms(5,6), of "[]"]
    by (simp add: scan_frame_skip)
  then show ?thesis using assms(7) by (simp add: trace_frame_def Let_def)
qed

text \<open>An error reaches the buffer of a logger whose level is at most \<open>kError\<close>.\<close>

lemma LogMent_error:
  assumes "ls_lev s = kError" "curLogLevel l \<le> 3" "lg_sumWrites l" "\<not> buf_mtx (lg_buf l)"
  shows "\<exists>l' out. LogMent gm now s 0 l = Inr (l', out) \<and>
    cur_buf (lg_buf l') = cur_buf (lg_buf l) @ log_line 69 (fst (ToFormatTodayNowUs gm now)) s"
  using LogMent_kept [of l s gm now 0] assms by (simp add: less_eq_LogLevel_def kLogLevelNums_def numeral_eq_Suc)

lemma exit_writes:
  assumes "logging gm fw t" "lt_isRunning t" "\<forall>s. fw s = length s" "i < length (loggers t)"
  shows "\<exists>t'. process_exit fw i t = Inr t' \<and>
    fileptr (log_file t') = Some (concat (map (\<lambda>j. cur_buf (lg_buf (loggers t ! j))) (logworkers t)))"
proof -
  let ?t = "t\<lparr>loggers := (loggers t)[i := LogImp_dtor (loggers t ! i)]\<rparr>"
  have "cur_buf (lg_buf (loggers ?t ! j)) = cur_buf (lg_buf (loggers t ! j))" for j
    using assms(4) by (cases "i = j") (simp_all add: LogImp_dtor_def)
  then show ?thesis
    using Stop_writes_buffers [OF logging_exit [OF assms(1,4)]] assms(2-4) by (simp add: process_exit_def)
qed

text \<open>In a thread that has not logged before and is not the log's own, the logger is constructed in the handler: no turn takes it over any more, and
  the trace is lost.\<close>

lemma LogMent_returns:
  "ls_lev s = kError \<Longrightarrow> lg_sumWrites l \<Longrightarrow> \<not> buf_mtx (lg_buf l) \<Longrightarrow> \<exists>l' out. LogMent gm now s 0 l = Inr (l', out)"
  by (auto simp: LogMent_def kLogLevelNums_def Let_def case_prod_beta kLogThreshold_def numeral_eq_Suc)

lemma signal_trace_lost:
  assumes "logging gm fw t" "lt_isRunning t" "\<forall>s. fw s = length s" "signal_case signal = Some (name, line)"
    and "0 \<le> loglev t" "loglev t < 16"
  shows "\<exists>t'. SignalExecute gm now garbage fw dem symbols None signal t = Inr (Some (-1), t') \<and>
    fileptr (log_file t') = Some (concat (map (\<lambda>j. cur_buf (lg_buf (loggers t ! j))) (logworkers t)))"
proof -
  let ?s = "signal_site name line (stackTrace True dem symbols)" and ?n = "length (loggers t)"
  obtain t1 l1 where t1: "LogImp_ctor garbage t = Inr t1" "loggers t1 = loggers t @ [l1]" "logworkers t1 = logworkers t"
    "lt_isRunning t1" "sumWrites t1 = sumWrites t"
    using assms(2,5,6) by (auto simp: LogImp_ctor_def AddLogger_def Let_def setLogLev_def setBufSize_def setLogToFile_def
        Logger_ctor_def)
  have r1: "logging gm fw t1" using assms(1) t1(1) by (rule logging_thread)
  obtain l out where l: "LogMent gm now ?s 0 l1 = Inr (l, out)"
    using LogMent_returns [of ?s l1 gm now] logging_counter [OF r1] logging_ok [OF r1] t1(2)
    by (auto simp: signal_site_def log_ok_def)
  let ?t = "t1\<lparr>loggers := loggers t @ [l]\<rparr>"
  have z: "sumWrites t1 = 0" using logging_ok [OF r1] by (simp add: log_ok_def)
  have "logging gm fw ?t" using logging_ment [OF r1, of ?n now ?s l out] l t1(2) z by simp
  then obtain t' where t': "process_exit fw ?n ?t = Inr t'"
    "fileptr (log_file t') = Some (concat (map (\<lambda>j. cur_buf (lg_buf ((loggers t @ [l]) ! j))) (logworkers t)))"
    using exit_writes [of gm fw ?t ?n] assms(3) t1(3,4) by auto
  have "\<forall>j \<in> set (logworkers t). (loggers t @ [l]) ! j = loggers t ! j"
    using logging_ok [OF assms(1)] by (auto simp: log_ok_def nth_append)
  with t' l show ?thesis using assms(4) t1 z
    by (auto simp: SignalExecute_def LOG_ERROR_def Let_def cong: map_cong)
qed

section \<open>Properties\<close>

text \<open>Property C30. A signal of the handler interrupts a thread whose logger the running log has taken over and whose
  level is at most \<open>kError\<close>. When the thread does not hold the mutex of its buffer, and \<open>fwrite\<close> takes every buffer
  whole, the process exits with -1 and the log file holds the line with the name of the signal and the stack trace. When
  the signal arrives while \<open>LogMent\<close> holds the mutex, the handler locks it again and never returns.\<close>

theorem signal_trace_logged:
  assumes "logging gm fw t" "lt_isRunning t" "\<forall>s. fw s = length s" "i \<in> set (logworkers t)"
    and "curLogLevel (loggers t ! i) \<le> level_int kError" "signal_case signal = Some (name, line)"
  shows "(\<exists>t' before after. SignalExecute gm now garbage fw dem symbols (Some i) signal t = Inr (Some (-1), t') \<and>
      fileptr (log_file t') = Some (before @ log_line 69 (fst (ToFormatTodayNowUs gm now))
        (signal_site name line (stackTrace True dem symbols)) @ after)) \<and>
    (\<forall>b. buf_mtx b \<longrightarrow> SignalExecute gm now garbage fw dem symbols (Some i) signal
      (t\<lparr>loggers := (loggers t)[i := (loggers t ! i)\<lparr>lg_buf := b\<rparr>]\<rparr>) = Inl Deadlock)"
proof -
  let ?s = "signal_site name line (stackTrace True dem symbols)"
  have ok: "log_ok t" using logging_ok [OF assms(1)] .
  then have i: "i < length (loggers t)" "sumWrites t = 0" using assms(4) by (auto simp: log_ok_def)
  obtain l out where l: "LogMent gm now ?s 0 (loggers t ! i) = Inr (l, out)"
    "cur_buf (lg_buf l) = cur_buf (lg_buf (loggers t ! i)) @ log_line 69 (fst (ToFormatTodayNowUs gm now)) ?s"
    using LogMent_error [of ?s "loggers t ! i" gm now] logging_counter [OF assms(1)] i(1) assms(5) ok
    by (auto simp: signal_site_def log_ok_def)
  let ?t = "t\<lparr>loggers := (loggers t)[i := l]\<rparr>"
  have "logging gm fw ?t" using logging_ment [OF assms(1) i(1)] l(1) i(2) by simp
  then obtain t' where t': "process_exit fw i ?t = Inr t'"
    "fileptr (log_file t') = Some (concat (map (\<lambda>j. cur_buf (lg_buf (loggers ?t ! j))) (logworkers t)))"
    using exit_writes [of gm fw ?t i] assms(2,3) i(1) by auto
  obtain xs ys where w: "logworkers t = xs @ i # ys" using split_list [OF assms(4)] by blast
  let ?c = "\<lambda>js. concat (map (\<lambda>j. cur_buf (lg_buf ((loggers t)[i := l] ! j))) js)"
  have "fileptr (log_file t') = Some ((?c xs @ cur_buf (lg_buf (loggers t ! i))) @
      log_line 69 (fst (ToFormatTodayNowUs gm now)) ?s @ ?c ys)"
    using t'(2) l(2) i(1) by (simp add: w)
  moreover have "SignalExecute gm now garbage fw dem symbols (Some i) signal t = Inr (Some (-1), t')"
    using t'(1) l(1) i assms(6) by (simp add: SignalExecute_def LOG_ERROR_def Let_def)
  moreover have "SignalExecute gm now garbage fw dem symbols (Some i) signal
      (t\<lparr>loggers := (loggers t)[i := (loggers t ! i)\<lparr>lg_buf := b\<rparr>]\<rparr>) = Inl Deadlock" if "buf_mtx b" for b
    using LogMent_held [of "(loggers t ! i)\<lparr>lg_buf := b\<rparr>" ?s gm now] that i(1) assms(5,6)
    by (simp add: SignalExecute_def LOG_ERROR_def Let_def signal_site_def less_eq_LogLevel_def)
  ultimately show ?thesis by blast
qed

theorem signal_trace_logged_witness:
  "(\<exists>t' before after. SignalExecute example_tm example_now example_logger length (\<lambda>_. Some [102])
        (Some [[97], [109, 40, 110, 43, 49, 41]]) (Some 0) 2 example_started = Inr (Some (-1), t') \<and>
      fileptr (log_file t') = Some (before @ log_line 69 (fst (ToFormatTodayNowUs example_tm example_now))
        (signal_site [83, 73, 71, 73, 78, 84] 25 [109, 40, 102, 43, 49, 41, 10]) @ after)) \<and>
    SignalExecute example_tm example_now example_logger length (\<lambda>_. Some [102])
      (Some [[97], [109, 40, 110, 43, 49, 41]]) (Some 0) 2 (example_started\<lparr>loggers := (loggers example_started)[0 :=
        (loggers example_started ! 0)\<lparr>lg_buf := VecLogBuffer_ctor\<lparr>buf_mtx := True\<rparr>\<rparr>]\<rparr>) = Inl Deadlock"
proof -
  have "stackTrace True (\<lambda>_. Some [102]) (Some [[97], [109, 40, 110, 43, 49, 41]]) = [109, 40, 102, 43, 49, 41, 10]"
    by (simp add: stackTrace_def trace_frame_def)
  moreover have "signal_case 2 = Some ([83, 73, 71, 73, 78, 84], 25)" by (simp add: signal_case_def)
  ultimately show ?thesis
    using signal_trace_logged [of example_tm length example_started 0 2 "[83, 73, 71, 73, 78, 84]" 25 example_now
        example_logger "\<lambda>_. Some [102]" "Some [[97], [109, 40, 110, 43, 49, 41]]"] example_started
    by simp
qed

end
