(* ===== verification/Spec2Isabelle.thy ===== *)
theory Spec2Isabelle
  imports Net_Server Conn_Buffers Raft_Server Bloom_Hash Farm_Select Db_Run Backtrace
begin

text \<open>
  ShaunDB: a model of the program and what it was shown to do.

  \<^bold>\<open>The program.\<close> ShaunDB is a key-value store in C++ under \<open>src/src\<close>. A server takes requests in the
  Redis protocol (\<open>server/\<close>) from libevent connections (\<open>net/\<close>), parses them in place and hands them to a
  database (\<open>db/exportdb.cpp\<close>). The database numbers every write, appends it to a write-ahead log
  (\<open>db/wal_writer.cpp\<close>, \<open>util/file/\<close>) and queues the request at one of several task workers
  (\<open>db/shared_memtable.cpp\<close>), chosen by a hash of the key. A worker owns a memtable (\<open>db/memtable.cpp\<close>),
  a record cache (\<open>util/klrucache.cpp\<close>) and the read-only memtables not yet on disk. A full memtable goes
  to a compaction worker (\<open>db/compactor.cpp\<close>), which formats it, writes it with io_uring
  (\<open>util/iouring.cpp\<close>) into a table file (\<open>db/sstable.cpp\<close>, \<open>db/sstable_manager.cpp\<close>), maps the finished
  file and publishes it as a view (\<open>db/memtable_view.cpp\<close>, \<open>db/memtable_view_manager.cpp\<close>); with too
  many levels it merges views. Bloom filters (\<open>util/bloomfilter.hpp\<close>) sit in front of memtables and
  views. Beside this stand a log (\<open>base/log/\<close>), time stamps (\<open>base/timestamp.cpp\<close>) and the election half of a
  Raft implementation (\<open>raft/\<close>), which nothing else uses yet.

  \<^bold>\<open>Theories.\<close> Each theory models one part, in the order of the code; the definitions keep the names
  of the functions they translate.

  \<^item> \<open>Prelude\<close>: bytes, machine words, the error type \<open>cxx_error\<close> and the monad \<open>rbind\<close> on results, checked
    reads of memory, decimal numbers.
  \<^item> \<open>Key_Format\<close> (\<open>db/key_format.cpp\<close>, \<open>db/key_format.hpp\<close>): fixed-width and varint codecs with the
    pointer and limit of the C++ functions, prefix compression. Round trips for every value, decoders never read outside their
    window, the unrolled encoder equals the loop.
  \<^item> \<open>Crc32\<close> (\<open>util/crc32.cpp\<close>): the table-driven checksum with its alignment prologue equals the bitwise
    CRC-32C; extension over a concatenation; masking is reversible.
  \<^item> \<open>Db_Types\<close> (\<open>db/status.hpp\<close>, \<open>db/request.hpp\<close>, \<open>db/dbconfig.hpp\<close>, \<open>db/snapshot.cpp\<close>).
  \<^item> \<open>Files\<close> (\<open>util/file/\<close>): a file is its contents and a position. The locale \<open>byte_sink\<close> is the contract
    of an append-only stream; the unbuffered and the buffered file are interpretations.
  \<^item> \<open>Wal\<close> (\<open>db/wal_writer.cpp\<close> and the log formats of \<open>db/key_format.cpp\<close>): record round trip, the ring
    never exceeds its size by more than a record, a fresh log is the concatenation of its records.
  \<^item> \<open>Bloom\<close> (\<open>util/bitset.hpp\<close>, \<open>util/bloomfilter.hpp\<close>): the locale \<open>key_filter\<close> and its interpretation; no
    false negatives whatever the hash functions are.
  \<^item> \<open>Xxhash64\<close> (\<open>util/hash/xxhash64.hpp\<close>): streaming equals hashing at once; published values.
  \<^item> \<open>Hash_Memory\<close>: what the other hashes share: loads from a memory, and a relational calculus (\<open>agree\<close>, collected in
    \<open>window_intros\<close>) that shows of a function, construct by construct, that it returns and sees nothing but its key. The locale
    \<open>key_hash\<close> is the contract a client relies on; every hash function below is an interpretation of it.
    \<open>seeded_hash\<close> extends it to the hashes that mix a seed into another hash without losing anything; it is again a
    \<open>key_hash\<close>, and the seed does not change which keys collide.
  \<^item> \<open>City_Hash\<close> (\<open>util/hash/city_hash.cpp\<close>), \<open>Farm_Hash\<close> and \<open>Farm_Cc\<close> (\<open>util/hash/farmhash.cpp\<close>): all
    portable hashes of both libraries. Loops that end at a pointer terminate because a load behind the memory fails. No load
    leaves the key; seeds do not change which keys collide; \<open>farmhashcc\<close> is CityHash.
  \<^item> \<open>Simd\<close>: 128-bit registers, their lanes and the intrinsics that the hashes use; the checksum instruction
    agrees with the checksum of \<open>Crc32\<close>.
  \<^item> \<open>Farm_Te\<close>, \<open>Farm_Crc\<close>, \<open>City_Crc\<close>: the hashes for processors with these instructions (\<open>farmhashte\<close>, \<open>farmhashnt\<close>;
    \<open>farmhashsu\<close>, \<open>farmhashsa\<close>; \<open>CityHashCrc256\<close>). \<open>Farm_Select\<close>: the functions of \<open>farmhash.hpp\<close> in every build. The
    definitions of FarmHash were compared with the tables of the self tests for lengths on every branch, one
    entry of which is kept as a lemma.
  \<^item> \<open>Bloom_Hash\<close>: the filter with these hash functions, on views into memory. It is the filter of \<open>Bloom\<close> at one choice of
    its functions, so everything shown with \<open>hashers\<close> holds for the program's own; a release build uses three of
    the four.
  \<^item> \<open>Btree\<close>: the interface of \<open>absl::btree_set\<close> as a record of operations with its documented laws in the
    locale \<open>btree_set\<close>, interpreted by sorted lists.
  \<^item> \<open>Memtable\<close> (\<open>db/comparator.hpp\<close>, \<open>db/memtable.cpp\<close>): the memtable is a map in which the first write
    of a key wins, and stays sorted and covered by its filter, as long as records have room for their sequence numbers. A
    record gives back the value only if number and length take equally many bytes; \<open>set_answer\<close> says what it gives back
    otherwise, \<open>delete_answer\<close> what a deletion does.
  \<^item> \<open>Memtable_View\<close>, \<open>View_Manager\<close>: views over mapped files, their levels, locks and merges. What a merged view finds depends on
    a seed that is read from uninitialised memory.
  \<^item> \<open>Klru_Cache\<close>: the two-segment cache with node identities, so that dangling iterators show.
  \<^item> \<open>Sstable\<close>, \<open>Iouring\<close>: table files and the ring.
  \<^item> \<open>Compactor\<close>, \<open>Comp_Worker\<close>: the file format byte by byte; a turn of a worker: collecting
    finished writes, flushing in order, each table to its own file, merging.
  \<^item> \<open>Shared_Memtable\<close>: a round of a task worker and the sharding in front of it.
  \<^item> \<open>Export_Db\<close>: the database; \<open>db_spec\<close> is its abstract specification (a numbered log and one queue
    per shard), which \<open>Init\<close> establishes and every operation implements.
  \<^item> \<open>Db_Run\<close>: clients and workers together. However requests and rounds interleave, the gets are answered as by a
    map in which the first write of a key wins, under the conditions \<open>step_fine\<close> and \<open>tasks_fine\<close> that keep cache and memtable
    out of the states in which they fail: no deletions, no key asked for twice, records that fit and can be read back,
    tables and log that do not get full.
  \<^item> \<open>Redis_Protocol\<close>, \<open>Server\<close>: the parser, and the handler of readable connections on top of parser and
    database.
  \<^item> \<open>Timers\<close> (\<open>net/single_timer.cpp\<close>, \<open>net/repeated_timer.cpp\<close>): both timers over an event of libevent; the locale
    \<open>event_timer\<close> is what they share, both are interpretations. A repeated timer keeps firing and
    cannot be stopped from its callback; a single timer fires once.
  \<^item> \<open>Net\<close> (\<open>net/connection.cpp\<close>, \<open>net/net_server.cpp\<close>, \<open>net/conn_callback.cpp\<close>, \<open>net/active_conn.cpp\<close>): connections on a
    heap of counted references, the map of the server, the callbacks, active connections. The locale
    \<open>conn_handlers\<close> is what a server's handlers have to keep; in it every callback preserves the invariant \<open>net_ok\<close>.
  \<^item> \<open>Net_Server\<close>: the handlers of \<open>Server\<close> as an interpretation of \<open>conn_handlers\<close> and runs of the server
    on the network as a step relation: callbacks find their connection, ended connections are forgotten, requests of a client
    are answered on its connection.
  \<^item> \<open>Conn_Buffers\<close>: the members of a connection that work on its evbuffers.
  \<^item> \<open>Timestamp\<close>, \<open>Logging\<close>: time stamps; the ordered levels, loggers with the mutex of their buffers, the log file and the log
    thread as a step relation.
  \<^item> \<open>Backtrace\<close> (\<open>base/backtrace.hpp\<close>, \<open>SignalExecute\<close>): stack traces, and a signal handler that logs one and exits: when
    the trace is in the log file, when it is lost, and when the handler deadlocks with the thread it interrupted.
  \<^item> \<open>Raft\<close>, \<open>Raft_Server\<close>: nodes, the vote handler, the fibers of an election with the frame of local variables that they
    share by reference, and the runs of a server as a step relation; the server that owns the timers, which it never starts.

  \<^bold>\<open>Conventions.\<close> A C++ integer is a word of its width and wraps; \<open>int\<close> arithmetic that may overflow
  is checked. An undefined read, a null dereference, a failed assertion (assertions are enabled), a use after free, a
  pointer never set, a missing \<open>return\<close>, a mutex locked twice and a cast to an enumeration that lacks the value are values of \<open>cxx_error\<close>, on the left of the sum \<open>res\<close>. What
  the program does not decide is an argument: answers of the kernel and of libevent (records \<open>evlib\<close> and \<open>netlib\<close> with
  predicates for what their documentation promises), what the preprocessor asks of a build (the record \<open>build\<close>), the four hash functions where
  the result does not depend on them (a record \<open>hashers\<close>), addresses, and the contents of uninitialised members
  (arguments called \<open>garbage\<close>). Threads are rounds: a state is only changed between two waits, and the
  theorems that quantify over rounds, turns or steps cover every order of them. Mutexes leave a trace only
  where one is left locked or may be locked again by its holder. Calls of the log have no effect on the other parts. A plain \<open>{}\<close>
  of the formatting library is concatenation.

  \<^bold>\<open>Fuel.\<close> Two loops of the program need not end and run on fuel: the request parser, which on a well-formed request of
  \<open>n\<close> elements ends within \<open>4 * n + 2\<close> turns and for which requests are shown on which no fuel suffices, and
  the collection of finished writes, which for an event without an owner never ends. All other
  functions are total by their termination proofs.

  \<^bold>\<open>Properties.\<close> The properties, numbered in their texts, state first what works (codecs, checksum, log, files, memtable,
  filters and their hashes, cache, database, flush order, connections, timers), and then where the code does not do what
  it means to: among them that the server rejects every well-formed request, that no flushed table becomes
  readable, that the log reaches its file only on \<open>Stop\<close>, and that
  no election is ever decided. Each text names the conditions under which its property holds.

  \<^bold>\<open>Not modelled.\<close> The self tests at the end of \<open>util/hash/farmhash.cpp\<close> with their tables, which are switched off
  and are most of that file. \<open>std::hash\<close> belongs to the library and is an argument. Some members that only return a field
  have no definition of their own. \<open>raft/storage.cpp\<close> has only empty functions that do not match their declarations, and
  \<open>Hash128WithSeed\<close> of a string calls a function that does not exist. The formatters of \<open>raft/fiber_define.hpp\<close>, tests, benchmarks
  and build files are left out.
\<close>

end
